(* ===== verification/Prelude.thy ===== *)
theory Prelude
  imports Main
begin

text \<open>
  What every component of the development shares: the result of a Rust function, programs
  that pass a state and may return early (the \<open>?\<close> operator), the calculus of invariants
  over such programs, and the table operations of the SQL statements (a table is the list
  of its rows, found by key).
\<close>

named_theorems keeps_rules \<open>invariants and frames of the program combinators\<close>

section \<open>Results and programs\<close>

text \<open>A function returns a value, returns an error, or panics.\<close>

datatype ('e, 'a) result = Ok 'a | Err 'e | Panic

type_synonym ('s, 'e, 'a) prog = "'s \<Rightarrow> ('e, 'a) result \<times> 's"

definition return :: "'a \<Rightarrow> ('s, 'e, 'a) prog" where
  "return x s = (Ok x, s)"

definition throw :: "'e \<Rightarrow> ('s, 'e, 'a) prog" where
  "throw e s = (Err e, s)"

definition panic :: "('s, 'e, 'a) prog" where
  "panic s = (Panic, s)"

text \<open>\<open>and_then m f\<close> is \<open>let x = m?; f(x)\<close>: an error or a panic of \<open>m\<close> returns early.\<close>

definition and_then :: "('s, 'e, 'a) prog \<Rightarrow> ('a \<Rightarrow> ('s, 'e, 'b) prog) \<Rightarrow> ('s, 'e, 'b) prog" where
  "and_then m f s =
     (case m s of
        (Ok x, s') \<Rightarrow> f x s'
      | (Err e, s') \<Rightarrow> (Err e, s')
      | (Panic, s') \<Rightarrow> (Panic, s'))"

definition map_err :: "('e \<Rightarrow> 'f) \<Rightarrow> ('s, 'e, 'a) prog \<Rightarrow> ('s, 'f, 'a) prog" where
  "map_err g m s =
     (case m s of
        (Ok x, s') \<Rightarrow> (Ok x, s')
      | (Err e, s') \<Rightarrow> (Err (g e), s')
      | (Panic, s') \<Rightarrow> (Panic, s'))"

text \<open>\<open>attempt m k\<close> is \<open>match m { .. }\<close>: the result is inspected, only a panic propagates.\<close>

definition attempt :: "('s, 'e, 'a) prog \<Rightarrow> ('e + 'a \<Rightarrow> ('s, 'f, 'b) prog) \<Rightarrow> ('s, 'f, 'b) prog" where
  "attempt m k s =
     (case m s of
        (Ok x, s') \<Rightarrow> k (Inr x) s'
      | (Err e, s') \<Rightarrow> k (Inl e) s'
      | (Panic, s') \<Rightarrow> (Panic, s'))"

definition gets :: "('s \<Rightarrow> 'a) \<Rightarrow> ('s, 'e, 'a) prog" where
  "gets f s = (Ok (f s), s)"

definition modify :: "('s \<Rightarrow> 's) \<Rightarrow> ('s, 'e, unit) prog" where
  "modify f s = (Ok (), f s)"

definition guard :: "bool \<Rightarrow> 'e \<Rightarrow> ('s, 'e, unit) prog" where
  "guard b e s = (if b then (Ok (), s) else (Err e, s))"

fun for_each :: "('a \<Rightarrow> ('s, 'e, unit) prog) \<Rightarrow> 'a list \<Rightarrow> ('s, 'e, unit) prog" where
  "for_each f [] s = (Ok (), s)"
| "for_each f (x # xs) s = and_then (f x) (\<lambda>_. for_each f xs) s"

lemmas prog_defs = return_def throw_def panic_def gets_def modify_def guard_def

lemma and_then_return [simp]: "and_then (return x) f = f x"
  by (rule ext) (simp add: and_then_def return_def)

lemma and_then_throw [simp]: "and_then (throw e) f = throw e"
  by (rule ext) (simp add: and_then_def throw_def)

lemma and_then_gets [simp]: "and_then (gets g) f s = f (g s) s"
  by (simp add: and_then_def gets_def)

lemma and_then_modify [simp]: "and_then (modify g) f s = f () (g s)"
  by (simp add: and_then_def modify_def)

lemma and_then_guard [simp]: "and_then (guard b e) f s = (if b then f () s else (Err e, s))"
  by (simp add: and_then_def guard_def)

lemma and_then_assoc: "and_then (and_then m f) g = and_then m (\<lambda>x. and_then (f x) g)"
  by (rule ext) (simp add: and_then_def split: prod.splits result.splits)

text \<open>Inversion: what a successful sequence says about its parts.\<close>

lemma and_then_OkE:
  assumes "and_then m f s = (Ok y, t)"
  obtains x s' where "m s = (Ok x, s')" and "f x s' = (Ok y, t)"
  using assms by (auto simp: and_then_def split: prod.splits result.splits)

lemma and_then_Ok: "m s = (Ok x, s') \<Longrightarrow> and_then m f s = f x s'"
  by (simp add: and_then_def)

lemma and_then_Err: "m s = (Err e, s') \<Longrightarrow> and_then m f s = (Err e, s')"
  by (simp add: and_then_def)

lemma map_err_Ok_iff [simp]: "map_err g m s = (Ok x, s') \<longleftrightarrow> m s = (Ok x, s')"
  by (auto simp: map_err_def split: prod.splits result.splits)

lemma snd_map_err [simp]: "snd (map_err g m s) = snd (m s)"
  by (simp add: map_err_def split: prod.splits result.splits)

section \<open>Invariants and frames of programs\<close>

text \<open>
  \<open>keeps I m\<close>: if the invariant \<open>I\<close> holds before \<open>m\<close>, it holds after \<open>m\<close>,
  whatever \<open>m\<close> returns, errors and panics included. A frame condition is the invariant
  \<open>\<lambda>s. f s = c\<close>.
\<close>

definition keeps :: "('s \<Rightarrow> bool) \<Rightarrow> ('s, 'e, 'a) prog \<Rightarrow> bool" where
  "keeps I m \<longleftrightarrow> (\<forall>s. I s \<longrightarrow> I (snd (m s)))"

lemma keepsI: "(\<And>s. I s \<Longrightarrow> I (snd (m s))) \<Longrightarrow> keeps I m"
  by (simp add: keeps_def)

lemma keepsD: "keeps I m \<Longrightarrow> I s \<Longrightarrow> I (snd (m s))"
  by (simp add: keeps_def)

lemma keepsE: "keeps I m \<Longrightarrow> m s = (r, s') \<Longrightarrow> I s \<Longrightarrow> I s'"
  by (metis keepsD snd_conv)

lemma keeps_return [keeps_rules]: "keeps I (return x)"
  by (simp add: keeps_def return_def)

lemma keeps_throw [keeps_rules]: "keeps I (throw e)"
  by (simp add: keeps_def throw_def)

lemma keeps_panic [keeps_rules]: "keeps I panic"
  by (simp add: keeps_def panic_def)

lemma keeps_gets [keeps_rules]: "keeps I (gets f)"
  by (simp add: keeps_def gets_def)

lemma keeps_guard [keeps_rules]: "keeps I (guard b e)"
  by (simp add: keeps_def guard_def)

lemma keeps_modify: "(\<And>s. I s \<Longrightarrow> I (f s)) \<Longrightarrow> keeps I (modify f)"
  by (simp add: keeps_def modify_def)

lemma keeps_and_then [keeps_rules]:
  "keeps I m \<Longrightarrow> (\<And>x. keeps I (f x)) \<Longrightarrow> keeps I (and_then m f)"
  by (fastforce simp: keeps_def and_then_def split: prod.splits result.splits)

lemma keeps_attempt [keeps_rules]:
  "keeps I m \<Longrightarrow> (\<And>x. keeps I (k x)) \<Longrightarrow> keeps I (attempt m k)"
  by (fastforce simp: keeps_def attempt_def split: prod.splits result.splits)

lemma keeps_map_err [keeps_rules]: "keeps I m \<Longrightarrow> keeps I (map_err g m)"
  by (simp add: keeps_def)

lemma keeps_if [keeps_rules]: "keeps I m \<Longrightarrow> keeps I n \<Longrightarrow> keeps I (if b then m else n)"
  by simp

lemma keeps_case_option [keeps_rules]:
  "keeps I m \<Longrightarrow> (\<And>x. keeps I (f x)) \<Longrightarrow> keeps I (case z of None \<Rightarrow> m | Some x \<Rightarrow> f x)"
  by (cases z) simp_all

lemma keeps_case_sum [keeps_rules]:
  "(\<And>x. keeps I (f x)) \<Longrightarrow> (\<And>y. keeps I (g y)) \<Longrightarrow>
     keeps I (case z of Inl x \<Rightarrow> f x | Inr y \<Rightarrow> g y)"
  by (cases z) simp_all

lemma keeps_case_prod [keeps_rules]:
  "(\<And>x y. keeps I (f x y)) \<Longrightarrow> keeps I (case z of (x, y) \<Rightarrow> f x y)"
  by (cases z) simp

lemma keeps_for_each [keeps_rules]:
  assumes "\<And>x. keeps I (f x)"
  shows "keeps I (for_each f xs)"
proof (induction xs)
  case Nil
  show ?case by (simp add: keeps_def)
next
  case (Cons x xs)
  have "keeps I (and_then (f x) (\<lambda>_. for_each f xs))"
    using assms Cons.IH by (rule keeps_and_then)
  then show ?case by (simp add: keeps_def)
qed

section \<open>Options, lists and association lists\<close>

text \<open>A row is found by its key in a table kept as a list of rows.\<close>

definition row_by :: "('r \<Rightarrow> 'k) \<Rightarrow> 'k \<Rightarrow> 'r list \<Rightarrow> 'r option" where
  "row_by key k rows = find (\<lambda>r. key r = k) rows"

lemma row_by_SomeD: "row_by key k rows = Some r \<Longrightarrow> r \<in> set rows \<and> key r = k"
  by (auto simp: row_by_def find_Some_iff)

lemma row_by_None_iff: "row_by key k rows = None \<longleftrightarrow> k \<notin> key ` set rows"
  by (auto simp: row_by_def find_None_iff)

lemma row_by_distinct:
  assumes "distinct (map key rows)" and "r \<in> set rows"
  shows "row_by key (key r) rows = Some r"
proof -
  from assms(2) obtain r' where r': "row_by key (key r) rows = Some r'"
    by (metis image_eqI not_None_eq row_by_None_iff)
  then have "r' \<in> set rows" "key r' = key r" by (auto dest: row_by_SomeD)
  with assms have "r' = r" by (metis distinct_map inj_onD)
  with r' show ?thesis by simp
qed

text \<open>\<open>UPDATE .. WHERE p\<close> and \<open>DELETE .. WHERE p\<close> on a table, with the affected-row count.\<close>

definition update_where :: "('r \<Rightarrow> bool) \<Rightarrow> ('r \<Rightarrow> 'r) \<Rightarrow> 'r list \<Rightarrow> 'r list" where
  "update_where p f rows = map (\<lambda>r. if p r then f r else r) rows"

definition delete_where :: "('r \<Rightarrow> bool) \<Rightarrow> 'r list \<Rightarrow> 'r list" where
  "delete_where p rows = filter (\<lambda>r. \<not> p r) rows"

definition count_where :: "('r \<Rightarrow> bool) \<Rightarrow> 'r list \<Rightarrow> nat" where
  "count_where p rows = length (filter p rows)"

lemma count_where_0_iff: "count_where p rows = 0 \<longleftrightarrow> (\<forall>r\<in>set rows. \<not> p r)"
  by (auto simp: count_where_def filter_empty_conv)

lemma set_delete_where [simp]: "set (delete_where p rows) = {r \<in> set rows. \<not> p r}"
  by (auto simp: delete_where_def)

lemma map_key_update_where:
  "(\<And>r. key (f r) = key r) \<Longrightarrow> map key (update_where p f rows) = map key rows"
  by (simp add: update_where_def)

lemma distinct_delete_where: "distinct (map key rows) \<Longrightarrow> distinct (map key (delete_where p rows))"
  by (simp add: delete_where_def distinct_map_filter)

lemma in_update_where: "r \<in> set (update_where p f rows) \<longleftrightarrow>
    (\<exists>x\<in>set rows. r = (if p x then f x else x))"
  by (auto simp: update_where_def)

lemma update_where_none: "(\<forall>r\<in>set rows. \<not> p r) \<Longrightarrow> update_where p f rows = rows"
  by (simp add: update_where_def map_idI)

text \<open>The row of a key after a change of the table.\<close>

lemma row_by_Nil [simp]: "row_by key k [] = None"
  by (simp add: row_by_def)

lemma row_by_Cons [simp]: "row_by key k (r # rows) = (if key r = k then Some r else row_by key k rows)"
  by (simp add: row_by_def)

lemma row_by_update_where:
  assumes "\<And>r. key (f r) = key r"
  shows "row_by key k (update_where (\<lambda>r. key r = k0) f rows) =
    (if k = k0 then map_option f (row_by key k rows) else row_by key k rows)"
  by (induction rows) (auto simp: update_where_def assms)

lemma row_by_delete_where:
  "row_by key k (delete_where (\<lambda>r. key r = k0) rows) = (if k = k0 then None else row_by key k rows)"
  by (induction rows) (auto simp: delete_where_def)

lemma row_by_append:
  "row_by key k (rows @ [r]) =
    (case row_by key k rows of Some x \<Rightarrow> Some x | None \<Rightarrow> if key r = k then Some r else None)"
  by (induction rows) auto

lemma row_by_map: "(\<And>r. key (f r) = key r) \<Longrightarrow> row_by key k (map f rows) = map_option f (row_by key k rows)"
  by (induction rows) auto

text \<open>\<open>COALESCE(new, old)\<close>.\<close>

definition coalesce :: "'a option \<Rightarrow> 'a \<Rightarrow> 'a" where
  "coalesce new old = (case new of None \<Rightarrow> old | Some v \<Rightarrow> v)"

text \<open>\<open>slice.chunks(n)\<close>.\<close>

function chunks :: "nat \<Rightarrow> 'a list \<Rightarrow> 'a list list" where
  "chunks n xs = (if n = 0 \<or> xs = [] then [] else take n xs # chunks n (drop n xs))"
  by pat_completeness auto
termination
  by (relation "measure (\<lambda>(n, xs). length xs)") auto

declare chunks.simps [simp del]

lemma concat_chunks: "0 < n \<Longrightarrow> concat (chunks n xs) = xs"
proof (induction n xs rule: chunks.induct)
  case (1 n xs)
  show ?case
  proof (cases "xs = []")
    case True
    then show ?thesis by (simp add: chunks.simps [of n "[]"])
  next
    case False
    with 1 show ?thesis by (simp add: chunks.simps [of n xs])
  qed
qed

lemma chunks_bound: "c \<in> set (chunks n xs) \<Longrightarrow> c \<noteq> [] \<and> length c \<le> n"
proof (induction n xs rule: chunks.induct)
  case (1 n xs)
  then show ?case
    by (cases "n = 0 \<or> xs = []") (auto simp: chunks.simps [of n xs])
qed

end
