(* ===== verification/Text.thy ===== *)
theory Text
  imports Prelude "HOL-Library.Sublist" "HOL-Library.Char_ord" "HOL-Library.List_Lexorder"
    "HOL-Library.Word" "HOL-Library.Signed_Division"
begin

text \<open>
  The vocabulary of the Rust standard library and of SQL that the components use on
  strings and on 64-bit integers. A string is the list of its UTF-8 bytes. Case mapping is
  the ASCII one: every string the code maps is checked by a pattern for ASCII first, or
  compared with an ASCII word. Integers of type \<open>i64\<close> are 64-bit words read with \<open>sint\<close>;
  the release build the repository deploys wraps around on overflow.
\<close>

section \<open>Case, prefixes, trimming\<close>

definition nl :: char where
  "nl = CHR 0x0A"

definition is_upper :: "char \<Rightarrow> bool" where
  "is_upper c \<longleftrightarrow> CHR ''A'' \<le> c \<and> c \<le> CHR ''Z''"

definition is_lower :: "char \<Rightarrow> bool" where
  "is_lower c \<longleftrightarrow> CHR ''a'' \<le> c \<and> c \<le> CHR ''z''"

definition is_digit :: "char \<Rightarrow> bool" where
  "is_digit c \<longleftrightarrow> CHR ''0'' \<le> c \<and> c \<le> CHR ''9''"

definition is_alnum :: "char \<Rightarrow> bool" where
  "is_alnum c \<longleftrightarrow> is_upper c \<or> is_lower c \<or> is_digit c"

definition lower_char :: "char \<Rightarrow> char" where
  "lower_char c = (if is_upper c then char_of (of_char c + 32 :: nat) else c)"

definition upper_char :: "char \<Rightarrow> char" where
  "upper_char c = (if is_lower c then char_of (of_char c - 32 :: nat) else c)"

definition to_lowercase :: "string \<Rightarrow> string" where
  "to_lowercase = map lower_char"

definition to_uppercase :: "string \<Rightarrow> string" where
  "to_uppercase = map upper_char"

definition is_space :: "char \<Rightarrow> bool" where
  "is_space c \<longleftrightarrow> c \<in> {CHR '' '', CHR 0x09, CHR 0x0A, CHR 0x0B, CHR 0x0C, CHR 0x0D}"

definition trim :: "string \<Rightarrow> string" where
  "trim s = rev (dropWhile is_space (rev (dropWhile is_space s)))"

text \<open>\<open>s.split(c).next()\<close> and \<open>s.strip_prefix(p)\<close>.\<close>

definition split_first :: "char \<Rightarrow> string \<Rightarrow> string" where
  "split_first c s = takeWhile (\<lambda>x. x \<noteq> c) s"

definition strip_prefix :: "string \<Rightarrow> string \<Rightarrow> string option" where
  "strip_prefix p s = (if prefix p s then Some (drop (length p) s) else None)"

text \<open>The number of characters of a UTF-8 string: the bytes that do not continue one.\<close>

definition char_count :: "string \<Rightarrow> nat" where
  "char_count s = length (filter (\<lambda>c. \<not> (128 \<le> (of_char c :: nat) \<and> (of_char c :: nat) < 192)) s)"

text \<open>\<open>a.contains(b)\<close> on strings.\<close>

definition contains_str :: "string \<Rightarrow> string \<Rightarrow> bool" where
  "contains_str s p \<longleftrightarrow> sublist p s"

lemma strip_prefix_append [simp]: "strip_prefix p (p @ s) = Some s"
  by (simp add: strip_prefix_def)

lemma split_first_append: "c \<notin> set s \<Longrightarrow> split_first c (s @ c # t) = s"
proof -
  assume "c \<notin> set s"
  then have "\<And>x. x \<in> set s \<Longrightarrow> x \<noteq> c" by auto
  then show ?thesis by (simp add: split_first_def takeWhile_append2)
qed

section \<open>Extensions of file names\<close>

text \<open>
  The text after the last dot, with the text before it (\<open>rsplitn(2, '.')\<close>).
\<close>

definition rsplit_dot :: "string \<Rightarrow> (string \<times> string) option" where
  "rsplit_dot s =
     (if CHR ''.'' \<in> set s
      then Some (rev (tl (dropWhile (\<lambda>c. c \<noteq> CHR ''.'') (rev s))),
                 rev (takeWhile (\<lambda>c. c \<noteq> CHR ''.'') (rev s)))
      else None)"

fun split_on :: "char \<Rightarrow> string \<Rightarrow> string list" where
  "split_on c [] = [[]]"
| "split_on c (x # xs) =
     (if x = c then [] # split_on c xs
      else (case split_on c xs of [] \<Rightarrow> [[x]] | y # ys \<Rightarrow> (x # y) # ys))"

text \<open>
  \<open>Path::file_name\<close>: the last component of the path, when it is a normal one. Empty
  components and single dots are skipped, a final double dot has no file name.
\<close>

definition path_file_name :: "string \<Rightarrow> string option" where
  "path_file_name s =
     (let cs = filter (\<lambda>c. c \<noteq> [] \<and> c \<noteq> ''.'') (split_on (CHR ''/'') s)
      in if cs = [] \<or> last cs = ''..'' then None else Some (last cs))"

text \<open>\<open>Path::extension\<close>: nothing when there is no dot or the only dot is the first byte.\<close>

definition path_extension :: "string \<Rightarrow> string option" where
  "path_extension s =
     (case path_file_name s of
        None \<Rightarrow> None
      | Some f \<Rightarrow> (case rsplit_dot f of
          None \<Rightarrow> None
        | Some (front, after) \<Rightarrow> if front = [] then None else Some after))"

lemma rsplit_dot_append:
  "CHR ''.'' \<notin> set e \<Longrightarrow> rsplit_dot (p @ CHR ''.'' # e) = Some (p, e)"
proof -
  assume e: "CHR ''.'' \<notin> set e"
  let ?d = "\<lambda>c. c \<noteq> CHR ''.''" and ?r = "rev e @ CHR ''.'' # rev p"
  have "takeWhile ?d ?r = rev e" and "dropWhile ?d ?r = CHR ''.'' # rev p"
    using e by (subst takeWhile_append2 dropWhile_append2; auto)+
  then show ?thesis by (simp add: rsplit_dot_def)
qed

lemma rsplit_dot_SomeD:
  assumes "rsplit_dot s = Some (p, e)"
  shows "s = p @ CHR ''.'' # e" and "CHR ''.'' \<notin> set e"
proof -
  let ?d = "\<lambda>c. c \<noteq> CHR ''.''"
  from assms have dot: "CHR ''.'' \<in> set s"
    and p: "p = rev (tl (dropWhile ?d (rev s)))" and e: "e = rev (takeWhile ?d (rev s))"
    by (auto simp: rsplit_dot_def split: if_splits)
  from e show "CHR ''.'' \<notin> set e" using set_takeWhileD [of "CHR ''.''" ?d "rev s"] by auto
  from dot have ne: "dropWhile ?d (rev s) \<noteq> []" by (auto simp: dropWhile_eq_Nil_conv)
  then have "hd (dropWhile ?d (rev s)) = CHR ''.''" using hd_dropWhile [of ?d "rev s"] by blast
  with ne have "dropWhile ?d (rev s) = CHR ''.'' # rev p"
    using p by (metis list.collapse rev_rev_ident)
  then have "rev s = rev e @ CHR ''.'' # rev p"
    using e by (metis rev_rev_ident takeWhile_dropWhile_id)
  then show "s = p @ CHR ''.'' # e" by (metis append.assoc append_Cons append_Nil rev.simps(2) rev_append rev_rev_ident)
qed

lemma split_on_nonempty [simp]: "split_on c s \<noteq> []"
  by (induction s) (auto split: list.splits)

lemma split_on_parts: "x \<in> set (split_on c s) \<Longrightarrow> c \<notin> set x"
  by (induction s arbitrary: x) (auto split: list.splits if_splits)

lemma path_extension_no_dot_slash:
  assumes "path_extension s = Some e"
  shows "CHR ''.'' \<notin> set e \<and> CHR ''/'' \<notin> set e"
proof -
  from assms obtain f p where f: "path_file_name s = Some f" and r: "rsplit_dot f = Some (p, e)"
    by (auto simp: path_extension_def split: option.splits if_splits prod.splits)
  let ?cs = "filter (\<lambda>c. c \<noteq> [] \<and> c \<noteq> ''.'') (split_on (CHR ''/'') s)"
  from f have "?cs \<noteq> []" and "f = last ?cs"
    by (auto simp: path_file_name_def Let_def split: if_splits)
  then have "f \<in> set ?cs" by (metis last_in_set)
  then have "f \<in> set (split_on (CHR ''/'') s)" by simp
  then have "CHR ''/'' \<notin> set f" by (rule split_on_parts)
  with rsplit_dot_SomeD [OF r] show ?thesis by simp
qed

section \<open>SQL string operations\<close>

text \<open>
  \<open>text LIKE pattern\<close>: \<open>%\<close> matches any string, \<open>_\<close> any character, and a backslash
  quotes the next pattern character.
\<close>

fun like :: "string \<Rightarrow> string \<Rightarrow> bool" where
  "like [] [] = True"
| "like [] (c # s) = False"
| "like (p # ps) [] = (p = CHR ''%'' \<and> like ps [])"
| "like (p # ps) (c # s) =
     (if p = CHR ''%'' then like ps (c # s) \<or> like (p # ps) s
      else if p = CHR ''_'' then like ps s
      else if p = CHR 0x5C then (case ps of [] \<Rightarrow> False | q # qs \<Rightarrow> c = q \<and> like qs s)
      else c = p \<and> like ps s)"

text \<open>\<open>ILIKE\<close> compares without case.\<close>

definition ilike :: "string \<Rightarrow> string \<Rightarrow> bool" where
  "ilike p s = like (to_lowercase p) (to_lowercase s)"

text \<open>A pattern that stands for itself.\<close>

definition like_literal :: "string \<Rightarrow> bool" where
  "like_literal p \<longleftrightarrow> CHR ''%'' \<notin> set p \<and> CHR ''_'' \<notin> set p \<and> CHR 0x5C \<notin> set p"

lemma like_percent: "like ''%'' s"
  by (induction s) simp_all

lemma like_char: "p \<noteq> CHR ''%'' \<Longrightarrow> p \<noteq> CHR ''_'' \<Longrightarrow> p \<noteq> CHR 0x5C \<Longrightarrow>
    like (p # ps) s \<longleftrightarrow> (\<exists>t. s = p # t \<and> like ps t)"
  by (cases s) auto

lemma like_underscore: "like (CHR ''_'' # ps) s \<longleftrightarrow> (\<exists>c t. s = c # t \<and> like ps t)"
  by (cases s) auto

text \<open>\<open>RTRIM(s, '/')\<close> and \<open>RIGHT(s, 1) = '/'\<close>.\<close>

definition rtrim_slash :: "string \<Rightarrow> string" where
  "rtrim_slash s = rev (dropWhile (\<lambda>c. c = CHR ''/'') (rev s))"

definition right_is_slash :: "string \<Rightarrow> bool" where
  "right_is_slash s \<longleftrightarrow> s \<noteq> [] \<and> last s = CHR ''/''"

text \<open>A pattern with no special character followed by \<open>%\<close> is a prefix test.\<close>

lemma like_prefix_literal: "like_literal p \<Longrightarrow> like (p @ ''%'') s \<longleftrightarrow> prefix p s"
proof (induction p arbitrary: s)
  case Nil
  show ?case by (simp add: like_percent)
next
  case (Cons c p)
  then have "c \<noteq> CHR ''%''" "c \<noteq> CHR ''_''" "c \<noteq> CHR 0x5C" "like_literal p"
    by (auto simp: like_literal_def)
  with Cons.IH show ?case by (cases s) (auto simp: like_char)
qed

text \<open>Without \<open>%\<close> and backslash, a literal prefix always matches: \<open>_\<close> matches itself.\<close>

lemma like_prefix:
  "CHR ''%'' \<notin> set p \<Longrightarrow> CHR 0x5C \<notin> set p \<Longrightarrow> prefix p s \<Longrightarrow> like (p @ ''%'') s"
proof (induction p arbitrary: s)
  case Nil
  show ?case by (simp add: like_percent)
next
  case (Cons c p)
  then obtain t where "s = c # t" "prefix p t" by (cases s) auto
  with Cons show ?case by auto
qed

lemma rtrim_slash_snoc: "rtrim_slash (s @ ''/'') = rtrim_slash s"
  by (simp add: rtrim_slash_def)

lemma rtrim_slash_id: "\<not> right_is_slash s \<Longrightarrow> rtrim_slash s = s"
proof (cases s rule: rev_cases)
  case Nil
  then show ?thesis by (simp add: rtrim_slash_def)
next
  case (snoc ys y)
  moreover assume "\<not> right_is_slash s"
  ultimately show ?thesis by (simp add: rtrim_slash_def right_is_slash_def)
qed

section \<open>64-bit integers\<close>

type_synonym i64 = "64 word"

lemma sint_i64_of_int: "- (2 ^ 63) \<le> n \<Longrightarrow> n < 2 ^ 63 \<Longrightarrow> sint (word_of_int n :: i64) = n"
  by (simp add: sint_sbintrunc' signed_take_bit_int_eq_self)

lemma sint_i64_bounds: "- (2 ^ 63) \<le> sint (x :: i64)" "sint (x :: i64) < 2 ^ 63"
  using sint_ge [of x] sint_lt [of x] by simp_all

end
