(* ===== verification/Json.thy ===== *)
theory Json
  imports Text "HOL-Library.AList" "HOL-Library.Monad_Syntax"
begin

text \<open>
  JSON values as \<open>serde_json::Value\<close> has them. An integer number is a \<open>JInt\<close>; any other
  number is a \<open>JFloat\<close> that keeps its text. The members of an object are an association
  list with one entry per key; the order of members carries no meaning.
\<close>

section \<open>Values\<close>

datatype json =
    JNull
  | JBool bool
  | JInt int
  | JFloat string
  | JStr string
  | JArr "json list"
  | JObj "(string \<times> json) list"

definition get :: "json \<Rightarrow> string \<Rightarrow> json option" where
  "get v k = (case v of JObj m \<Rightarrow> map_of m k | _ \<Rightarrow> None)"

definition as_str :: "json \<Rightarrow> string option" where
  "as_str v = (case v of JStr s \<Rightarrow> Some s | _ \<Rightarrow> None)"

definition as_bool :: "json \<Rightarrow> bool option" where
  "as_bool v = (case v of JBool b \<Rightarrow> Some b | _ \<Rightarrow> None)"

definition as_array :: "json \<Rightarrow> json list option" where
  "as_array v = (case v of JArr xs \<Rightarrow> Some xs | _ \<Rightarrow> None)"

definition as_object :: "json \<Rightarrow> (string \<times> json) list option" where
  "as_object v = (case v of JObj m \<Rightarrow> Some m | _ \<Rightarrow> None)"

definition is_object :: "json \<Rightarrow> bool" where
  "is_object v = (case v of JObj _ \<Rightarrow> True | _ \<Rightarrow> False)"

text \<open>\<open>as_i64\<close> and \<open>as_u64\<close>: integers in the range of the type.\<close>

definition as_i64 :: "json \<Rightarrow> i64 option" where
  "as_i64 v = (case v of JInt n \<Rightarrow> if - (2 ^ 63) \<le> n \<and> n < 2 ^ 63 then Some (word_of_int n) else None
                       | _ \<Rightarrow> None)"

definition as_u64 :: "json \<Rightarrow> 64 word option" where
  "as_u64 v = (case v of JInt n \<Rightarrow> if 0 \<le> n \<and> n < 2 ^ 64 then Some (word_of_int n) else None
                       | _ \<Rightarrow> None)"

definition of_i64 :: "i64 \<Rightarrow> json" where
  "of_i64 n = JInt (sint n)"

definition of_u64 :: "64 word \<Rightarrow> json" where
  "of_u64 n = JInt (uint n)"

text \<open>\<open>map.entry(k).or_insert(d)\<close> read back, and \<open>map.insert(k, v)\<close>.\<close>

definition entry_or :: "string \<Rightarrow> json \<Rightarrow> (string \<times> json) list \<Rightarrow> json" where
  "entry_or k d m = (case map_of m k of None \<Rightarrow> d | Some v \<Rightarrow> v)"

definition put :: "string \<Rightarrow> json \<Rightarrow> (string \<times> json) list \<Rightarrow> (string \<times> json) list" where
  "put k v m = AList.update k v m"

section \<open>Characteristic equations\<close>

lemma get_simps [simp]:
  "get (JObj m) k = map_of m k" "get JNull k = None" "get (JBool b) k = None"
  "get (JInt n) k = None" "get (JFloat f) k = None" "get (JStr s) k = None" "get (JArr xs) k = None"
  by (simp_all add: get_def)

lemma get_Some_iff: "get v k = Some x \<longleftrightarrow> (\<exists>m. v = JObj m \<and> map_of m k = Some x)"
  by (cases v) auto

lemma as_str_Some_iff: "as_str v = Some s \<longleftrightarrow> v = JStr s"
  by (cases v) (auto simp: as_str_def)

lemma as_str_JStr [simp]: "as_str (JStr s) = Some s"
  by (simp add: as_str_def)

lemma as_bool_JBool [simp]: "as_bool (JBool b) = Some b"
  by (simp add: as_bool_def)

lemma as_array_JArr [simp]: "as_array (JArr xs) = Some xs"
  by (simp add: as_array_def)

lemma as_array_Some_iff: "as_array v = Some xs \<longleftrightarrow> v = JArr xs"
  by (cases v) (auto simp: as_array_def)

lemma as_object_JObj [simp]: "as_object (JObj m) = Some m"
  by (simp add: as_object_def)

lemma as_object_Some_iff: "as_object v = Some m \<longleftrightarrow> v = JObj m"
  by (cases v) (auto simp: as_object_def)

lemma as_i64_of_i64 [simp]: "as_i64 (of_i64 n) = Some n"
  using sint_i64_bounds [of n] by (simp add: as_i64_def of_i64_def)

lemma as_u64_of_u64 [simp]: "as_u64 (of_u64 n) = Some n"
  using uint_lt2p [of n] by (simp add: as_u64_def of_u64_def)

lemma map_of_put [simp]: "map_of (put k v m) = (map_of m)(k \<mapsto> v)"
  by (simp add: put_def update_conv')

lemma distinct_put [simp]: "distinct (map fst m) \<Longrightarrow> distinct (map fst (put k v m))"
  by (simp add: put_def distinct_update)

lemma set_keys_put: "fst ` set (put k v m) = insert k (fst ` set m)"
  by (simp add: put_def dom_update)

lemma put_preserves: "k' \<noteq> k \<Longrightarrow> (k', x) \<in> set (put k v m) \<longleftrightarrow> (k', x) \<in> set m"
proof (induction m)
  case Nil
  then show ?case by (simp add: put_def)
next
  case (Cons p m)
  then show ?case by (cases p) (auto simp: put_def)
qed

end
