(* ===== verification/Common.thy ===== *)
theory Common
  imports Json
begin

text \<open>
  \<open>common/error.rs\<close>, \<open>common/response.rs\<close> and \<open>common/pagination.rs\<close>: the error type of
  the handlers with its HTTP mapping, the response envelope, and the page arithmetic.
\<close>

section \<open>Errors\<close>

type_synonym uuid = "128 word"

text \<open>
  The failures the AWS SDK reports for a request (\<open>SdkError\<close>); a service error carries the
  optional error code of the reply.
\<close>

datatype sdk_error =
    TimeoutError
  | DispatchFailure
  | ResponseError
  | ServiceError "string option"
  | ConstructionFailure

text \<open>
  \<open>anyhow::Error\<close>: what the code can still find out about the cause. A database error may
  carry an SQLSTATE code; an S3 error keeps the SDK error under its context message.
\<close>

datatype anyhow =
    DbErr "string option"
  | RedisErr string
  | S3Err sdk_error string
  | Anyhow string

record validation_error =
  ve_code :: string
  ve_message :: "string option"

type_synonym validation_errors = "(string \<times> validation_error list) list"

datatype app_error =
    ValidationError validation_errors
  | ValidationMessage string
  | UserAlreadyExists
  | LoginFailed
  | JwtExpired
  | Unauthorized
  | DatabaseConflictError string
  | PasswordWrong
  | UserDisabled
  | Forbidden string
  | DataNotChanged
  | DataNotFound string
  | ApiRuleConflict uuid
  | BuildSchemaQueryFailed
  | UnexpectedError anyhow

fun status_code :: "app_error \<Rightarrow> nat" where
  "status_code (ValidationError _) = 400"
| "status_code BuildSchemaQueryFailed = 400"
| "status_code (ValidationMessage _) = 400"
| "status_code UserAlreadyExists = 409"
| "status_code (ApiRuleConflict _) = 409"
| "status_code (DatabaseConflictError _) = 409"
| "status_code (UnexpectedError _) = 500"
| "status_code DataNotChanged = 304"
| "status_code (DataNotFound _) = 404"
| "status_code PasswordWrong = 403"
| "status_code (Forbidden _) = 403"
| "status_code UserDisabled = 403"
| "status_code LoginFailed = 401"
| "status_code Unauthorized = 401"
| "status_code JwtExpired = 401"

text \<open>The \<open>Display\<close> texts of the errors (\<open>#[error(..)]\<close>), translated.\<close>

fun any_to_string :: "anyhow \<Rightarrow> string" where
  "any_to_string (DbErr c) = ''error returned from database: '' @ (case c of None \<Rightarrow> '''' | Some s \<Rightarrow> s)"
| "any_to_string (RedisErr m) = m"
| "any_to_string (S3Err e m) = m"
| "any_to_string (Anyhow m) = m"

fun error_to_string :: "(uuid \<Rightarrow> string) \<Rightarrow> app_error \<Rightarrow> string" where
  "error_to_string us (ValidationError _) = ''invalid parameters''"
| "error_to_string us (ValidationMessage m) = m"
| "error_to_string us UserAlreadyExists = ''user already exists''"
| "error_to_string us LoginFailed = ''login failed, check user name and password''"
| "error_to_string us JwtExpired = ''token expired, log in again''"
| "error_to_string us Unauthorized = ''unauthorized, log in first''"
| "error_to_string us (DatabaseConflictError m) = m"
| "error_to_string us PasswordWrong = ''wrong password''"
| "error_to_string us UserDisabled = ''account disabled, contact an administrator''"
| "error_to_string us (Forbidden m) = m"
| "error_to_string us DataNotChanged = ''data not changed''"
| "error_to_string us (DataNotFound m) = m"
| "error_to_string us (ApiRuleConflict i) = ''a broader API access rule exists: '' @ us i"
| "error_to_string us BuildSchemaQueryFailed = ''cannot build the JSON Schema query''"
| "error_to_string us (UnexpectedError e) = any_to_string e"

section \<open>Responses\<close>

record 'a app_response =
  code :: nat
  message :: string
  data :: "'a option"

definition resp_success :: "'a \<Rightarrow> 'a app_response" where
  "resp_success d = \<lparr>code = 200, message = ''success'', data = Some d\<rparr>"

definition resp_success_msg :: "'a \<Rightarrow> string \<Rightarrow> 'a app_response" where
  "resp_success_msg d m = \<lparr>code = 200, message = m, data = Some d\<rparr>"

definition resp_created :: "'a \<Rightarrow> string \<Rightarrow> 'a app_response" where
  "resp_created d m = \<lparr>code = 201, message = m, data = Some d\<rparr>"

definition resp_ok_msg :: "string \<Rightarrow> unit app_response" where
  "resp_ok_msg m = \<lparr>code = 200, message = m, data = None\<rparr>"

text \<open>The builder: a response that starts as \<open>200 success\<close> and is updated field by field.\<close>

definition resp_builder :: "'a app_response" where
  "resp_builder = \<lparr>code = 200, message = ''success'', data = None\<rparr>"

definition with_code :: "nat \<Rightarrow> 'a app_response \<Rightarrow> 'a app_response" where
  "with_code c r = r\<lparr>code := c\<rparr>"

definition with_message :: "string \<Rightarrow> 'a app_response \<Rightarrow> 'a app_response" where
  "with_message m r = r\<lparr>message := m\<rparr>"

definition with_data :: "'a \<Rightarrow> 'a app_response \<Rightarrow> 'a app_response" where
  "with_data d r = r\<lparr>data := Some d\<rparr>"

definition parse_validation_errors :: "validation_errors \<Rightarrow> (string \<times> string list) list" where
  "parse_validation_errors errs =
     map (\<lambda>(field, es). (field, List.map_filter ve_message es)) errs"

text \<open>\<open>error_response\<close>: the HTTP status and the JSON envelope of an error.\<close>

definition error_response :: "(uuid \<Rightarrow> string) \<Rightarrow> app_error \<Rightarrow> nat \<times> json app_response" where
  "error_response us e =
     (let status = status_code e in
      (status,
       (case e of
          ValidationError errs \<Rightarrow>
            with_data (JObj [(''errors'', JObj (map (\<lambda>(f, ms). (f, JArr (map JStr ms))) (parse_validation_errors errs)))])
              (with_message ''invalid parameters'' (with_code status resp_builder))
        | _ \<Rightarrow>
            with_data (JObj [])
              (with_message (if status = 500 then ''internal error, try again later'' else error_to_string us e)
                (with_code status resp_builder)))))"

section \<open>Pages\<close>

record 'a page_data =
  items :: "'a list"
  total :: i64
  page :: i64
  page_size :: i64
  total_pages :: i64

text \<open>\<open>i64\<close> division truncates towards zero.\<close>

definition i64_div :: "i64 \<Rightarrow> i64 \<Rightarrow> i64" where
  "i64_div a b = word_of_int (sint a sdiv sint b)"

definition page_data_from :: "'a list \<Rightarrow> i64 \<Rightarrow> i64 \<Rightarrow> i64 \<Rightarrow> 'a page_data" where
  "page_data_from xs t p ps =
     \<lparr>items = xs, total = t, page = p, page_size = ps, total_pages = i64_div (t + ps - 1) ps\<rparr>"

definition default_page :: i64 where "default_page = 1"

definition default_page_size :: i64 where "default_page_size = 10"

text \<open>The \<open>offset\<close> method the four query requests have.\<close>

definition offset :: "i64 \<Rightarrow> i64 \<Rightarrow> i64" where
  "offset p ps = (p - 1) * ps"

text \<open>\<open>LIMIT l OFFSET o\<close>: \<open>None\<close> is the error PostgreSQL reports for a negative value.\<close>

definition limit_offset :: "i64 \<Rightarrow> i64 \<Rightarrow> 'a list \<Rightarrow> 'a list option" where
  "limit_offset l n rows =
     (if sint l < 0 \<or> sint n < 0 then None
      else Some (take (nat (sint l)) (drop (nat (sint n)) rows)))"

section \<open>Properties\<close>

text \<open>The response to an internal error is the same for every cause, so no detail of a
  database, cache or storage failure leaves the server; every error response carries its HTTP
  status in its body, and that status is an error or the not-modified one.\<close>

theorem error_response_hides_cause:
  "error_response us (UnexpectedError a) = error_response us (UnexpectedError b)
   \<and> fst (error_response us e) = code (snd (error_response us e))
   \<and> fst (error_response us e) \<in> {304, 400, 401, 403, 404, 409, 500}
   \<and> (fst (error_response us e) = 500 \<longleftrightarrow> (\<exists>c. e = UnexpectedError c))"
  by (cases e) (simp_all add: error_response_def with_code_def with_message_def with_data_def resp_builder_def)

text \<open>Exact arithmetic of a page when nothing overflows.\<close>

lemma sint_sum_i64:
  "- (2 ^ 63) \<le> sint (a :: i64) + sint b \<Longrightarrow> sint a + sint b < 2 ^ 63 \<Longrightarrow> sint (a + b) = sint a + sint b"
  using sint_i64_of_int [of "sint a + sint b"] by simp

lemma sint_diff_i64:
  "- (2 ^ 63) \<le> sint (a :: i64) - sint b \<Longrightarrow> sint a - sint b < 2 ^ 63 \<Longrightarrow> sint (a - b) = sint a - sint b"
  using sint_i64_of_int [of "sint a - sint b"] by simp

lemma sint_mult_i64:
  "- (2 ^ 63) \<le> sint (a :: i64) * sint b \<Longrightarrow> sint a * sint b < 2 ^ 63 \<Longrightarrow> sint (a * b) = sint a * sint b"
  using sint_i64_of_int [of "sint a * sint b"] by simp

lemma concat_slices: "concat (map (\<lambda>k. take n (drop (k * n) xs)) [0..<m]) = take (m * n) xs"
proof (induction m)
  case 0
  show ?case by simp
next
  case (Suc m)
  have "take (m * n) xs @ take n (drop (m * n) xs) = take (m * n + n) xs"
    by (simp add: take_add)
  with Suc show ?case by (simp add: add.commute)
qed

definition page_rows :: "i64 \<Rightarrow> i64 \<Rightarrow> 'a list \<Rightarrow> 'a list" where
  "page_rows ps p rows = (case limit_offset ps (offset p ps) rows of None \<Rightarrow> [] | Some r \<Rightarrow> r)"

lemma total_pages_exact:
  assumes t: "0 \<le> sint t" and ps: "1 \<le> sint ps" and small: "sint t + sint ps - 1 < 2 ^ 63"
  shows "sint (total_pages (page_data_from xs t p ps)) = (sint t + sint ps - 1) div sint ps"
proof -
  have s1: "sint (t + ps - 1) = sint t + sint ps - 1"
  proof (cases "sint t + sint ps < 2 ^ 63")
    case True
    with t ps have "sint (t + ps) = sint t + sint ps" by (intro sint_sum_i64) simp_all
    with t ps True show ?thesis by (subst sint_diff_i64) simp_all
  next
    case False
    have "sint (ps - 1) = sint ps - 1"
      using ps sint_i64_bounds [of ps] by (subst sint_diff_i64) simp_all
    moreover from this have "sint (t + (ps - 1)) = sint t + sint (ps - 1)"
      using t ps small by (intro sint_sum_i64) simp_all
    ultimately show ?thesis by (metis add_diff_eq)
  qed
  let ?q = "(sint t + sint ps - 1) div sint ps"
  have q: "0 \<le> ?q" using t ps by (simp add: pos_imp_zdiv_nonneg_iff)
  have "?q \<le> sint t + sint ps - 1"
    using t ps zdiv_mono2 [of "sint t + sint ps - 1" 1 "sint ps"] by simp
  then have "?q < 2 ^ 63" using small by simp
  moreover have "(sint t + sint ps - 1) sdiv sint ps = ?q"
    using t ps by (cases "sint t + sint ps - 1 = 0") (simp_all add: signed_divide_int_def sgn_if)
  ultimately show ?thesis
    using q s1 by (simp add: page_data_from_def i64_div_def sint_i64_of_int)
qed

lemma page_rows_slice:
  assumes ps: "1 \<le> sint ps" and k: "int k * sint ps < 2 ^ 63"
  shows "limit_offset ps (offset (word_of_int (int (Suc k))) ps) rows
         = Some (take (nat (sint ps)) (drop (k * nat (sint ps)) rows))"
proof -
  have "int k * 1 \<le> int k * sint ps" using ps by (intro mult_left_mono) simp_all
  then have kb: "int k < 2 ^ 63" using k by simp
  have "(word_of_int (int (Suc k)) :: i64) - 1 = word_of_int (int k)" by simp
  moreover have sk: "sint (word_of_int (int k) :: i64) = int k" using kb by (intro sint_i64_of_int) simp_all
  moreover have "0 \<le> int k * sint ps" using ps by simp
  then have "sint ((word_of_int (int k) :: i64) * ps) = int k * sint ps"
    using k sk by (subst sint_mult_i64) simp_all
  ultimately have "sint (offset (word_of_int (int (Suc k))) ps) = int k * sint ps"
    by (simp add: offset_def del: of_nat_Suc)
  moreover have "nat (int k * sint ps) = k * nat (sint ps)" using ps by (simp add: nat_mult_distrib)
  moreover have "\<not> int k * sint ps < 0" using ps by (simp add: not_less)
  ultimately show ?thesis using ps by (simp add: limit_offset_def del: of_nat_Suc)
qed


text \<open> The pages a client walks through (page numbers 1 to \<open>total_pages\<close>) are each answered
  by the database and together return every row of the query once and in order, when the
  total is the number of rows and page size and total do not overflow together.\<close>

theorem pages_cover_rows:
  fixes rows :: "'a list"
  assumes "sint t = int (length rows)" and "1 \<le> sint ps" and "sint t + sint ps - 1 < 2 ^ 63"
  shows "concat (map (\<lambda>k. page_rows ps (word_of_int (int (Suc k))) rows)
            [0..<nat (sint (total_pages (page_data_from xs t p ps)))]) = rows
    \<and> (\<forall>k < nat (sint (total_pages (page_data_from xs t p ps))).
          limit_offset ps (offset (word_of_int (int (Suc k))) ps) rows \<noteq> None)"
proof -
  let ?n = "nat (sint ps)" and ?m = "nat (sint (total_pages (page_data_from xs t p ps)))"
  have m: "int ?m = (sint t + sint ps - 1) div sint ps"
    using assms total_pages_exact [of t ps xs p] by (simp add: pos_imp_zdiv_nonneg_iff)
  have bound: "int k * sint ps < 2 ^ 63" if "k < ?m" for k
  proof -
    have "int (Suc k) \<le> int ?m" using that by linarith
    then have "int (Suc k) * sint ps \<le> (sint t + sint ps - 1) div sint ps * sint ps"
      using m assms(2) by (intro mult_right_mono) simp_all
    also have "\<dots> \<le> sint t + sint ps - 1"
      using assms(2) pos_mod_sign [of "sint ps" "sint t + sint ps - 1"]
        div_mult_mod_eq [of "sint t + sint ps - 1" "sint ps"] by linarith
    finally have "int k * sint ps + sint ps \<le> sint t + sint ps - 1" by (simp add: algebra_simps)
    then show ?thesis using assms(2,3) by linarith
  qed
  have slices: "map (\<lambda>k. page_rows ps (word_of_int (int (Suc k))) rows) [0..<?m]
        = map (\<lambda>k. take ?n (drop (k * ?n) rows)) [0..<?m]"
    using page_rows_slice [OF assms(2) bound, of _ rows] by (auto simp: page_rows_def)
  have "length rows \<le> ?m * ?n"
  proof -
    have "sint t \<le> (sint t + sint ps - 1) div sint ps * sint ps"
      using assms(2) pos_mod_bound [of "sint ps" "sint t + sint ps - 1"]
        div_mult_mod_eq [of "sint t + sint ps - 1" "sint ps"] by linarith
    then have "int (length rows) \<le> int ?m * int ?n" using m assms(1,2) by simp
    then show ?thesis by (metis of_nat_le_iff of_nat_mult)
  qed
  then have "concat (map (\<lambda>k. page_rows ps (word_of_int (int (Suc k))) rows) [0..<?m]) = rows"
    by (simp only: slices concat_slices take_all)
  then show ?thesis
    using page_rows_slice [OF assms(2) bound, of _ rows] by simp
qed

theorem pages_cover_rows_witness:
  "concat (map (\<lambda>k. page_rows 10 (word_of_int (int (Suc k))) [1..<(24::nat)])
            [0..<nat (sint (total_pages (page_data_from ([] :: nat list) 23 1 10)))]) = [1..<24]"
  using pages_cover_rows [of 23 "[1..<(24::nat)]" 10 "[] :: nat list" 1] by simp

text \<open>The validated page numbers do not rule out overflow. For page \<open>2^62 + 1\<close> of size 2 the
  wrapped offset is negative, so the database refuses the query although the page number
  passed validation; for the largest page size the reported number of pages is negative as
  soon as there are two rows.\<close>

theorem page_overflow:
  "1 \<le> sint (2 ^ 62 + 1 :: i64) \<and> sint (offset (2 ^ 62 + 1) 2) < 0
   \<and> limit_offset 2 (offset (2 ^ 62 + 1) 2) rows = None
   \<and> sint (total_pages (page_data_from rows 2 1 (2 ^ 63 - 1))) = - 1"
  by (simp add: offset_def limit_offset_def page_data_from_def i64_div_def signed_divide_int_def)

end
