(* ===== verification/Domain.thy ===== *)
theory Domain
  imports Common "HOL-Library.Product_Lexorder"
begin

text \<open>
  \<open>domain/http_method.rs\<close>, \<open>domain/user_role.rs\<close>, \<open>domain/query_sort.rs\<close> and
  \<open>domain/route_registry.rs\<close>: the small enumerations, and the registry of the routes an
  administrator can grant, a \<open>BTreeSet\<close> ordered by path and method.
\<close>

section \<open>Methods, roles, sort orders\<close>

datatype http_method = GET | POST | PUT | PATCH | DELETE | METHOD_ALL

fun method_as_str :: "http_method \<Rightarrow> string" where
  "method_as_str GET = ''GET''"
| "method_as_str POST = ''POST''"
| "method_as_str PUT = ''PUT''"
| "method_as_str PATCH = ''PATCH''"
| "method_as_str DELETE = ''DELETE''"
| "method_as_str METHOD_ALL = ''ALL''"

text \<open>\<open>From<String>\<close>: an unknown word becomes \<open>ALL\<close>.\<close>

definition method_from :: "string \<Rightarrow> http_method" where
  "method_from s =
     (let u = to_uppercase s in
      if u = ''GET'' then GET else if u = ''POST'' then POST else if u = ''PUT'' then PUT
      else if u = ''PATCH'' then PATCH else if u = ''DELETE'' then DELETE
      else if u = ''ALL'' then METHOD_ALL else METHOD_ALL)"

text \<open>
  \<open>PartialEq\<close>, \<open>Ord\<close> and \<open>PartialOrd\<close> compare the names; an \<open>Ordering\<close> of the standard library is the
  answer of a comparison.
\<close>

datatype ordering = Less | Equal | Greater

definition str_cmp :: "string \<Rightarrow> string \<Rightarrow> ordering" where
  "str_cmp a b = (if a < b then Less else if a = b then Equal else Greater)"

definition method_eq :: "http_method \<Rightarrow> http_method \<Rightarrow> bool" where
  "method_eq a b \<longleftrightarrow> method_as_str a = method_as_str b"

definition method_cmp :: "http_method \<Rightarrow> http_method \<Rightarrow> ordering" where
  "method_cmp a b = str_cmp (method_as_str a) (method_as_str b)"

definition method_partial_cmp :: "http_method \<Rightarrow> http_method \<Rightarrow> ordering option" where
  "method_partial_cmp a b = Some (method_cmp a b)"

lemma method_as_str_inj: "method_as_str a = method_as_str b \<longleftrightarrow> a = b"
  by (cases a; cases b) simp_all

text \<open>The written equality is that of the values, and agrees with the written order, as \<open>Ord\<close> demands.\<close>

lemma method_eq_iff: "method_eq a b \<longleftrightarrow> a = b" "method_partial_cmp a b = Some Equal \<longleftrightarrow> method_eq a b"
  by (auto simp: method_eq_def method_partial_cmp_def method_cmp_def str_cmp_def method_as_str_inj)

text \<open>The order of the library's class is the one of the code, so a sorted set of routes may be built on it.\<close>

instantiation http_method :: linorder
begin

definition less_eq_http_method :: "http_method \<Rightarrow> http_method \<Rightarrow> bool" where
  "less_eq_http_method a b \<longleftrightarrow> method_cmp a b \<noteq> Greater"

definition less_http_method :: "http_method \<Rightarrow> http_method \<Rightarrow> bool" where
  "less_http_method a b \<longleftrightarrow> method_cmp a b = Less"

instance
  by standard (auto simp: less_eq_http_method_def less_http_method_def method_cmp_def str_cmp_def method_as_str_inj split: if_splits)

end

datatype user_role = ADMIN | USER

definition role_from :: "string \<Rightarrow> user_role" where
  "role_from s = (if to_uppercase s = ''ADMIN'' then ADMIN else USER)"

fun role_as_str :: "user_role \<Rightarrow> string" where
  "role_as_str ADMIN = ''ADMIN''"
| "role_as_str USER = ''USER''"

datatype sort_order = ASC | DESC

fun sort_as_str :: "sort_order \<Rightarrow> string" where
  "sort_as_str ASC = ''ASC''"
| "sort_as_str DESC = ''DESC''"

lemma method_from_as_str [simp]: "method_from (method_as_str m) = m"
  by (cases m) (simp_all add: method_from_def to_uppercase_def upper_char_def is_lower_def Let_def)

lemma role_from_as_str [simp]: "role_from (role_as_str r) = r"
  by (cases r) (simp_all add: role_from_def to_uppercase_def upper_char_def is_lower_def)

section \<open>The route registry\<close>

record route_info =
  route_method :: http_method
  path :: string
  category :: string
  description :: string

text \<open>\<open>Ord\<close> and \<open>Eq\<close> of \<open>RouteInfo\<close> look at path and method only.\<close>

definition route_key :: "route_info \<Rightarrow> string \<times> http_method" where
  "route_key r = (path r, route_method r)"

text \<open>\<open>BTreeSet::insert\<close>: sorted, and an element equal to a present one is dropped.\<close>

fun route_insert :: "route_info \<Rightarrow> route_info list \<Rightarrow> route_info list" where
  "route_insert r [] = [r]"
| "route_insert r (x # xs) =
     (if route_key r < route_key x then r # x # xs
      else if route_key r = route_key x then x # xs
      else x # route_insert r xs)"

definition register_route ::
  "http_method \<Rightarrow> string \<Rightarrow> string \<Rightarrow> string \<Rightarrow> route_info list \<Rightarrow> route_info list" where
  "register_route m p desc cat routes =
     route_insert \<lparr>route_method = m, path = p, category = cat, description = desc\<rparr> routes"

text \<open>\<open>routes.extend(xs)\<close>.\<close>

definition routes_extend :: "route_info list \<Rightarrow> route_info list \<Rightarrow> route_info list" where
  "routes_extend xs routes = fold route_insert xs routes"

text \<open>The routes the three admin modules register when the server is configured.\<close>

definition register_user_routes :: "route_info list \<Rightarrow> route_info list" where
  "register_user_routes routes =
     (let c = ''user management'' in
      register_route DELETE ''/api/admin/user/delete/{user_id}/'' ''delete user'' c
       (register_route PATCH ''/api/admin/user/password/'' ''change user password'' c
         (register_route GET ''/api/admin/user/query/'' ''query users'' c
           (register_route PATCH ''/api/admin/user/modify_status/'' ''modify user status'' c
             (register_route POST ''/api/admin/user/create/'' ''create user'' c routes)))))"

definition register_api_rule_routes :: "route_info list \<Rightarrow> route_info list" where
  "register_api_rule_routes routes =
     (let c = ''API access rule management'' in
      register_route GET ''/api/admin/api_rule/routes/'' ''get routes'' c
       (register_route GET ''/api/admin/api_rule/query/'' ''query user API rules'' c
         (register_route DELETE ''/api/admin/api_rule/revoke/'' ''revoke user API rule'' c
           (register_route POST ''/api/admin/api_rule/grant/'' ''grant user API rule'' c routes))))"

definition register_template_routes :: "route_info list \<Rightarrow> route_info list" where
  "register_template_routes routes =
     (let c = ''template management'' in
      register_route GET ''/api/admin/template/all_categories/'' ''get all template categories'' c
       (register_route PATCH ''/api/admin/template/modify_status/'' ''modify template status'' c
         (register_route DELETE ''/api/admin/template/delete/'' ''delete template'' c
           (register_route PATCH ''/api/admin/template/update/'' ''update template'' c
             (register_route GET ''/api/admin/template/query/'' ''query templates'' c
               (register_route POST ''/api/admin/template/create/'' ''create template'' c routes))))))"

definition route_registry :: "route_info list" where
  "route_registry = register_template_routes (register_api_rule_routes (register_user_routes []))"

section \<open>Facts about the registry\<close>

definition registry_ok :: "route_info list \<Rightarrow> bool" where
  "registry_ok routes \<longleftrightarrow> sorted_wrt (<) (map route_key routes)"

lemma keys_route_insert: "route_key ` set (route_insert r xs) = insert (route_key r) (route_key ` set xs)"
  by (induction xs) auto

lemma set_route_insert_subset: "set (route_insert r xs) \<subseteq> insert r (set xs)"
  by (induction xs) auto

lemma set_route_insert_mono: "set xs \<subseteq> set (route_insert r xs)"
  by (induction xs) auto

lemma route_insert_ok: "registry_ok xs \<Longrightarrow> registry_ok (route_insert r xs)"
proof (induction xs)
  case Nil
  then show ?case by (simp add: registry_ok_def)
next
  case (Cons x xs)
  then have tail: "registry_ok xs" and hd: "\<forall>k\<in>route_key ` set xs. route_key x < k"
    by (auto simp: registry_ok_def)
  consider "route_key r < route_key x" | "route_key r = route_key x" | "route_key x < route_key r"
    by (rule linorder_cases)
  then show ?case
  proof cases
    case 1
    with Cons.prems show ?thesis by (auto simp: registry_ok_def dest: less_trans)
  next
    case 2
    with Cons.prems show ?thesis by simp
  next
    case 3
    then have "\<forall>k\<in>route_key ` set (route_insert r xs). route_key x < k"
      using hd by (simp add: keys_route_insert)
    with 3 Cons.IH [OF tail] show ?thesis by (auto simp: registry_ok_def)
  qed
qed

lemma routes_extend_ok: "registry_ok xs \<Longrightarrow> registry_ok (routes_extend rs xs)"
  unfolding routes_extend_def by (induction rs arbitrary: xs) (simp_all add: route_insert_ok)

lemma keys_routes_extend: "route_key ` set (routes_extend rs xs) = route_key ` set rs \<union> route_key ` set xs"
  unfolding routes_extend_def by (induction rs arbitrary: xs) (auto simp: keys_route_insert)

lemma set_routes_extend_subset: "set (routes_extend rs xs) \<subseteq> set rs \<union> set xs"
  unfolding routes_extend_def
proof (induction rs arbitrary: xs)
  case (Cons r rs)
  then show ?case using set_route_insert_subset [of r xs] by fastforce
qed simp

text \<open>The registry stays a sorted set under every insertion: it holds one route per path
  and method, the new path and method is present afterwards, no other key appears, and a
  route registered earlier under the same key is the one that stays.\<close>

theorem registry_is_a_sorted_set:
  assumes "registry_ok routes"
  shows "registry_ok (register_route m p d c routes)
    \<and> distinct (map route_key (register_route m p d c routes))
    \<and> route_key ` set (register_route m p d c routes) = insert (p, m) (route_key ` set routes)
    \<and> set routes \<subseteq> set (register_route m p d c routes)"
proof -
  let ?r = "\<lparr>route_method = m, path = p, category = c, description = d\<rparr>"
  have "registry_ok (route_insert ?r routes)" using assms by (rule route_insert_ok)
  moreover from this have "distinct (map route_key (route_insert ?r routes))"
    unfolding registry_ok_def by (simp add: strict_sorted_iff)
  moreover have "route_key ?r = (p, m)" by (simp add: route_key_def)
  ultimately show ?thesis
    by (simp add: register_route_def keys_route_insert set_route_insert_mono)
qed

lemma route_registry_ok: "registry_ok route_registry"
  unfolding route_registry_def register_template_routes_def register_api_rule_routes_def
    register_user_routes_def register_route_def Let_def
  by (intro route_insert_ok) (simp add: registry_ok_def)

theorem registry_is_a_sorted_set_witness:
  "distinct (map route_key (register_route GET ''/api/x/'' [] [] route_registry))"
  using registry_is_a_sorted_set [OF route_registry_ok] by blast

end
