(* ===== verification/Schema_Files.thy ===== *)
theory Schema_Files
  imports Domain
begin

text \<open>
  \<open>domain/schema.rs\<close>: the file fields of a template. A file definition of an
  administrator is written into the JSON schema of the template (\<open>into_schema\<close>) and read
  back from it when the template is used (\<open>try_from_schema\<close>).
\<close>

section \<open>File field configurations\<close>

record file_config =
  allowed_types :: "string list"
  quota :: "64 word"
  max_size :: i64
  required :: bool

text \<open>The serde encoding of a configuration, as it is stored in the upload session.\<close>

definition config_to_json :: "file_config \<Rightarrow> json" where
  "config_to_json c =
     JObj [(''allowed_types'', JArr (map JStr (allowed_types c))), (''quota'', of_u64 (quota c)),
           (''max_size'', of_i64 (max_size c)), (''required'', JBool (required c))]"

text \<open>
  \<open>deserialize_allowed_types\<close>: an array of strings, or an empty object, which stands for
  the empty array.
\<close>

fun strings_of :: "json list \<Rightarrow> string list option" where
  "strings_of [] = Some []"
| "strings_of (v # vs) =
     (case v of JStr s \<Rightarrow> map_option (\<lambda>ss. s # ss) (strings_of vs) | _ \<Rightarrow> None)"

definition deserialize_allowed_types :: "json \<Rightarrow> string list option" where
  "deserialize_allowed_types v =
     (case v of JArr xs \<Rightarrow> strings_of xs
      | JObj m \<Rightarrow> if m = [] then Some [] else None
      | _ \<Rightarrow> None)"

definition config_from_json :: "json \<Rightarrow> file_config option" where
  "config_from_json v = do {
     t \<leftarrow> get v ''allowed_types'';
     ts \<leftarrow> deserialize_allowed_types t;
     q \<leftarrow> get v ''quota'';
     q' \<leftarrow> as_u64 q;
     m \<leftarrow> get v ''max_size'';
     m' \<leftarrow> as_i64 m;
     r \<leftarrow> get v ''required'';
     r' \<leftarrow> as_bool r;
     Some \<lparr>allowed_types = ts, quota = q', max_size = m', required = r'\<rparr>
   }"

text \<open>\<open>^\.[a-zA-Z0-9]+$\<close>.\<close>

definition file_type_regex :: "string \<Rightarrow> bool" where
  "file_type_regex s =
     (case s of [] \<Rightarrow> False | c # e \<Rightarrow> c = CHR ''.'' \<and> e \<noteq> [] \<and> (\<forall>x\<in>set e. is_alnum x))"

definition validate_allowed_types :: "string list \<Rightarrow> (validation_error, unit) result" where
  "validate_allowed_types types =
     (let msg = concat (map (\<lambda>t. if file_type_regex (trim t) then []
                                 else ''invalid file type: '' @ trim t @ [nl]) types)
      in if msg \<noteq> [] then Err \<lparr>ve_code = ''invalid_file_type'', ve_message = Some msg\<rparr> else Ok ())"

section \<open>Writing a file field into a schema\<close>

text \<open>The definition of the field, as \<open>into_schema\<close> leaves it.\<close>

definition file_field_def :: "file_config \<Rightarrow> string \<Rightarrow> (string \<times> json) list \<Rightarrow> (string \<times> json) list" where
  "file_field_def cfg title fd =
     (let fd1 = put ''x-file-config''
                  (JObj [(''accept'', JArr (map JStr (allowed_types cfg))),
                         (''max_size'', of_i64 (max_size cfg))]) fd;
          fd2 = (if quota cfg = 1
                 then put ''format'' (JStr ''file-id'') (put ''type'' (JStr ''string'') fd1)
                 else put ''maxItems'' (of_u64 (quota cfg))
                        (put ''items'' (JObj [(''type'', JStr ''string''), (''format'', JStr ''file-id'')])
                          (put ''type'' (JStr ''array'') fd1)))
      in put ''title'' (JStr title) fd2)"

text \<open>
  \<open>into_schema\<close>: a schema that is not an object is replaced by an empty one; the three
  \<open>expect\<close> calls panic when \<open>properties\<close>, the field's definition or \<open>required\<close> is
  present with another type.
\<close>

definition into_schema :: "file_config \<Rightarrow> string \<Rightarrow> json \<Rightarrow> string \<Rightarrow> ('e, json) result" where
  "into_schema cfg field schema title =
     (let top0 = (case schema of JObj m \<Rightarrow> m
                  | _ \<Rightarrow> [(''type'', JStr ''object''), (''properties'', JObj [])])
      in case entry_or ''properties'' (JObj []) top0 of
           JObj props \<Rightarrow>
             (case entry_or field (JObj []) props of
                JObj fd \<Rightarrow>
                  (let top1 = put ''properties'' (JObj (put field (JObj (file_field_def cfg title fd)) props)) top0
                   in if required cfg then
                        (case entry_or ''required'' (JArr []) top1 of
                           JArr req \<Rightarrow>
                             Ok (JObj (put ''required''
                                   (JArr (if JStr field \<in> set req then req else req @ [JStr field])) top1))
                         | _ \<Rightarrow> Panic)
                      else Ok (JObj top1))
              | _ \<Rightarrow> Panic)
         | _ \<Rightarrow> Panic)"

section \<open>Reading file fields from a schema\<close>

definition try_from_field_def :: "json \<Rightarrow> bool \<Rightarrow> file_config option" where
  "try_from_field_def fd req = do {
     x \<leftarrow> get fd ''x-file-config'';
     a \<leftarrow> get x ''accept'';
     types \<leftarrow> as_array a;
     m \<leftarrow> get x ''max_size'';
     m' \<leftarrow> as_i64 m;
     t \<leftarrow> get fd ''type'';
     t' \<leftarrow> as_str t;
     q \<leftarrow> (if t' = ''string'' \<and> get fd ''format'' = Some (JStr ''file-id'') then Some 1
          else if t' = ''array'' then Option.bind (get fd ''maxItems'') as_u64
          else None);
     Some \<lparr>allowed_types = List.map_filter as_str types, quota = q, max_size = m', required = req\<rparr>
   }"

type_synonym file_configs = "(string \<times> file_config) list"

definition required_fields :: "json \<Rightarrow> string list" where
  "required_fields schema =
     (case Option.bind (get schema ''required'') as_array of
        None \<Rightarrow> [] | Some arr \<Rightarrow> List.map_filter as_str arr)"

text \<open>
  The source collects the configurations into a \<open>HashMap\<close>, whose order is unspecified; the
  list has one entry per field and nothing below depends on its order.
\<close>

definition try_from_schema :: "json \<Rightarrow> file_configs option" where
  "try_from_schema schema =
     (let cfgs = (case Option.bind (get schema ''properties'') as_object of
                    None \<Rightarrow> []
                  | Some props \<Rightarrow>
                      List.map_filter (\<lambda>(field, fd).
                        map_option (Pair field) (try_from_field_def fd (field \<in> set (required_fields schema))))
                        props)
      in if cfgs = [] then None else Some cfgs)"

section \<open>Template schemas\<close>

record template_schema =
  schema_def :: json
  inst :: "json option"

record file_definition =
  fd_field :: string
  fd_title :: string
  fd_config :: file_config

text \<open>
  The JSON schema library is outside the repository: \<open>schema_error s\<close> is the error of
  \<open>jsonschema::validator_for\<close> (\<open>None\<close> when the schema compiles), \<open>schema_errors s i\<close> the
  instance paths and messages of \<open>iter_errors\<close> for the compiled schema \<open>s\<close>.
\<close>

definition join_semicolon :: "string list \<Rightarrow> string" where
  "join_semicolon ss = concat (case ss of [] \<Rightarrow> [] | t # ts \<Rightarrow> t # map (\<lambda>u. ''; '' @ u) ts)"

definition validate_instance ::
  "(json \<Rightarrow> json \<Rightarrow> (string \<times> string) list) \<Rightarrow> json \<Rightarrow> json \<Rightarrow> (validation_error, unit) result" where
  "validate_instance schema_errors schema i =
     (let errors = map (\<lambda>(p, m). p @ '': '' @ m) (schema_errors schema i)
      in if errors \<noteq> []
         then Err \<lparr>ve_code = ''instance_validation_failed'',
                   ve_message = Some (''schema validation failed: '' @ join_semicolon errors)\<rparr>
         else Ok ())"

definition template_schema_validate ::
  "(json \<Rightarrow> string option) \<Rightarrow> (json \<Rightarrow> json \<Rightarrow> (string \<times> string) list) \<Rightarrow>
   template_schema \<Rightarrow> (validation_error, unit) result" where
  "template_schema_validate schema_error schema_errors ts =
     (case schema_error (schema_def ts) of
        Some e \<Rightarrow> Err \<lparr>ve_code = ''invalid_json_schema'', ve_message = Some (''invalid JSON Schema: '' @ e)\<rparr>
      | None \<Rightarrow>
          (let msg = (case Option.bind (get (schema_def ts) ''properties'') as_object of
                        None \<Rightarrow> []
                      | Some props \<Rightarrow>
                          concat (map (\<lambda>(field, fd). if get fd ''x-config-file'' \<noteq> None
                                                     then ''not allowed to define a file field: '' @ field @ [nl]
                                                     else []) props))
           in if msg \<noteq> []
              then Err \<lparr>ve_code = ''invalid_json_schema'', ve_message = Some msg\<rparr>
              else (case inst ts of
                      None \<Rightarrow> Ok ()
                    | Some i \<Rightarrow> validate_instance schema_errors (schema_def ts) i)))"

section \<open>Facts\<close>

lemma strings_of_map_JStr [simp]: "strings_of (map JStr ss) = Some ss"
  by (induction ss) simp_all

lemma map_filter_as_str_JStr [simp]: "List.map_filter as_str (map JStr ss) = ss"
  by (induction ss) (simp_all add: List.map_filter_simps)

lemma config_from_to_json [simp]: "config_from_json (config_to_json c) = Some c"
  by (simp add: config_from_json_def config_to_json_def deserialize_allowed_types_def)

lemma try_from_file_field_def [simp]:
  "try_from_field_def (JObj (file_field_def cfg title fd)) r = Some (cfg\<lparr>required := r\<rparr>)"
  by (simp add: try_from_field_def_def file_field_def_def Let_def)

lemma map_of_map_filter_pair:
  assumes "distinct (map fst m)"
  shows "map_of (List.map_filter (\<lambda>(k, v). map_option (Pair k) (g k v)) m) f = Option.bind (map_of m f) (g f)"
  using assms
proof (induction m)
  case Nil
  then show ?case by (simp add: List.map_filter_simps)
next
  case (Cons p m)
  obtain k v where p: "p = (k, v)" by (cases p)
  have "f \<notin> fst ` set m \<Longrightarrow> map_of m f = None" by (simp add: map_of_eq_None_iff)
  with Cons p show ?case
    by (cases "g k v") (auto simp: List.map_filter_simps)
qed

text \<open>A schema whose \<open>properties\<close> object has one entry per field, as every JSON object has.\<close>

definition props_of :: "json \<Rightarrow> (string \<times> json) list" where
  "props_of schema = (case Option.bind (get schema ''properties'') as_object of None \<Rightarrow> [] | Some p \<Rightarrow> p)"

definition schema_ok :: "json \<Rightarrow> bool" where
  "schema_ok schema \<longleftrightarrow> distinct (map fst (props_of schema))"

text \<open>The configuration of a field, \<open>None\<close> when the field is no file field.\<close>

definition config_of :: "json \<Rightarrow> string \<Rightarrow> file_config option" where
  "config_of schema f = (case try_from_schema schema of None \<Rightarrow> None | Some cfgs \<Rightarrow> map_of cfgs f)"

lemma config_of_eq:
  assumes "schema_ok schema"
  shows "config_of schema f =
    Option.bind (map_of (props_of schema) f) (\<lambda>fd. try_from_field_def fd (f \<in> set (required_fields schema)))"
proof -
  let ?g = "\<lambda>k fd. try_from_field_def fd (k \<in> set (required_fields schema))"
  let ?cs = "List.map_filter (\<lambda>(k, v). map_option (Pair k) (?g k v)) (props_of schema)"
  have "try_from_schema schema = (if ?cs = [] then None else Some ?cs)"
    by (simp add: try_from_schema_def props_of_def Let_def List.map_filter_simps split: option.splits)
  then have "config_of schema f = map_of ?cs f"
    by (simp add: config_of_def)
  with assms show ?thesis by (simp add: map_of_map_filter_pair schema_ok_def)
qed

lemma config_of_SomeD: "config_of schema f = Some c \<Longrightarrow> \<exists>cfgs. try_from_schema schema = Some cfgs \<and> map_of cfgs f = Some c"
  by (simp add: config_of_def split: option.splits)

text \<open>What a successful \<open>into_schema\<close> has written.\<close>

lemma into_schema_OkE:
  assumes "into_schema cfg field schema title = Ok schema'"
  obtains fd where
    "props_of schema' = put field (JObj (file_field_def cfg title fd)) (props_of schema)"
    and "set (required_fields schema') =
           (if required cfg then insert field (set (required_fields schema)) else set (required_fields schema))"
proof -
  let ?top = "case schema of JObj m \<Rightarrow> m | _ \<Rightarrow> [(''type'', JStr ''object''), (''properties'', JObj [])]"
  from assms obtain props fd where
    props: "entry_or ''properties'' (JObj []) ?top = JObj props"
    and fd: "entry_or field (JObj []) props = JObj fd"
    unfolding into_schema_def Let_def by (auto split: json.splits)
  let ?top1 = "put ''properties'' (JObj (put field (JObj (file_field_def cfg title fd)) props)) ?top"
  have P: "props_of schema = props"
    using props by (cases schema) (auto simp: props_of_def entry_or_def split: option.splits)
  have R: "entry_or ''required'' (JArr []) ?top1 = entry_or ''required'' (JArr []) ?top"
    by (simp add: entry_or_def)
  have RF: "required_fields schema =
      (case entry_or ''required'' (JArr []) ?top of JArr a \<Rightarrow> List.map_filter as_str a | _ \<Rightarrow> [])"
    by (cases schema) (auto simp: required_fields_def entry_or_def as_array_def List.map_filter_simps
        split: option.splits json.splits)
  have strs: "set (List.map_filter as_str a) = {s. JStr s \<in> set a}" for a
    by (induction a) (auto simp: List.map_filter_simps as_str_def split: json.splits)
  show thesis
  proof (cases "required cfg")
    case False
    then have "schema' = JObj ?top1" using assms props fd by (simp add: into_schema_def Let_def)
    then show thesis
      using that [of fd] False P R RF
      by (simp add: props_of_def required_fields_def entry_or_def as_array_def
          split: option.splits json.splits)
  next
    case True
    then obtain req where req: "entry_or ''required'' (JArr []) ?top1 = JArr req"
      and s': "schema' = JObj (put ''required'' (JArr (if JStr field \<in> set req then req else req @ [JStr field])) ?top1)"
      using assms props fd by (simp add: into_schema_def Let_def split: json.splits)
    have "set (required_fields schema) = {s. JStr s \<in> set req}"
      using RF req [unfolded R] by (simp only: json.case strs)
    moreover have "set (required_fields schema') = insert field {s. JStr s \<in> set req}"
      using s' by (auto simp: required_fields_def strs)
    moreover have "props_of schema' = put field (JObj (file_field_def cfg title fd)) props"
      using s' by (simp add: props_of_def)
    ultimately show thesis using that [of fd] True P by simp
  qed
qed

lemma into_schema_ok:
  assumes "into_schema cfg field schema title = Ok schema'" and "schema_ok schema"
  shows "schema_ok schema'"
  using assms by (elim into_schema_OkE) (simp add: schema_ok_def)

text \<open>
  A file definition written into a schema is read back: same types, quota and size limit, and
  required exactly when the definition or the schema says so. The file fields the schema had
  are unaffected.
\<close>

lemma into_schema_config:
  assumes "into_schema cfg field schema title = Ok schema'" and "schema_ok schema"
  shows "config_of schema' field =
           Some (cfg\<lparr>required := required cfg \<or> field \<in> set (required_fields schema)\<rparr>)
    \<and> (\<forall>f. f \<noteq> field \<longrightarrow> config_of schema' f = config_of schema f)"
proof -
  from assms(1) obtain fd where
    P: "props_of schema' = put field (JObj (file_field_def cfg title fd)) (props_of schema)"
    and R: "set (required_fields schema') =
           (if required cfg then insert field (set (required_fields schema)) else set (required_fields schema))"
    by (rule into_schema_OkE)
  have "schema_ok schema'" using assms by (rule into_schema_ok)
  then show ?thesis using assms(2) P R by (simp add: config_of_eq)
qed

lemma into_schema_required:
  assumes "into_schema cfg field schema title = Ok schema'"
  shows "set (required_fields schema') =
     (if required cfg then insert field (set (required_fields schema)) else set (required_fields schema))"
  using assms by (rule into_schema_OkE)

section \<open>Properties\<close>

text \<open>C36: Writing a file field panics in exactly three situations: \<open>properties\<close> is there and
  is no object, the schema already describes the field by something that is no object (the
  schema \<open>true\<close>, for example), or the field is required and \<open>required\<close> is no array.\<close>

theorem into_schema_panics_iff:
  "(into_schema cfg field schema title :: ('e, json) result) = Panic \<longleftrightarrow>
     (\<exists>v. get schema ''properties'' = Some v \<and> \<not> is_object v)
     \<or> (\<exists>v. map_of (props_of schema) field = Some v \<and> \<not> is_object v)
     \<or> (required cfg \<and> (\<exists>v. get schema ''required'' = Some v \<and> as_array v = None))"
  by (cases schema)
     (auto simp: into_schema_def Let_def entry_or_def props_of_def is_object_def as_array_def as_object_def
       split: option.splits json.splits)

text \<open> The check that keeps file fields out of administrator-written schemas looks for the
  key \<open>x-config-file\<close>, while file fields are marked with \<open>x-file-config\<close>: a schema that
  compiles and never uses the former key passes, whatever file fields it defines itself.\<close>

theorem own_file_fields_pass_validation:
  assumes "schema_error (schema_def ts) = None" and "inst ts = None"
    and "\<forall>(f, fd)\<in>set (props_of (schema_def ts)). get fd ''x-config-file'' = None"
  shows "template_schema_validate schema_error schema_errors ts = Ok ()"
proof -
  have "(case Option.bind (get (schema_def ts) ''properties'') as_object of None \<Rightarrow> []
      | Some props \<Rightarrow> concat (map (\<lambda>(field, fd). if get fd ''x-config-file'' \<noteq> None
            then ''not allowed to define a file field: '' @ field @ [nl] else []) props)) = []"
    using assms(3) by (fastforce simp: props_of_def split: option.splits)
  then show ?thesis
    using assms(1,2) by (simp add: template_schema_validate_def Let_def)
qed

theorem own_file_fields_pass_validation_witness:
  "let c = \<lparr>allowed_types = [], quota = 1, max_size = 0, required = False\<rparr>;
       ts = \<lparr>schema_def = JObj [(''properties'', JObj [(''doc'', JObj (file_field_def c ''Doc'' []))])], inst = None\<rparr>
   in config_of (schema_def ts) ''doc'' = Some c
      \<and> template_schema_validate (\<lambda>_. None) (\<lambda>_ _. []) ts = Ok ()"
proof -
  let ?c = "\<lparr>allowed_types = [], quota = 1, max_size = 0, required = False\<rparr> :: file_config"
  let ?ts = "\<lparr>schema_def = JObj [(''properties'', JObj [(''doc'', JObj (file_field_def ?c ''Doc'' []))])], inst = None\<rparr>
    :: template_schema"
  have "schema_ok (schema_def ?ts)" by (simp add: schema_ok_def props_of_def)
  then have "config_of (schema_def ?ts) ''doc'' = Some ?c"
    by (simp add: config_of_eq props_of_def required_fields_def)
  moreover have "template_schema_validate (\<lambda>_. None) (\<lambda>_ _. []) ?ts = Ok ()"
    by (rule own_file_fields_pass_validation)
       (simp_all add: props_of_def file_field_def_def put_def Let_def)
  ultimately show ?thesis by (simp add: Let_def)
qed

end
