(* ===== verification/World.thy ===== *)
theory World
  imports Schema_Files
begin

text \<open>
  The state the handlers and the background tasks share (\<open>common/app_state.rs\<close> and the
  services behind it): the tables of the migrations, the Redis store, the bucket, the schema
  cache and the in-memory task queue, with the primitive calls of the client libraries on
  them. The functions of third-party libraries are fields of the record \<open>externs\<close>, an
  argument of the definitions that use them.

  Every call to the database, to Redis or to S3 draws the next entry of a fault script. The
  script is an arbitrary list, so a theorem about all worlds covers every pattern of
  failures; where the script ends, calls succeed. A call that fails has no effect.
\<close>

section \<open>Tables\<close>

record user_row =
  u_id :: uuid
  u_name :: string
  u_nickname :: string
  u_hash :: string
  u_role :: string
  u_email :: "string option"
  u_phone :: "string option"
  u_avatar :: "string option"
  u_major :: "string option"
  u_college :: "string option"
  u_active :: bool
  u_created :: int

record rule_row =
  r_id :: uuid
  r_user :: uuid
  r_pattern :: string
  r_method :: string
  r_desc :: "string option"
  r_expires :: "int option"
  r_granted :: "uuid option"
  r_created :: int

record template_row =
  t_id :: uuid
  t_name :: string
  t_category :: string
  t_desc :: "string option"
  t_schema :: json
  t_active :: bool
  t_by :: "uuid option"
  t_created :: int
  t_updated :: int

record archive_row =
  a_id :: uuid
  a_template :: uuid
  a_data :: json
  a_by :: "uuid option"
  a_created :: int

record file_row =
  f_id :: uuid
  f_record :: uuid
  f_name :: string
  f_key :: string
  f_size :: i64
  f_mime :: string
  f_by :: "uuid option"

text \<open>\<open>OutboxStatus\<close> and the commands of \<open>tasks/models.rs\<close>.\<close>

datatype outbox_status = Pending | Running | Dead

fun status_as_i16 :: "outbox_status \<Rightarrow> 16 word" where
  "status_as_i16 Pending = 0"
| "status_as_i16 Running = 1"
| "status_as_i16 Dead = 2"

datatype task_command = DeleteArchiveObjects "string list"

fun command_type :: "task_command \<Rightarrow> string" where
  "command_type (DeleteArchiveObjects _) = ''DeleteArchiveObjects''"

text \<open>The serde encoding of a command (externally tagged) and its decoder.\<close>

fun command_to_json :: "task_command \<Rightarrow> json" where
  "command_to_json (DeleteArchiveObjects ks) =
     JObj [(''DeleteArchiveObjects'', JObj [(''object_keys'', JArr (map JStr ks))])]"

definition command_from_json :: "json \<Rightarrow> task_command option" where
  "command_from_json v =
     (case v of
        JObj [(tag, body)] \<Rightarrow>
          if tag = ''DeleteArchiveObjects''
          then map_option DeleteArchiveObjects
                 (Option.bind (get body ''object_keys'') (\<lambda>a. Option.bind (as_array a) strings_of))
          else None
      | _ \<Rightarrow> None)"

record outbox_row =
  o_id :: nat
  o_type :: string
  o_payload :: json
  o_status :: outbox_status
  o_attempts :: int
  o_next_retry :: int
  o_error :: "string option"
  o_updated :: int

record database =
  users :: "user_row list"
  rules :: "rule_row list"
  templates :: "template_row list"
  records :: "archive_row list"
  files :: "file_row list"
  outbox :: "outbox_row list"
  next_outbox_id :: nat
  ties :: "i64 \<Rightarrow> i64 \<Rightarrow> int \<Rightarrow> nat \<Rightarrow> nat"

text \<open>
  \<open>ties\<close> is no table: it stands for the order PostgreSQL happens to meet the rows of a query in, which it keeps for rows
  an \<open>ORDER BY\<close> leaves tied. The n-th row has the rank \<open>ties d limit offset now n\<close> in a statement with this limit and
  offset at this time.
\<close>

section \<open>Redis, S3, caches, queue\<close>

record s3_object =
  original_filename :: "string option"
  content_type :: "string option"
  content_length :: "i64 option"
  last_modified :: "int option"

record template_context =
  validator :: json
  file_field_configs :: "file_configs option"

record queued_task =
  outbox_id :: "nat option"
  command :: task_command

text \<open>
  A fault: the call fails with an SDK error (a database or Redis error for those clients), or,
  for a batch deletion, the service reports errors for single keys and keeps their objects.
\<close>

datatype fault =
    NoFault
  | Down sdk_error
  | KeyErrors "(string option \<times> string option \<times> string option) list"

record world =
  db :: database
  redis :: "string \<Rightarrow> (json \<times> int) option"
  bucket :: "(string \<times> s3_object) list"
  schema_cache :: "uuid \<Rightarrow> template_context option"
  queue :: "queued_task list"
  queue_capacity :: nat
  queue_closed :: bool
  dropped_full :: "64 word"
  dropped_closed :: "64 word"
  clock :: int
  fresh_uuids :: "nat \<Rightarrow> uuid"
  drawn :: nat
  faults :: "fault list"

section \<open>Third-party functions\<close>

record claims =
  sub :: uuid
  exp :: "64 word"
  iat :: "64 word"
  username :: string
  role :: user_role

datatype jwt_error = ExpiredSignature | OtherJwtError

text \<open>A value bound to a placeholder of a query.\<close>

datatype bind = BUuid uuid | BText string | BInt i64

record externs =
  x_uuid_str :: "uuid \<Rightarrow> string"
  x_uuid_parse :: "string \<Rightarrow> uuid option"
  x_schema_error :: "json \<Rightarrow> string option"
  x_schema_errors :: "json \<Rightarrow> json \<Rightarrow> (string \<times> string) list"
  x_url_encode :: "string \<Rightarrow> string"
  x_url_decode :: "string \<Rightarrow> string option"
  x_presign_put :: "string \<Rightarrow> string \<Rightarrow> i64 \<Rightarrow> string \<Rightarrow> string"
  x_presign_get :: "string \<Rightarrow> string \<Rightarrow> string"
  x_hash :: "uuid \<Rightarrow> string \<Rightarrow> string option"
  x_verify :: "string \<Rightarrow> string \<Rightarrow> bool"
  x_jwt_encode :: "claims \<Rightarrow> string option"
  x_jwt_decode :: "int \<Rightarrow> string \<Rightarrow> jwt_error + claims"
  x_mime_guess :: "string \<Rightarrow> string"
  x_email_ok :: "string \<Rightarrow> bool"
  x_where :: "string \<Rightarrow> bind list \<Rightarrow> archive_row \<Rightarrow> string + bool"
  x_float_text :: "int \<Rightarrow> string"
  x_float_value :: "string \<Rightarrow> int"

text \<open>
  \<open>x_where text binds row\<close> is PostgreSQL's evaluation of a \<open>WHERE\<close> clause on a row: an SQLSTATE
  or whether the row is selected. \<open>x_float_text\<close> is how the JSON library of Redis prints a whole
  number of more than 14 digits, \<open>x_float_value\<close> the whole number it reads from such a text.
\<close>

text \<open>
  The documented behaviour of the \<open>uuid\<close> crate the code relies on: the printed form parses
  back and holds neither a slash nor a dot.
\<close>

definition uuid_codec :: "externs \<Rightarrow> bool" where
  "uuid_codec X \<longleftrightarrow>
     (\<forall>u. x_uuid_parse X (x_uuid_str X u) = Some u
        \<and> CHR ''/'' \<notin> set (x_uuid_str X u) \<and> CHR ''.'' \<notin> set (x_uuid_str X u))"

section \<open>Primitive calls\<close>

definition next_fault :: "world \<Rightarrow> fault \<times> world" where
  "next_fault w = (case faults w of [] \<Rightarrow> (NoFault, w) | f # fs \<Rightarrow> (f, w\<lparr>faults := fs\<rparr>))"

text \<open>
  A statement reads the transaction time and the database and yields an SQLSTATE or a value
  with the new database.
\<close>

type_synonym 'a stmt = "int \<Rightarrow> database \<Rightarrow> string + 'a \<times> database"

definition sql :: "'a stmt \<Rightarrow> (world, anyhow, 'a) prog" where
  "sql st w =
     (case next_fault w of
        (f, w') \<Rightarrow>
          if f \<noteq> NoFault then (Err (DbErr None), w')
          else (case st (clock w') (db w') of
                  Inl c \<Rightarrow> (Err (DbErr (Some c)), w')
                | Inr (x, d) \<Rightarrow> (Ok x, w'\<lparr>db := d\<rparr>)))"

definition select :: "(int \<Rightarrow> database \<Rightarrow> 'a) \<Rightarrow> (world, anyhow, 'a) prog" where
  "select q = sql (\<lambda>now d. Inr (q now d, d))"

text \<open>\<open>Uuid::new_v4\<close> and \<open>gen_random_uuid()\<close>.\<close>

definition new_uuid :: "(world, 'e, uuid) prog" where
  "new_uuid w = (Ok (fresh_uuids w (drawn w)), w\<lparr>drawn := Suc (drawn w)\<rparr>)"

text \<open>Redis: \<open>SETEX\<close>, \<open>GET\<close>, \<open>DEL\<close>, \<open>EXISTS\<close>; an entry is gone when its time is up.\<close>

definition kv_set_ex :: "string \<Rightarrow> json \<Rightarrow> int \<Rightarrow> int \<Rightarrow> (string \<Rightarrow> (json \<times> int) option) \<Rightarrow> (string \<Rightarrow> (json \<times> int) option)" where
  "kv_set_ex k v ttl now m = m(k := Some (v, now + ttl))"

definition kv_get :: "string \<Rightarrow> int \<Rightarrow> (string \<Rightarrow> (json \<times> int) option) \<Rightarrow> json option" where
  "kv_get k now m = (case m k of None \<Rightarrow> None | Some (v, e) \<Rightarrow> if now < e then Some v else None)"

definition kv_del :: "string \<Rightarrow> (string \<Rightarrow> (json \<times> int) option) \<Rightarrow> (string \<Rightarrow> (json \<times> int) option)" where
  "kv_del k m = m(k := None)"

definition redis_call :: "(int \<Rightarrow> (string \<Rightarrow> (json \<times> int) option) \<Rightarrow>
    'a \<times> (string \<Rightarrow> (json \<times> int) option)) \<Rightarrow> (world, anyhow, 'a) prog" where
  "redis_call f w =
     (case next_fault w of
        (ft, w') \<Rightarrow>
          if ft \<noteq> NoFault then (Err (RedisErr ''redis error''), w')
          else (case f (clock w') (redis w') of (x, m) \<Rightarrow> (Ok x, w'\<lparr>redis := m\<rparr>)))"

definition redis_set_ex :: "string \<Rightarrow> json \<Rightarrow> int \<Rightarrow> (world, anyhow, unit) prog" where
  "redis_set_ex k v ttl = redis_call (\<lambda>now m. ((), kv_set_ex k v ttl now m))"

definition redis_get :: "string \<Rightarrow> (world, anyhow, json option) prog" where
  "redis_get k = redis_call (\<lambda>now m. (kv_get k now m, m))"

definition redis_del :: "string \<Rightarrow> (world, anyhow, unit) prog" where
  "redis_del k = redis_call (\<lambda>_ m. ((), kv_del k m))"

definition redis_exists :: "string \<Rightarrow> (world, anyhow, bool) prog" where
  "redis_exists k = redis_call (\<lambda>now m. (kv_get k now m \<noteq> None, m))"

section \<open>Redis as an interface\<close>

text \<open>What the upload sessions rely on: a store whose entries live until their time is up.\<close>

locale expiring_store =
  fixes set_ex :: "'k \<Rightarrow> 'v \<Rightarrow> int \<Rightarrow> int \<Rightarrow> 'm \<Rightarrow> 'm"
    and lookup :: "'k \<Rightarrow> int \<Rightarrow> 'm \<Rightarrow> 'v option"
    and remove :: "'k \<Rightarrow> 'm \<Rightarrow> 'm"
  assumes lookup_set_ex: "lookup k now (set_ex k v ttl now' m) = (if now < now' + ttl then Some v else None)"
    and lookup_set_other: "k' \<noteq> k \<Longrightarrow> lookup k' now (set_ex k v ttl now' m) = lookup k' now m"
    and lookup_remove: "lookup k now (remove k m) = None"
    and lookup_remove_other: "k' \<noteq> k \<Longrightarrow> lookup k' now (remove k m) = lookup k' now m"
    and lookup_expires: "now \<le> now' \<Longrightarrow> lookup k now m = None \<Longrightarrow> lookup k now' m = None"
begin

lemma set_then_live: "0 < ttl \<Longrightarrow> lookup k now (set_ex k v ttl now m) = Some v"
  by (simp add: lookup_set_ex)

lemma set_then_gone: "now' + ttl \<le> now \<Longrightarrow> lookup k now (set_ex k v ttl now' m) = None"
  by (simp add: lookup_set_ex)

lemma set_lookup: "0 < ttl \<Longrightarrow>
    lookup k' now (set_ex k v ttl now m) = (if k' = k then Some v else lookup k' now m)"
  by (simp add: set_then_live lookup_set_other)

lemma remove_lookup: "lookup k' now (remove k m) = (if k' = k then None else lookup k' now m)"
  by (simp add: lookup_remove lookup_remove_other)

end

interpretation kv: expiring_store kv_set_ex kv_get kv_del
  by unfold_locales (auto simp: kv_set_ex_def kv_get_def kv_del_def split: option.splits)

section \<open>Frames of the primitive calls\<close>

named_theorems world_rules \<open>invariants of the primitive calls\<close>

lemma next_fault_world: "next_fault w = (f, w') \<Longrightarrow> w' = w\<lparr>faults := faults w'\<rparr>"
  by (auto simp: next_fault_def split: list.splits)

lemma next_fault_fields [simp]:
  "db (snd (next_fault w)) = db w" "redis (snd (next_fault w)) = redis w"
  "bucket (snd (next_fault w)) = bucket w" "schema_cache (snd (next_fault w)) = schema_cache w"
  "queue (snd (next_fault w)) = queue w" "queue_capacity (snd (next_fault w)) = queue_capacity w"
  "queue_closed (snd (next_fault w)) = queue_closed w" "clock (snd (next_fault w)) = clock w"
  "fresh_uuids (snd (next_fault w)) = fresh_uuids w" "drawn (snd (next_fault w)) = drawn w"
  "dropped_full (snd (next_fault w)) = dropped_full w"
  "dropped_closed (snd (next_fault w)) = dropped_closed w"
  by (simp_all add: next_fault_def split: list.splits)

lemma next_fault_none [simp]: "faults w = [] \<Longrightarrow> next_fault w = (NoFault, w)"
  by (simp add: next_fault_def)

text \<open>An invariant that ignores the fault script is kept by reads, and by a write whose statement keeps it.\<close>

definition fault_free_inv :: "(world \<Rightarrow> bool) \<Rightarrow> bool" where
  "fault_free_inv I \<longleftrightarrow> (\<forall>w fs. I w \<longrightarrow> I (w\<lparr>faults := fs\<rparr>))"

lemma fault_free_next: "fault_free_inv I \<Longrightarrow> I w \<Longrightarrow> next_fault w = (f, w') \<Longrightarrow> I w'"
  by (metis fault_free_inv_def next_fault_world)

lemma keeps_sql:
  assumes "fault_free_inv I"
    and "\<And>w x d. I w \<Longrightarrow> st (clock w) (db w) = Inr (x, d) \<Longrightarrow> I (w\<lparr>db := d\<rparr>)"
  shows "keeps I (sql st)"
proof (rule keepsI)
  fix w assume w: "I w"
  obtain f w' where nf: "next_fault w = (f, w')" by (cases "next_fault w")
  with assms(1) w have "I w'" by (rule fault_free_next)
  with assms(2) nf show "I (snd (sql st w))"
    by (auto simp: sql_def split: sum.splits prod.splits)
qed

lemma keeps_select [world_rules]:
  assumes "fault_free_inv I"
  shows "keeps I (select q)"
  unfolding select_def by (rule keeps_sql [OF assms]) auto

lemma keeps_redis_call:
  assumes "fault_free_inv I"
    and "\<And>w x m. I w \<Longrightarrow> f (clock w) (redis w) = (x, m) \<Longrightarrow> I (w\<lparr>redis := m\<rparr>)"
  shows "keeps I (redis_call f)"
proof (rule keepsI)
  fix w assume w: "I w"
  obtain ft w' where nf: "next_fault w = (ft, w')" by (cases "next_fault w")
  with assms(1) w have "I w'" by (rule fault_free_next)
  with assms(2) nf show "I (snd (redis_call f w))"
    by (auto simp: redis_call_def split: prod.splits)
qed

lemma strings_of_Some_iff: "strings_of vs = Some ss \<longleftrightarrow> vs = map JStr ss"
proof (induction vs arbitrary: ss)
  case Nil
  then show ?case by auto
next
  case (Cons v vs)
  then show ?case by (cases v; cases ss) (auto split: option.splits)
qed

lemma command_from_to_json [simp]: "command_from_json (command_to_json c) = Some c"
  by (cases c) (simp add: command_from_json_def)

end
