(* ===== verification/Outbox.thy ===== *)
theory Outbox
  imports World
begin

text \<open>
  \<open>tasks/dispatcher.rs\<close> and \<open>tasks/periodic/outbox_pull.rs\<close>: commands are stored in the
  table \<open>task_outbox\<close> first and handed to the worker through a bounded in-memory channel.
  A row is claimed by moving it from \<open>Pending\<close> to \<open>Running\<close>; a claimed row whose worker
  disappears is reclaimed after a timeout.

  Times are microseconds, durations nanoseconds. The column \<open>attempts\<close> is an unbounded
  integer here.
\<close>

section \<open>Time\<close>

definition seconds :: "int \<Rightarrow> int" where
  "seconds n = n * 1000000"

type_synonym duration = nat

definition from_secs :: "nat \<Rightarrow> duration" where
  "from_secs n = n * 1000000000"

definition as_secs :: "duration \<Rightarrow> nat" where
  "as_secs d = d div 1000000000"

text \<open>\<open>delay.as_secs().min(i64::MAX as u64) as i64\<close>.\<close>

definition delay_seconds :: "duration \<Rightarrow> int" where
  "delay_seconds d = int (min (as_secs d) (2 ^ 63 - 1))"

lemma delay_seconds_small: "n < 2 ^ 63 \<Longrightarrow> delay_seconds (from_secs n) = int n"
  by (simp add: delay_seconds_def as_secs_def from_secs_def)

section \<open>The in-memory channel\<close>

datatype queue_reserve_error = QueueFull | QueueClosed

text \<open>\<open>try_reserve_slot\<close>; a permit is used or dropped before the next call of the channel.\<close>

definition try_reserve_slot :: "(world, queue_reserve_error, unit) prog" where
  "try_reserve_slot w =
     (if queue_closed w then (Err QueueClosed, w)
      else if queue_capacity w \<le> length (queue w) then (Err QueueFull, w)
      else (Ok (), w))"

definition permit_send :: "queued_task \<Rightarrow> (world, 'e, unit) prog" where
  "permit_send t = modify (\<lambda>w. w\<lparr>queue := queue w @ [t]\<rparr>)"

definition in_memory :: "task_command \<Rightarrow> queued_task" where
  "in_memory c = \<lparr>outbox_id = None, command = c\<rparr>"

definition from_outbox :: "nat \<Rightarrow> task_command \<Rightarrow> queued_task" where
  "from_outbox i c = \<lparr>outbox_id = Some i, command = c\<rparr>"

fun queue_error_to_anyhow :: "queue_reserve_error \<Rightarrow> anyhow" where
  "queue_error_to_anyhow QueueFull = Anyhow ''task command queue is full''"
| "queue_error_to_anyhow QueueClosed = Anyhow ''task command queue is closed''"

definition queue_in_memory :: "task_command \<Rightarrow> (world, anyhow, unit) prog" where
  "queue_in_memory c =
     and_then (map_err queue_error_to_anyhow try_reserve_slot) (\<lambda>_. permit_send (in_memory c))"

section \<open>Statements on the outbox table\<close>

definition insert_outbox :: "task_command \<Rightarrow> nat stmt" where
  "insert_outbox c now d =
     Inr (next_outbox_id d,
          d\<lparr>outbox := outbox d @ [\<lparr>o_id = next_outbox_id d, o_type = command_type c,
                o_payload = command_to_json c, o_status = Pending, o_attempts = 0,
                o_next_retry = now, o_error = None, o_updated = now\<rparr>],
            next_outbox_id := Suc (next_outbox_id d)\<rparr>)"

text \<open>\<open>UPDATE task_outbox SET .. WHERE ..\<close> with its affected-row count.\<close>

definition update_outbox :: "(int \<Rightarrow> outbox_row \<Rightarrow> bool) \<Rightarrow> (int \<Rightarrow> outbox_row \<Rightarrow> outbox_row) \<Rightarrow> nat stmt" where
  "update_outbox p f now d =
     Inr (count_where (p now) (outbox d), d\<lparr>outbox := update_where (p now) (f now) (outbox d)\<rparr>)"

text \<open>Rows that may be claimed, in the order of \<open>ORDER BY id ASC\<close>.\<close>

definition due_rows :: "int \<Rightarrow> database \<Rightarrow> outbox_row list" where
  "due_rows now d = sort_key o_id (filter (\<lambda>r. o_status r = Pending \<and> o_next_retry r \<le> now) (outbox d))"

text \<open>
  The claiming statement of \<open>pump_outbox_once\<close>: at most \<open>batch\<close> due rows become
  \<open>Running\<close>; their ids and payloads are returned. (SQL leaves the order of the returned rows
  open; the model returns them by id.)
\<close>

definition claim_batch :: "nat \<Rightarrow> (nat \<times> json) list stmt" where
  "claim_batch batch now d =
     (let picked = take batch (due_rows now d);
          ids = o_id ` set picked
      in Inr (map (\<lambda>r. (o_id r, o_payload r)) picked,
              d\<lparr>outbox := update_where (\<lambda>r. o_id r \<in> ids \<and> o_status r = Pending)
                            (\<lambda>r. r\<lparr>o_status := Running, o_updated := now\<rparr>) (outbox d)\<rparr>))"

section \<open>The dispatcher\<close>

definition requeue_retryable_outbox :: "nat \<Rightarrow> string \<Rightarrow> duration \<Rightarrow> (world, anyhow, unit) prog" where
  "requeue_retryable_outbox i msg delay =
     and_then (sql (update_outbox (\<lambda>_ r. o_id r = i)
                 (\<lambda>now r. r\<lparr>o_status := Pending, o_attempts := o_attempts r + 1,
                            o_next_retry := now + seconds (delay_seconds delay),
                            o_error := Some msg, o_updated := now\<rparr>)))
       (\<lambda>_. return ())"

definition mark_outbox_dead :: "nat \<Rightarrow> string \<Rightarrow> (world, anyhow, unit) prog" where
  "mark_outbox_dead i msg =
     and_then (sql (update_outbox (\<lambda>_ r. o_id r = i)
                 (\<lambda>now r. r\<lparr>o_status := Dead, o_attempts := o_attempts r + 1,
                            o_error := Some msg, o_updated := now\<rparr>)))
       (\<lambda>_. return ())"

definition delete_outbox_row :: "nat \<Rightarrow> (world, anyhow, unit) prog" where
  "delete_outbox_row i =
     sql (\<lambda>now d. Inr ((), d\<lparr>outbox := delete_where (\<lambda>r. o_id r = i) (outbox d)\<rparr>))"

text \<open>
  \<open>try_enqueue_outbox_task\<close>: with a free slot the row is claimed by a conditional update,
  and the task is sent only if this call claimed it. Without a slot only the counter moves
  and the row stays in the outbox.
\<close>

definition mark_running :: "nat \<Rightarrow> (world, anyhow, nat) prog" where
  "mark_running i =
     sql (update_outbox (\<lambda>_ r. o_id r = i \<and> o_status r = Pending)
            (\<lambda>now r. r\<lparr>o_status := Running, o_updated := now\<rparr>))"

definition try_enqueue_outbox_task :: "nat \<Rightarrow> task_command \<Rightarrow> (world, 'e, unit) prog" where
  "try_enqueue_outbox_task i c =
     attempt try_reserve_slot (\<lambda>slot. case slot of
         Inr _ \<Rightarrow> attempt (mark_running i) (\<lambda>res. case res of
             Inr n \<Rightarrow> if n = 1 then permit_send (from_outbox i c) else return ()
           | Inl _ \<Rightarrow> return ())
       | Inl QueueFull \<Rightarrow> modify (\<lambda>w. w\<lparr>dropped_full := dropped_full w + 1\<rparr>)
       | Inl QueueClosed \<Rightarrow> modify (\<lambda>w. w\<lparr>dropped_closed := dropped_closed w + 1\<rparr>))"

definition submit :: "task_command \<Rightarrow> (world, anyhow, unit) prog" where
  "submit c = and_then (sql (insert_outbox c)) (\<lambda>i. try_enqueue_outbox_task i c)"

definition requeue_outbox_rows :: "nat list \<Rightarrow> duration \<Rightarrow> (world, anyhow, unit) prog" where
  "requeue_outbox_rows ids delay =
     (if ids = [] then return ()
      else and_then (sql (update_outbox (\<lambda>_ r. o_id r \<in> set ids)
                 (\<lambda>now r. r\<lparr>o_status := Pending, o_next_retry := now + seconds (delay_seconds delay),
                            o_updated := now\<rparr>)))
             (\<lambda>_. return ()))"

text \<open>
  The loop over the claimed rows: an undecodable row is marked dead, a decodable one is sent
  while there are slots; the first missing slot ends the loop, and this row and all the rest
  are returned for requeueing.
\<close>

fun pump_rows :: "(nat \<times> json) list \<Rightarrow> nat \<Rightarrow> (world, anyhow, nat \<times> nat list) prog" where
  "pump_rows [] n = return (n, [])"
| "pump_rows ((i, payload) # rest) n =
     (case command_from_json payload of
        None \<Rightarrow> and_then (mark_outbox_dead i ''invalid outbox payload'') (\<lambda>_. pump_rows rest n)
      | Some c \<Rightarrow>
          attempt try_reserve_slot (\<lambda>slot. case slot of
              Inr _ \<Rightarrow> and_then (permit_send (from_outbox i c)) (\<lambda>_. pump_rows rest (Suc n))
            | Inl _ \<Rightarrow> return (n, i # map fst rest)))"

definition pump_outbox_once :: "nat \<Rightarrow> (world, anyhow, nat) prog" where
  "pump_outbox_once batch =
     (if batch = 0 then return 0
      else and_then (sql (claim_batch batch)) (\<lambda>rows.
        if rows = [] then return 0
        else and_then (pump_rows rows 0) (\<lambda>(enqueued, remaining).
          and_then (if remaining \<noteq> [] then requeue_outbox_rows remaining (from_secs 1) else return ())
            (\<lambda>_. return enqueued))))"

definition reclaim_note :: string where
  "reclaim_note = ''reclaimed stale running task during recovery''"

definition reclaim_stale_running_outbox :: "duration \<Rightarrow> (world, anyhow, nat) prog" where
  "reclaim_stale_running_outbox timeout =
     (if timeout = 0 then return 0
      else sql (update_outbox
             (\<lambda>now r. o_status r = Running \<and> o_updated r < now - seconds (delay_seconds timeout))
             (\<lambda>now r. r\<lparr>o_status := Pending, o_next_retry := now,
                o_error := Some (case o_error r of
                    None \<Rightarrow> reclaim_note
                  | Some e \<Rightarrow> if e = [] then reclaim_note else e @ [nl] @ reclaim_note),
                o_updated := now\<rparr>)))"

record recovery_result =
  reclaimed_running :: nat
  recovered_pending :: nat

fun recover_rows :: "outbox_row list \<Rightarrow> (world, anyhow, unit) prog" where
  "recover_rows [] = return ()"
| "recover_rows (r # rest) =
     (case command_from_json (o_payload r) of
        None \<Rightarrow> throw (Anyhow ''invalid outbox payload'')
      | Some c \<Rightarrow> and_then (try_enqueue_outbox_task (o_id r) c) (\<lambda>_. recover_rows rest))"

definition recover_outbox_tasks :: "duration \<Rightarrow> (world, anyhow, recovery_result) prog" where
  "recover_outbox_tasks timeout =
     and_then (reclaim_stale_running_outbox timeout) (\<lambda>n.
     and_then (select due_rows) (\<lambda>rows.
     and_then (recover_rows rows) (\<lambda>_.
     return \<lparr>reclaimed_running = n, recovered_pending = length rows\<rparr>)))"

text \<open>\<open>periodic/outbox_pull.rs\<close>.\<close>

definition pull_outbox_tasks :: "nat \<Rightarrow> duration \<Rightarrow> (world, anyhow, unit) prog" where
  "pull_outbox_tasks batch timeout =
     and_then (reclaim_stale_running_outbox timeout) (\<lambda>_.
     and_then (pump_outbox_once batch) (\<lambda>_. return ()))"

end
