(* ===== verification/Storage.thy ===== *)
theory Storage
  imports World
begin

text \<open>
  \<open>utils/s3_storage.rs\<close> and \<open>domain/file_metadata.rs\<close>: the requests to the bucket, the
  chunked batch deletion with its report, the object keys, and the metadata of an upload.
  The bucket is a list of objects with one entry per key.
\<close>

section \<open>Object keys\<close>

definition build_upload_session_key :: "externs \<Rightarrow> uuid \<Rightarrow> string" where
  "build_upload_session_key X s = ''archive:upload_session:'' @ x_uuid_str X s"

definition build_temp_object_key :: "externs \<Rightarrow> uuid \<Rightarrow> uuid \<Rightarrow> string" where
  "build_temp_object_key X s f = ''temp/'' @ x_uuid_str X s @ ''/'' @ x_uuid_str X f"

definition build_archive_dest_key :: "externs \<Rightarrow> uuid \<Rightarrow> uuid \<Rightarrow> string" where
  "build_archive_dest_key X r f = ''archive/'' @ x_uuid_str X r @ ''/'' @ x_uuid_str X f"

definition build_avatar_dest_key :: "externs \<Rightarrow> uuid \<Rightarrow> string" where
  "build_avatar_dest_key X u = ''avatar/'' @ x_uuid_str X u"

definition build_temp_avatar_key :: "externs \<Rightarrow> uuid \<Rightarrow> string" where
  "build_temp_avatar_key X f = ''temp/avatar/'' @ x_uuid_str X f"

section \<open>Requests\<close>

text \<open>A request that succeeds applies \<open>f\<close>; a failing one carries the context message.\<close>

definition s3_call :: "string \<Rightarrow> (world \<Rightarrow> 'a \<times> world) \<Rightarrow> (world, anyhow, 'a) prog" where
  "s3_call ctx f w =
     (case next_fault w of
        (Down e, w') \<Rightarrow> (Err (S3Err e ctx), w')
      | (_, w') \<Rightarrow> (case f w' of (x, w'') \<Rightarrow> (Ok x, w'')))"

definition objects_delete :: "string set \<Rightarrow> (string \<times> s3_object) list \<Rightarrow> (string \<times> s3_object) list" where
  "objects_delete ks b = filter (\<lambda>(k, _). k \<notin> ks) b"

definition stored_keys :: "world \<Rightarrow> string set" where
  "stored_keys w = fst ` set (bucket w)"

definition generate_presigned_url ::
  "externs \<Rightarrow> string \<Rightarrow> string \<Rightarrow> i64 \<Rightarrow> string \<Rightarrow> (world, anyhow, string) prog" where
  "generate_presigned_url X key ctype len fname =
     s3_call ''presign'' (\<lambda>w. (x_presign_put X key ctype len (x_url_encode X fname), w))"

definition generate_view_url :: "externs \<Rightarrow> string \<Rightarrow> string \<Rightarrow> (world, anyhow, string) prog" where
  "generate_view_url X fname key =
     s3_call ''presign''
       (\<lambda>w. (x_presign_get X key (''attachment; filename='' @ [CHR 0x22] @ x_url_encode X fname @ [CHR 0x22]), w))"

text \<open>
  \<open>copy_source_to_dest\<close>: the metadata is copied, the copy is a new object; a missing source is
  a service error.
\<close>

definition copy_source_to_dest :: "string \<Rightarrow> string \<Rightarrow> (world, anyhow, unit) prog" where
  "copy_source_to_dest source dest w =
     (case next_fault w of
        (Down e, w') \<Rightarrow> (Err (S3Err e ''copy of remote file failed''), w')
      | (_, w') \<Rightarrow>
          (case map_of (bucket w') source of
             None \<Rightarrow> (Err (S3Err (ServiceError (Some ''NoSuchKey'')) ''copy of remote file failed''), w')
           | Some ob \<Rightarrow>
               (Ok (), w'\<lparr>bucket := AList.update dest
                   (ob\<lparr>last_modified := Some (clock w' div 1000000)\<rparr>) (bucket w')\<rparr>)))"

definition delete_object :: "string \<Rightarrow> (world, anyhow, unit) prog" where
  "delete_object key =
     s3_call ''deletion of remote file failed'' (\<lambda>w. ((), w\<lparr>bucket := objects_delete {key} (bucket w)\<rparr>))"

datatype head_error = HeadNotFound | HeadOther sdk_error

definition get_head_object_output :: "string \<Rightarrow> (world, head_error, s3_object) prog" where
  "get_head_object_output key w =
     (case next_fault w of
        (Down e, w') \<Rightarrow> (Err (HeadOther e), w')
      | (_, w') \<Rightarrow> (case map_of (bucket w') key of None \<Rightarrow> (Err HeadNotFound, w') | Some ob \<Rightarrow> (Ok ob, w')))"

definition object_exists :: "string \<Rightarrow> (world, anyhow, bool) prog" where
  "object_exists key =
     attempt (get_head_object_output key) (\<lambda>r. case r of
         Inr _ \<Rightarrow> return True
       | Inl HeadNotFound \<Rightarrow> return False
       | Inl (HeadOther _) \<Rightarrow> throw (Anyhow ''error while checking whether the object exists''))"

section \<open>Batch deletion\<close>

record delete_failure =
  df_key :: string
  df_code :: "string option"
  df_message :: "string option"

record delete_report =
  deleted_keys :: "string list"
  failed :: "delete_failure list"

definition empty_report :: delete_report where
  "empty_report = \<lparr>deleted_keys = [], failed = []\<rparr>"

text \<open>
  The reply of the service to one \<open>DeleteObjects\<close> request: the keys it deleted and the
  errors, each about a key of the request or about no key at all.
\<close>

definition delete_request :: "string list \<Rightarrow>
    (world, anyhow, string list \<times> (string option \<times> string option \<times> string option) list) prog" where
  "delete_request chunk w =
     (case next_fault w of
        (Down e, w') \<Rightarrow> (Err (S3Err e ''batch deletion of remote files failed''), w')
      | (NoFault, w') \<Rightarrow>
          (Ok (chunk, []), w'\<lparr>bucket := objects_delete (set chunk) (bucket w')\<rparr>)
      | (KeyErrors es, w') \<Rightarrow>
          (let es' = filter (\<lambda>(k, _). case k of None \<Rightarrow> True | Some k' \<Rightarrow> k' \<in> set chunk) es;
               done = filter (\<lambda>k. Some k \<notin> fst ` set es') chunk
           in (Ok (done, es'), w'\<lparr>bucket := objects_delete (set done) (bucket w')\<rparr>)))"

definition max_delete_per_request :: nat where
  "max_delete_per_request = 1000"

text \<open>The loop over the chunks; the report grows, an error drops it.\<close>

fun delete_chunks :: "string list list \<Rightarrow> delete_report \<Rightarrow> (world, anyhow, delete_report) prog" where
  "delete_chunks [] rep = return rep"
| "delete_chunks (chunk # rest) rep =
     and_then (delete_request chunk) (\<lambda>(deleted, errors).
       delete_chunks rest
         (rep\<lparr>deleted_keys := deleted_keys rep @ deleted,
              failed := failed rep @ map (\<lambda>(k, c, m).
                \<lparr>df_key = (case k of None \<Rightarrow> ''<unknown>'' | Some k' \<Rightarrow> k'), df_code = c, df_message = m\<rparr>) errors\<rparr>))"

definition delete_objects_with_report :: "string list \<Rightarrow> (world, anyhow, delete_report) prog" where
  "delete_objects_with_report keys =
     (if keys = [] then return empty_report
      else delete_chunks (chunks max_delete_per_request keys) empty_report)"

definition or_none :: "string option \<Rightarrow> string" where
  "or_none c = (case c of None \<Rightarrow> ''<none>'' | Some s \<Rightarrow> s)"

definition failure_text :: "delete_failure \<Rightarrow> string" where
  "failure_text f = ''key='' @ df_key f @ '', code='' @ or_none (df_code f) @ '', message='' @ or_none (df_message f)"

definition delete_objects :: "string list \<Rightarrow> (world, anyhow, unit) prog" where
  "delete_objects keys =
     and_then (delete_objects_with_report keys) (\<lambda>rep.
       if failed rep = [] then return ()
       else throw (Anyhow (''batch deletion partly failed: '' @ join_semicolon (map failure_text (failed rep)))))"

section \<open>Metadata of an upload\<close>

record file_metadata =
  md_filename :: string
  md_size :: i64
  md_mime :: string

definition try_from_head :: "externs \<Rightarrow> s3_object \<Rightarrow> (anyhow, file_metadata) result" where
  "try_from_head X ob =
     (case original_filename ob of
        None \<Rightarrow> Err (Anyhow ''file name metadata missing'')
      | Some raw \<Rightarrow> (case x_url_decode X raw of
          None \<Rightarrow> Err (Anyhow ''file name cannot be decoded'')
        | Some fname \<Rightarrow> (case content_type ob of
            None \<Rightarrow> Err (Anyhow ''MIME type missing'')
          | Some mime \<Rightarrow> (case content_length ob of
              None \<Rightarrow> Err (Anyhow ''file size missing'')
            | Some len \<Rightarrow> Ok \<lparr>md_filename = fname, md_size = len, md_mime = mime\<rparr>))))"

definition lift_result :: "('e \<Rightarrow> 'f) \<Rightarrow> ('e, 'a) result \<Rightarrow> ('s, 'f, 'a) prog" where
  "lift_result g r s = (case r of Ok x \<Rightarrow> (Ok x, s) | Err e \<Rightarrow> (Err (g e), s) | Panic \<Rightarrow> (Panic, s))"

section \<open>Facts about keys\<close>

lemma archive_key_inj:
  assumes "uuid_codec X" and "build_archive_dest_key X r f = build_archive_dest_key X r' f'"
  shows "r = r' \<and> f = f'"
proof -
  let ?u = "x_uuid_str X"
  have no: "CHR ''/'' \<notin> set (?u v)" for v using assms(1) by (simp add: uuid_codec_def)
  have eq: "?u r @ CHR ''/'' # ?u f = ?u r' @ CHR ''/'' # ?u f'"
    using assms(2) by (simp add: build_archive_dest_key_def)
  have "split_first (CHR ''/'') (?u r @ CHR ''/'' # ?u f) = split_first (CHR ''/'') (?u r' @ CHR ''/'' # ?u f')"
    using eq by simp
  then have "?u r = ?u r'" using no by (simp add: split_first_append)
  moreover from this eq have "?u f = ?u f'" by simp
  moreover have "inj ?u" using assms(1) unfolding uuid_codec_def by (metis injI option.inject)
  ultimately show ?thesis by (simp add: inj_eq)
qed

section \<open>Facts about deletion\<close>

lemma keys_objects_delete: "fst ` set (objects_delete ks b) = fst ` set b - ks"
  by (force simp: objects_delete_def)

text \<open>What one request leaves: a key of the chunk is gone unless its own error is reported.\<close>

lemma delete_request_Ok:
  assumes "delete_request chunk w = (Ok (del, errs), w')"
  shows "stored_keys w' = stored_keys w - set del"
    and "set chunk = set del \<union> {k. Some k \<in> fst ` set errs}"
    and "db w' = db w" and "queue w' = queue w"
proof -
  obtain f w1 where nf: "next_fault w = (f, w1)" by (cases "next_fault w")
  have same: "bucket w1 = bucket w" "db w1 = db w" "queue w1 = queue w"
    using next_fault_fields [of w] nf by simp_all
  let ?es = "\<lambda>es. filter (\<lambda>(k, _). case k of None \<Rightarrow> True | Some k' \<Rightarrow> k' \<in> set chunk) es"
  let ?done = "\<lambda>es. filter (\<lambda>k. Some k \<notin> fst ` set (?es es)) chunk"
  have split_chunk: "set chunk = set (?done es) \<union> {k. Some k \<in> fst ` set (?es es)}" for es
    by auto
  have cases: "(f = NoFault \<and> del = chunk \<and> errs = [] \<and> w' = w1\<lparr>bucket := objects_delete (set chunk) (bucket w1)\<rparr>)
      \<or> (\<exists>es. f = KeyErrors es \<and> del = ?done es \<and> errs = ?es es
            \<and> w' = w1\<lparr>bucket := objects_delete (set (?done es)) (bucket w1)\<rparr>)"
    using assms nf by (auto simp: delete_request_def Let_def split: fault.splits)
  then show "stored_keys w' = stored_keys w - set del" and "db w' = db w" and "queue w' = queue w"
    using same by (elim disjE exE conjE; simp add: stored_keys_def keys_objects_delete)+
  from cases show "set chunk = set del \<union> {k. Some k \<in> fst ` set errs}"
  proof
    assume "f = NoFault \<and> del = chunk \<and> errs = [] \<and> w' = w1\<lparr>bucket := objects_delete (set chunk) (bucket w1)\<rparr>"
    then show ?thesis by simp
  next
    assume "\<exists>es. f = KeyErrors es \<and> del = ?done es \<and> errs = ?es es
            \<and> w' = w1\<lparr>bucket := objects_delete (set (?done es)) (bucket w1)\<rparr>"
    then obtain es where "del = ?done es" "errs = ?es es" by blast
    then show ?thesis using split_chunk [of es] by (simp only:)
  qed
qed

lemma delete_request_Err:
  assumes "delete_request chunk w = (Err e, w')"
  shows "stored_keys w' = stored_keys w" and "db w' = db w" and "queue w' = queue w"
  using assms
  by (auto simp: delete_request_def next_fault_def stored_keys_def Let_def
      split: list.splits fault.splits prod.splits)

lemma delete_request_no_panic: "delete_request chunk w \<noteq> (Panic, w')"
  by (auto simp: delete_request_def next_fault_def Let_def split: list.splits fault.splits prod.splits)

lemma delete_chunks_Ok:
  assumes "delete_chunks cs rep w = (Ok rep', w')"
  shows "stored_keys w' \<subseteq> stored_keys w
     \<and> (\<exists>more. failed rep' = failed rep @ more \<and> df_key ` set more \<subseteq> insert ''<unknown>'' (set (concat cs))
           \<and> set (concat cs) \<inter> stored_keys w' \<subseteq> df_key ` set more)
     \<and> stored_keys w - set (concat cs) \<subseteq> stored_keys w'
     \<and> db w' = db w \<and> queue w' = queue w"
  using assms
proof (induction cs arbitrary: rep w)
  case Nil
  then show ?case by (simp add: return_def)
next
  case (Cons c cs)
  let ?fs = "\<lambda>errs. map (\<lambda>(k, c, m). \<lparr>df_key = (case k of None \<Rightarrow> ''<unknown>'' | Some k' \<Rightarrow> k'), df_code = c, df_message = m\<rparr>) errs"
  from Cons.prems obtain del errs w1 where
    req: "delete_request c w = (Ok (del, errs), w1)"
    and rest: "delete_chunks cs (rep\<lparr>deleted_keys := deleted_keys rep @ del, failed := failed rep @ ?fs errs\<rparr>) w1 = (Ok rep', w')"
    by (auto elim!: and_then_OkE)
  note R = delete_request_Ok [OF req]
  from Cons.IH [OF rest] obtain more where
    sub: "stored_keys w' \<subseteq> stored_keys w1" "stored_keys w1 - set (concat cs) \<subseteq> stored_keys w'"
      "db w' = db w1" "queue w' = queue w1"
    and more: "failed rep' = (failed rep @ ?fs errs) @ more"
      "df_key ` set more \<subseteq> insert ''<unknown>'' (set (concat cs))"
      "set (concat cs) \<inter> stored_keys w' \<subseteq> df_key ` set more"
    by auto
  have errs_keys: "df_key ` set (?fs errs) \<subseteq> insert ''<unknown>'' (set c)"
    using R(2) by (force split: option.splits)
  have errs_cover: "{k. Some k \<in> fst ` set errs} \<subseteq> df_key ` set (?fs errs)"
    by (force simp: image_iff)
  have "set c \<inter> stored_keys w' \<subseteq> df_key ` set (?fs errs)"
    using R(1,2) sub(1) errs_cover by blast
  then have cover: "set (concat (c # cs)) \<inter> stored_keys w' \<subseteq> df_key ` set (?fs errs @ more)"
    using more(3) unfolding concat.simps set_append image_Un by blast
  have "df_key ` set (?fs errs @ more) \<subseteq> insert ''<unknown>'' (set (concat (c # cs)))"
    using errs_keys more(2) unfolding concat.simps set_append image_Un by blast
  moreover have "failed rep' = failed rep @ (?fs errs @ more)" using more(1) by simp
  moreover have "stored_keys w' \<subseteq> stored_keys w" using sub(1) R(1) by blast
  moreover have "stored_keys w - set (concat (c # cs)) \<subseteq> stored_keys w'"
    using sub(2) R(1,2) by auto
  moreover have "db w' = db w \<and> queue w' = queue w" using sub(3,4) R(3,4) by simp
  ultimately show ?case using cover by (intro conjI exI [of _ "?fs errs @ more"]) simp_all
qed

lemma delete_chunks_sub:
  "delete_chunks cs rep w = (r, w') \<Longrightarrow>
     stored_keys w' \<subseteq> stored_keys w \<and> stored_keys w - set (concat cs) \<subseteq> stored_keys w'
     \<and> db w' = db w \<and> queue w' = queue w"
proof (induction cs arbitrary: rep w)
  case Nil
  then show ?case by (auto simp: return_def)
next
  case (Cons c cs)
  show ?case
  proof (cases "delete_request c w")
    case (Pair r1 w1)
    show ?thesis
    proof (cases r1)
      case (Ok p)
      obtain del errs where p: "p = (del, errs)" by (cases p)
      note R = delete_request_Ok [of c w del errs w1]
      have "stored_keys w1 = stored_keys w - set del" "set del \<subseteq> set c" "db w1 = db w" "queue w1 = queue w"
        using R Pair Ok p by auto
      with Cons Pair Ok p show ?thesis by (fastforce simp: and_then_Ok)
    next
      case (Err e)
      with Cons.prems Pair delete_request_Err [of c w e w1] show ?thesis
        by (auto simp: and_then_Err)
    next
      case Panic
      with Pair delete_request_no_panic [of c w w1] show ?thesis by simp
    qed
  qed
qed

text \<open>The report of a deletion that went through accounts for every key.\<close>

lemma delete_report_Ok:
  assumes "delete_objects_with_report keys w = (Ok rep, w')"
  shows "set keys \<inter> stored_keys w' \<subseteq> df_key ` set (failed rep)"
    and "df_key ` set (failed rep) \<subseteq> insert ''<unknown>'' (set keys)"
    and "stored_keys w' \<subseteq> stored_keys w" and "stored_keys w - set keys \<subseteq> stored_keys w'"
    and "db w' = db w" and "queue w' = queue w"
proof -
  have "concat (chunks max_delete_per_request keys) = keys"
    by (simp add: max_delete_per_request_def concat_chunks)
  then show "set keys \<inter> stored_keys w' \<subseteq> df_key ` set (failed rep)"
    and "df_key ` set (failed rep) \<subseteq> insert ''<unknown>'' (set keys)"
    and "stored_keys w' \<subseteq> stored_keys w" and "stored_keys w - set keys \<subseteq> stored_keys w'"
    and "db w' = db w" and "queue w' = queue w"
    using assms delete_chunks_Ok [of "chunks max_delete_per_request keys" empty_report w rep w']
    by (auto simp: delete_objects_with_report_def return_def empty_report_def split: if_splits)
qed

lemma delete_report_sub:
  assumes "delete_objects_with_report keys w = (r, w')"
  shows "stored_keys w' \<subseteq> stored_keys w \<and> stored_keys w - set keys \<subseteq> stored_keys w'
     \<and> db w' = db w \<and> queue w' = queue w"
proof -
  have "concat (chunks max_delete_per_request keys) = keys"
    by (simp add: max_delete_per_request_def concat_chunks)
  then show ?thesis
    using assms delete_chunks_sub [of "chunks max_delete_per_request keys" empty_report w r w']
    by (auto simp: delete_objects_with_report_def return_def split: if_splits)
qed

end
