(* ===== verification/Demo.thy ===== *)
theory Demo
  imports World
begin

text \<open>Small concrete worlds and third-party functions, for the examples of the development.\<close>

text \<open>A small world for concrete runs.\<close>

definition empty_db :: database where
  "empty_db = \<lparr>users = [], rules = [], templates = [], records = [], files = [], outbox = [], next_outbox_id = 0,
     ties = (\<lambda>_ _ _ i. i)\<rparr>"

definition blank_object :: s3_object where
  "blank_object = \<lparr>original_filename = None, content_type = None, content_length = None, last_modified = None\<rparr>"

definition demo_world :: "string list \<Rightarrow> fault list \<Rightarrow> world" where
  "demo_world ks fs =
     \<lparr>db = empty_db, redis = (\<lambda>_. None), bucket = map (\<lambda>k. (k, blank_object)) ks,
      schema_cache = (\<lambda>_. None), queue = [], queue_capacity = 2, queue_closed = False,
      dropped_full = 0, dropped_closed = 0, clock = 0, fresh_uuids = of_nat, drawn = 0, faults = fs\<rparr>"

text \<open>
  Third-party functions that meet their documented behaviour: ids print as runs of one letter,
  texts encode as themselves, the token of a user is the printed id after the letter of the role.
\<close>

definition demo_uuid_str :: "uuid \<Rightarrow> string" where
  "demo_uuid_str u = replicate (unat u) (CHR ''a'')"

definition demo_uuid_parse :: "string \<Rightarrow> uuid option" where
  "demo_uuid_parse s =
     (if set s \<subseteq> {CHR ''a''} \<and> length s < 2 ^ 128 then Some (of_nat (length s)) else None)"

definition demo_claims :: "user_role \<Rightarrow> uuid \<Rightarrow> claims" where
  "demo_claims ro u = \<lparr>sub = u, exp = 0, iat = 0, username = ''demo'', role = ro\<rparr>"

definition demo_externs :: externs where
  "demo_externs =
     \<lparr>x_uuid_str = demo_uuid_str, x_uuid_parse = demo_uuid_parse,
      x_schema_error = (\<lambda>_. None), x_schema_errors = (\<lambda>_ _. []),
      x_url_encode = (\<lambda>s. s), x_url_decode = Some,
      x_presign_put = (\<lambda>k _ _ _. ''put:'' @ k), x_presign_get = (\<lambda>k _. ''get:'' @ k),
      x_hash = (\<lambda>_ p. Some p), x_verify = (\<lambda>h p. h = p),
      x_jwt_encode = (\<lambda>c. Some (demo_uuid_str (sub c))),
      x_jwt_decode = (\<lambda>_ t. case t of
          [] \<Rightarrow> Inl OtherJwtError
        | c # s \<Rightarrow> (case demo_uuid_parse s of
              None \<Rightarrow> Inl OtherJwtError
            | Some u \<Rightarrow> Inr (demo_claims (if c = CHR ''A'' then ADMIN else USER) u))),
      x_mime_guess = (\<lambda>_. ''application/octet-stream''), x_email_ok = (\<lambda>_. True),
      x_where = (\<lambda>_ _ _. Inr True), x_float_text = (\<lambda>_. ''1e+14''), x_float_value = (\<lambda>_. 100000000000000)\<rparr>"

lemma demo_uuid_codec [simp]: "uuid_codec demo_externs"
proof -
  have "unat u < 2 ^ 128" for u :: uuid using unsigned_less [of u] by simp
  then show ?thesis
    by (auto simp: uuid_codec_def demo_externs_def demo_uuid_str_def demo_uuid_parse_def)
qed

definition demo_user :: "uuid \<Rightarrow> user_row" where
  "demo_user u = \<lparr>u_id = u, u_name = ''user'' @ demo_uuid_str u, u_nickname = ''demo'', u_hash = ''secret'',
     u_role = ''USER'', u_email = None, u_phone = None, u_avatar = None, u_major = None, u_college = None,
     u_active = True, u_created = 0\<rparr>"

definition demo_rule :: "uuid \<Rightarrow> uuid \<Rightarrow> string \<Rightarrow> string \<Rightarrow> rule_row" where
  "demo_rule i u pat m = \<lparr>r_id = i, r_user = u, r_pattern = pat, r_method = m, r_desc = None,
     r_expires = None, r_granted = None, r_created = 0\<rparr>"

end
