(* ===== verification/Commands.thy ===== *)
theory Commands
  imports Outbox Storage Demo
begin

text \<open>
  \<open>tasks/handler/\<close>: the error classification of commands, the retry loop
  (\<open>command_runner.rs\<close>), the command that deletes archive objects
  (\<open>delete_archive_objects_command.rs\<close>) and the handler that settles the outbox row
  afterwards (\<open>default_handler.rs\<close>).
\<close>

section \<open>Errors of commands\<close>

datatype error_kind = Retryable | NonRetryable

datatype error_category =
    Timeout | Throttled | Network | ServiceUnavailable | AccessDenied
  | InvalidArgument | ResourceNotFound | Internal | Unknown

lemma not_retryable: "k \<noteq> Retryable \<longleftrightarrow> k = NonRetryable"
  by (cases k) simp_all

record command_error =
  kind :: error_kind
  ce_category :: error_category
  ce_message :: string
  failed_keys :: "string list"

definition retryable :: "error_category \<Rightarrow> string \<Rightarrow> string list \<Rightarrow> command_error" where
  "retryable c m ks = \<lparr>kind = Retryable, ce_category = c, ce_message = m, failed_keys = ks\<rparr>"

definition non_retryable :: "error_category \<Rightarrow> string \<Rightarrow> string list \<Rightarrow> command_error" where
  "non_retryable c m ks = \<lparr>kind = NonRetryable, ce_category = c, ce_message = m, failed_keys = ks\<rparr>"

section \<open>The retry loop\<close>

record retry_config =
  max_retries :: nat
  backoff :: duration
  backoff_multiplier :: nat
  max_wait_duration :: duration

definition default_retry_config :: retry_config where
  "default_retry_config =
     \<lparr>max_retries = 10, backoff = from_secs 1, backoff_multiplier = 2, max_wait_duration = from_secs 30\<rparr>"

text \<open>The largest \<open>Duration\<close>; multiplying beyond it panics.\<close>

definition max_duration :: duration where
  "max_duration = from_secs (2 ^ 64) - 1"

text \<open>
  \<open>run_executable_with_retry\<close> over the state of the command (\<open>'c\<close>) and of its context
  (\<open>'w\<close>). \<open>ex\<close> is the \<open>execute\<close> of the command, \<open>sleep\<close> what waiting does to the context.
\<close>

function run_with_retry :: "('c \<times> 'w, command_error, unit) prog \<Rightarrow> (duration \<Rightarrow> 'w \<Rightarrow> 'w) \<Rightarrow>
    retry_config \<Rightarrow> nat \<Rightarrow> duration \<Rightarrow> ('c \<times> 'w, command_error, unit) prog" where
  "run_with_retry ex sleep cfg retries wait s =
     (case ex s of
        (Ok u, s') \<Rightarrow> (Ok u, s')
      | (Panic, s') \<Rightarrow> (Panic, s')
      | (Err e, s') \<Rightarrow>
          if kind e = NonRetryable then (Err e, s')
          else if max_retries cfg \<le> retries then (Err e, s')
          else if max_duration < wait * backoff_multiplier cfg
          then (Panic, (fst s', sleep wait (snd s')))
          else run_with_retry ex sleep cfg (Suc retries)
                 (min (wait * backoff_multiplier cfg) (max_wait_duration cfg))
                 (fst s', sleep wait (snd s')))"
  by pat_completeness auto
termination
  by (relation "measure (\<lambda>(ex, sleep, cfg, retries, wait, s). max_retries cfg - retries)") auto

declare run_with_retry.simps [simp del]

definition run_executable_with_retry :: "('c \<times> 'w, command_error, unit) prog \<Rightarrow> (duration \<Rightarrow> 'w \<Rightarrow> 'w) \<Rightarrow>
    retry_config \<Rightarrow> ('c \<times> 'w, command_error, unit) prog" where
  "run_executable_with_retry ex sleep cfg = run_with_retry ex sleep cfg 0 (backoff cfg)"

text \<open>What every attempt and every wait keeps, the loop keeps.\<close>

lemma run_with_retry_keeps:
  assumes "keeps I ex" and "\<And>d c w. I (c, w) \<Longrightarrow> I (c, sleep d w)"
  shows "keeps I (run_with_retry ex sleep cfg n b)"
proof (rule keepsI)
  fix s assume "I s"
  then show "I (snd (run_with_retry ex sleep cfg n b s))"
  proof (induction "max_retries cfg - n" arbitrary: n b s)
    case 0
    have I1: "I (snd (ex s))" using keepsD [OF assms(1) 0(2)] .
    with assms(2) [of "fst (snd (ex s))" "snd (snd (ex s))"] 0(1) show ?case
      by (auto simp: run_with_retry.simps [of ex sleep cfg n b s] split: prod.splits result.splits)
  next
    case (Suc m)
    have I1: "I (snd (ex s))" using keepsD [OF assms(1) Suc.prems] .
    have m: "m = max_retries cfg - Suc n" using Suc.hyps(2) by simp
    note IH = Suc.hyps(1) [OF m assms(2) [of "fst (snd (ex s))" "snd (snd (ex s))"]]
    show ?case
      using I1 IH assms(2) [of "fst (snd (ex s))" "snd (snd (ex s))"]
      by (auto simp: run_with_retry.simps [of ex sleep cfg n b s] split: prod.splits result.splits)
  qed
qed

section \<open>Deleting archive objects\<close>

definition is_retryable_delete_object_failure :: "delete_failure \<Rightarrow> bool" where
  "is_retryable_delete_object_failure f =
     (if df_key f = [] \<or> df_key f = ''<unknown>'' then False
      else (case df_code f of
              None \<Rightarrow> True
            | Some c \<Rightarrow> c \<in> {''SlowDown'', ''Throttling'', ''ThrottlingException'', ''RequestTimeout'',
                             ''InternalError'', ''ServiceUnavailable''}))"

definition format_failures :: "delete_failure list \<Rightarrow> string" where
  "format_failures fs = join_semicolon (map failure_text fs)"

text \<open>The classification of a service error code.\<close>

definition classify_code :: "string \<Rightarrow> error_kind \<times> error_category" where
  "classify_code c =
     (if c \<in> {''SlowDown'', ''Throttling'', ''ThrottlingException''} then (Retryable, Throttled)
      else if c = ''RequestTimeout'' then (Retryable, Timeout)
      else if c = ''InternalError'' then (Retryable, Internal)
      else if c = ''ServiceUnavailable'' then (Retryable, ServiceUnavailable)
      else if c = ''AccessDenied'' then (NonRetryable, AccessDenied)
      else if c = ''InvalidArgument'' then (NonRetryable, InvalidArgument)
      else if c = ''NoSuchBucket'' then (NonRetryable, ResourceNotFound)
      else (NonRetryable, Unknown))"

definition classify_delete_archive_error :: "anyhow \<Rightarrow> error_kind \<times> error_category" where
  "classify_delete_archive_error err =
     (case err of
        S3Err e _ \<Rightarrow>
          (case e of
             TimeoutError \<Rightarrow> (Retryable, Timeout)
           | DispatchFailure \<Rightarrow> (Retryable, Network)
           | ResponseError \<Rightarrow> (Retryable, Network)
           | ServiceError c \<Rightarrow> classify_code (case c of None \<Rightarrow> [] | Some s \<Rightarrow> s)
           | ConstructionFailure \<Rightarrow> (NonRetryable, InvalidArgument))
      | _ \<Rightarrow>
          (let m = any_to_string err in
           if contains_str m ''building the delete object failed'' then (NonRetryable, InvalidArgument)
           else if contains_str m ''AccessDenied'' then (NonRetryable, AccessDenied)
           else if contains_str m ''InvalidArgument'' then (NonRetryable, InvalidArgument)
           else if contains_str m ''NoSuchBucket'' then (NonRetryable, ResourceNotFound)
           else (Retryable, Unknown)))"

text \<open>
  \<open>execute\<close>; the state of the command is its list of pending keys. \<open>settle_report\<close> is
  what it does with a report, \<open>request_error\<close> what it makes of a failed request.
\<close>

definition settle_report :: "string list \<Rightarrow> delete_report \<Rightarrow> (command_error, unit) result \<times> string list" where
  "settle_report pending rep =
     (if failed rep = [] then (Ok (), pending)
      else
        (let (retry, no_retry) = partition is_retryable_delete_object_failure (failed rep);
             retry_keys = map df_key retry;
             pending' = (if retry_keys \<noteq> [] then retry_keys else pending)
         in if no_retry \<noteq> [] then
              (if retry_keys \<noteq> []
               then (Err (retryable ServiceUnavailable
                       ''delete_archive_objects mixed partial failure, retrying retryable failed keys only''
                       retry_keys), pending')
               else (Err (non_retryable InvalidArgument
                       (''delete_archive_objects failed with non-retryable errors: '' @ format_failures no_retry)
                       (map df_key no_retry)), pending'))
            else if retry_keys = [] then (Ok (), pending')
            else (Err (retryable ServiceUnavailable
                    ''delete_archive_objects partial failure, retrying failed keys only''
                    retry_keys), pending')))"

definition request_error :: "string list \<Rightarrow> anyhow \<Rightarrow> command_error" where
  "request_error pending err =
     (let (k, cat) = classify_delete_archive_error err;
          msg = ''delete_archive_objects request failed: '' @ any_to_string err
      in case k of
           Retryable \<Rightarrow> retryable cat msg pending
         | NonRetryable \<Rightarrow> non_retryable cat msg pending)"

definition execute_delete :: "(string list \<times> world, command_error, unit) prog" where
  "execute_delete s =
     (case s of (pending, w) \<Rightarrow>
        if pending = [] then (Ok (), s)
        else (case delete_objects_with_report pending w of
            (Ok rep, w') \<Rightarrow> (case settle_report pending rep of (r, pending') \<Rightarrow> (r, (pending', w')))
          | (Err err, w') \<Rightarrow> (Err (request_error pending err), (pending, w'))
          | (Panic, w') \<Rightarrow> (Panic, (pending, w'))))"

text \<open>\<open>into_executable_command\<close> with its run: waiting lets the clock advance.\<close>

definition sleep_world :: "duration \<Rightarrow> world \<Rightarrow> world" where
  "sleep_world d w = w\<lparr>clock := clock w + int (d div 1000)\<rparr>"

fun run_command :: "retry_config \<Rightarrow> task_command \<Rightarrow> (world, command_error, unit) prog" where
  "run_command cfg (DeleteArchiveObjects ks) w =
     (case run_executable_with_retry execute_delete sleep_world cfg (ks, w) of
        (r, (_, w')) \<Rightarrow> (r, w'))"

section \<open>Settling the outbox row\<close>

text \<open>
  The \<open>Debug\<close> texts of the error, in the message kept in the row and in the error handed
  on. Escapes inside quoted keys and the chained source error are left out.
\<close>

fun kind_text :: "error_kind \<Rightarrow> string" where
  "kind_text Retryable = ''Retryable''"
| "kind_text NonRetryable = ''NonRetryable''"

fun category_text :: "error_category \<Rightarrow> string" where
  "category_text Timeout = ''Timeout''"
| "category_text Throttled = ''Throttled''"
| "category_text Network = ''Network''"
| "category_text ServiceUnavailable = ''ServiceUnavailable''"
| "category_text AccessDenied = ''AccessDenied''"
| "category_text InvalidArgument = ''InvalidArgument''"
| "category_text ResourceNotFound = ''ResourceNotFound''"
| "category_text Internal = ''Internal''"
| "category_text Unknown = ''Unknown''"

fun debug_items :: "string list \<Rightarrow> string" where
  "debug_items [] = []"
| "debug_items [k] = [CHR 0x22] @ k @ [CHR 0x22]"
| "debug_items (k # k' # ks) = [CHR 0x22] @ k @ [CHR 0x22] @ '', '' @ debug_items (k' # ks)"

definition debug_keys :: "string list \<Rightarrow> string" where
  "debug_keys ks = ''['' @ debug_items ks @ '']''"

definition error_text :: "command_error \<Rightarrow> string" where
  "error_text e = ''category='' @ category_text (ce_category e) @ '', message='' @ ce_message e
     @ '', failed_keys='' @ debug_keys (failed_keys e)"

definition into_anyhow :: "command_error \<Rightarrow> anyhow" where
  "into_anyhow e = Anyhow (''command execution failed: kind='' @ kind_text (kind e)
     @ '', category='' @ category_text (ce_category e) @ '', message='' @ ce_message e
     @ (if failed_keys e = [] then [] else '', failed_keys='' @ debug_keys (failed_keys e)))"

text \<open>
  What \<open>handle\<close> does with the result: a success deletes the row, a retryable failure puts it
  back for five seconds later, any other failure marks it dead. If that update fails too, the
  row stays as it is (the context text added to the error then is left out).
\<close>

definition settle_task :: "nat option \<Rightarrow> command_error + unit \<Rightarrow> (world, anyhow, unit) prog" where
  "settle_task oid res =
     (case res of
        Inr _ \<Rightarrow> (case oid of None \<Rightarrow> return () | Some i \<Rightarrow> delete_outbox_row i)
      | Inl e \<Rightarrow>
          and_then
            (case oid of
               None \<Rightarrow> return ()
             | Some i \<Rightarrow>
                 map_err (\<lambda>_. into_anyhow e)
                   (case kind e of
                      Retryable \<Rightarrow> requeue_retryable_outbox i (error_text e) (from_secs 5)
                    | NonRetryable \<Rightarrow> mark_outbox_dead i (error_text e)))
            (\<lambda>_. throw (into_anyhow e)))"

definition handle :: "retry_config \<Rightarrow> queued_task \<Rightarrow> (world, anyhow, unit) prog" where
  "handle cfg t = attempt (run_command cfg (command t)) (settle_task (outbox_id t))"

section \<open>Commands as an interface\<close>

text \<open>
  The contract of the trait \<open>Executable\<close> for commands that remove things: \<open>pending\<close> are the
  keys still to be handled, \<open>present\<close> the things that exist. An attempt never widens the
  pending set, removes only what was pending, and leaves nothing pending when it succeeds.
\<close>

locale removing_command =
  fixes ex :: "('c \<times> 'w, command_error, unit) prog"
    and pending :: "'c \<Rightarrow> 'k set"
    and present :: "'w \<Rightarrow> 'k set"
    and sleep :: "duration \<Rightarrow> 'w \<Rightarrow> 'w"
  assumes pending_shrinks: "ex (c, w) = (r, (c', w')) \<Longrightarrow> pending c' \<subseteq> pending c"
    and removes_pending: "ex (c, w) = (r, (c', w')) \<Longrightarrow>
          present w' \<subseteq> present w \<and> present w - pending c \<subseteq> present w'"
    and success_removes: "ex (c, w) = (Ok u, (c', w')) \<Longrightarrow> pending c \<inter> present w' = {}"
    and sleep_present: "present (sleep d w) = present w"
begin

lemma run_shrinks:
  "run_with_retry ex sleep cfg n b (c, w) = (r, (c', w')) \<Longrightarrow>
     pending c' \<subseteq> pending c \<and> present w' \<subseteq> present w \<and> present w - pending c \<subseteq> present w'"
proof (induction "max_retries cfg - n" arbitrary: n b c w)
  case 0
  then show ?case
    using pending_shrinks [of c w] removes_pending [of c w]
    by (auto simp: run_with_retry.simps [of ex sleep cfg n b] sleep_present split: prod.splits result.splits if_splits)
next
  case (Suc m)
  obtain r1 c1 w1 where e: "ex (c, w) = (r1, (c1, w1))" by (metis surj_pair)
  note E = pending_shrinks [OF e] removes_pending [OF e]
  show ?case
  proof (cases "\<exists>er. r1 = Err er \<and> kind er \<noteq> NonRetryable \<and> n < max_retries cfg
                     \<and> \<not> max_duration < b * backoff_multiplier cfg")
    case True
    then have "run_with_retry ex sleep cfg (Suc n) (min (b * backoff_multiplier cfg) (max_wait_duration cfg))
                 (c1, sleep b w1) = (r, (c', w'))"
      using Suc.prems e by (auto simp: run_with_retry.simps [of ex sleep cfg n b])
    moreover have "m = max_retries cfg - Suc n" using Suc.hyps(2) by simp
    ultimately have "pending c' \<subseteq> pending c1 \<and> present w' \<subseteq> present (sleep b w1)
        \<and> present (sleep b w1) - pending c1 \<subseteq> present w'"
      using Suc.hyps(1) by blast
    then show ?thesis using E by (auto simp: sleep_present)
  next
    case False
    then show ?thesis using Suc.prems e E
      by (auto simp: run_with_retry.simps [of ex sleep cfg n b] sleep_present split: result.splits if_splits)
  qed
qed

lemma run_success:
  "run_with_retry ex sleep cfg n b (c, w) = (Ok u, (c', w')) \<Longrightarrow> pending c' \<inter> present w' = {}"
proof (induction "max_retries cfg - n" arbitrary: n b c w)
  case 0
  then show ?case
    using pending_shrinks [of c w] success_removes [of c w]
    by (fastforce simp: run_with_retry.simps [of ex sleep cfg n b] split: prod.splits result.splits if_splits)
next
  case (Suc m)
  obtain r1 c1 w1 where e: "ex (c, w) = (r1, (c1, w1))" by (metis surj_pair)
  show ?case
  proof (cases r1)
    case (Ok v)
    then show ?thesis
      using Suc.prems e pending_shrinks [OF e] success_removes [of c w v c1 w1]
      by (auto simp: run_with_retry.simps [of ex sleep cfg n b])
  next
    case (Err er)
    then have "run_with_retry ex sleep cfg (Suc n) (min (b * backoff_multiplier cfg) (max_wait_duration cfg))
                 (c1, sleep b w1) = (Ok u, (c', w'))"
      using Suc.prems e by (auto simp: run_with_retry.simps [of ex sleep cfg n b] split: if_splits)
    moreover have "m = max_retries cfg - Suc n" using Suc.hyps(2) by simp
    ultimately show ?thesis using Suc.hyps(1) by blast
  next
    case Panic
    then show ?thesis using Suc.prems e by (auto simp: run_with_retry.simps [of ex sleep cfg n b])
  qed
qed

end

subsection \<open>The deletion of archive objects keeps the contract\<close>

lemma settle_report_pending:
  "settle_report ks rep = (r, ks') \<Longrightarrow>
     ks' = ks \<or> ks' = map df_key (filter is_retryable_delete_object_failure (failed rep))"
  by (auto simp: settle_report_def Let_def split: if_splits)

lemma settle_report_Ok: "settle_report ks rep = (Ok u, ks') \<Longrightarrow> failed rep = [] \<and> ks' = ks"
  by (cases "failed rep") (auto simp: settle_report_def Let_def split: if_splits)

lemma settle_report_no_panic: "settle_report ks rep \<noteq> (Panic, ks')"
  by (auto simp: settle_report_def Let_def)

lemma retryable_failures_pending:
  assumes "delete_objects_with_report ks w = (Ok rep, w')"
  shows "df_key ` set (filter is_retryable_delete_object_failure (failed rep)) \<subseteq> set ks"
  using delete_report_Ok(2) [OF assms]
  by (auto simp: is_retryable_delete_object_failure_def split: if_splits)

text \<open>The three ways an attempt can go.\<close>

lemma execute_delete_cases:
  assumes "execute_delete (ks, w) = (r, (ks', w'))"
  obtains (empty) "ks = []" "r = Ok ()" "ks' = ks" "w' = w"
  | (report) rep where "delete_objects_with_report ks w = (Ok rep, w')" "settle_report ks rep = (r, ks')"
  | (error) err where "delete_objects_with_report ks w = (Err err, w')" "r = Err (request_error ks err)" "ks' = ks"
  | (panic) "delete_objects_with_report ks w = (Panic, w')" "r = Panic" "ks' = ks"
proof (cases "ks = []")
  case True
  with assms have "r = Ok ()" "ks' = ks" "w' = w" by (auto simp: execute_delete_def)
  with True show ?thesis by (rule empty)
next
  case False
  obtain r1 w1 where d: "delete_objects_with_report ks w = (r1, w1)" by (cases "delete_objects_with_report ks w")
  show ?thesis
  proof (cases r1)
    case (Ok rep)
    obtain r2 ks2 where p: "settle_report ks rep = (r2, ks2)" by (cases "settle_report ks rep")
    with assms d Ok False have "r = r2" "ks' = ks2" "w' = w1" by (simp_all add: execute_delete_def)
    with d Ok p have "delete_objects_with_report ks w = (Ok rep, w')" "settle_report ks rep = (r, ks')"
      by simp_all
    then show ?thesis by (rule report)
  next
    case (Err err)
    with assms d False have "r = Err (request_error ks err)" "ks' = ks" "w1 = w'"
      by (auto simp: execute_delete_def)
    with d Err show ?thesis by (intro error [of err]) simp_all
  next
    case Panic
    with assms d False have "r = Panic" "ks' = ks" "w1 = w'" by (simp_all add: execute_delete_def)
    with d Panic show ?thesis by (intro panic) simp_all
  qed
qed

lemma execute_delete_pending:
  assumes "execute_delete (ks, w) = (r, (ks', w'))"
  shows "set ks' \<subseteq> set ks"
  using assms
proof (cases rule: execute_delete_cases)
  case (report rep)
  have "df_key ` set (filter is_retryable_delete_object_failure (failed rep)) \<subseteq> set ks"
    using report(1) by (rule retryable_failures_pending)
  with settle_report_pending [OF report(2)] show ?thesis by auto
qed simp_all

lemma execute_delete_objects:
  assumes "execute_delete (ks, w) = (r, (ks', w'))"
  shows "stored_keys w' \<subseteq> stored_keys w \<and> stored_keys w - set ks \<subseteq> stored_keys w'
     \<and> db w' = db w \<and> queue w' = queue w"
  using assms
  by (cases rule: execute_delete_cases) (simp_all add: delete_report_sub)

lemma execute_delete_Ok:
  assumes "execute_delete (ks, w) = (Ok u, (ks', w'))"
  shows "set ks \<inter> stored_keys w' = {}"
  using assms
proof (cases rule: execute_delete_cases)
  case (report rep)
  then have "failed rep = []" by (blast dest: settle_report_Ok)
  then show ?thesis using delete_report_Ok(1) [OF report(1)] by simp
qed simp_all

lemma stored_keys_sleep [simp]: "stored_keys (sleep_world d w) = stored_keys w"
  by (simp add: stored_keys_def sleep_world_def)

interpretation del: removing_command execute_delete set stored_keys sleep_world
proof
  show "set c' \<subseteq> set c" if "execute_delete (c, w) = (r, (c', w'))" for c w r c' w'
    using that by (rule execute_delete_pending)
  show "stored_keys w' \<subseteq> stored_keys w \<and> stored_keys w - set c \<subseteq> stored_keys w'"
    if "execute_delete (c, w) = (r, (c', w'))" for c w r c' w'
    using execute_delete_objects [OF that] by blast
  show "set c \<inter> stored_keys w' = {}" if "execute_delete (c, w) = (Ok u, (c', w'))" for c w u c' w'
    using that by (rule execute_delete_Ok)
  show "stored_keys (sleep_world d w) = stored_keys w" for d w by simp
qed

section \<open>How long a command is retried\<close>

text \<open>
  To talk about attempts and waits, the context is extended by a log: the number of calls of
  \<open>execute\<close> so far and the waits so far. The loop itself is the one above.
\<close>

definition logging :: "('c \<times> 'w, command_error, unit) prog \<Rightarrow>
    ('c \<times> (nat \<times> duration list) \<times> 'w, command_error, unit) prog" where
  "logging ex s =
     (case s of (c, (n, ws), w) \<Rightarrow> (case ex (c, w) of (r, (c', w')) \<Rightarrow> (r, (c', (Suc n, ws), w'))))"

definition log_sleep :: "(duration \<Rightarrow> 'w \<Rightarrow> 'w) \<Rightarrow> duration \<Rightarrow> (nat \<times> duration list) \<times> 'w \<Rightarrow> (nat \<times> duration list) \<times> 'w" where
  "log_sleep sleep d s = (case s of ((n, ws), w) \<Rightarrow> ((n, ws @ [d]), sleep d w))"

lemma logging_step [simp]:
  "logging ex (c, (n, ws), w) = (case ex (c, w) of (r, (c', w')) \<Rightarrow> (r, (c', (Suc n, ws), w')))"
  by (simp add: logging_def)

lemma log_sleep_step [simp]: "log_sleep sleep d ((n, ws), w) = ((n, ws @ [d]), sleep d w)"
  by (simp add: log_sleep_def)

fun backoff_schedule :: "retry_config \<Rightarrow> nat \<Rightarrow> duration \<Rightarrow> duration list" where
  "backoff_schedule cfg 0 b = []"
| "backoff_schedule cfg (Suc k) b =
     b # backoff_schedule cfg k (min (b * backoff_multiplier cfg) (max_wait_duration cfg))"

text \<open>The products of the loop stay in range.\<close>

definition backoff_fits :: "retry_config \<Rightarrow> duration \<Rightarrow> bool" where
  "backoff_fits cfg b \<longleftrightarrow> b * backoff_multiplier cfg \<le> max_duration
     \<and> max_wait_duration cfg * backoff_multiplier cfg \<le> max_duration"

lemma backoff_fits_step:
  "backoff_fits cfg b \<Longrightarrow> backoff_fits cfg (min (b * backoff_multiplier cfg) (max_wait_duration cfg))"
  unfolding backoff_fits_def
  by (metis dual_order.trans min.cobounded2 mult_le_mono1)

lemma run_log:
  assumes "run_with_retry (logging ex) (log_sleep sleep) cfg n b (c, (k, ws), w) = (r, (c', (k', ws'), w'))"
    and "n \<le> max_retries cfg" and "backoff_fits cfg b" and "\<And>s. fst (ex s) \<noteq> Panic"
  shows "\<exists>m\<le>max_retries cfg - n. k' = k + Suc m \<and> ws' = ws @ backoff_schedule cfg m b
           \<and> r \<noteq> Panic \<and> (\<forall>e. r = Err e \<longrightarrow> kind e = Retryable \<longrightarrow> m = max_retries cfg - n)"
  using assms(1-3)
proof (induction "max_retries cfg - n" arbitrary: n b c k ws w)
  case 0
  obtain r1 c1 w1 where e: "ex (c, w) = (r1, (c1, w1))" by (metis surj_pair)
  then have "r1 \<noteq> Panic" using assms(4) [of "(c, w)"] by simp
  with 0 e have "k' = Suc k \<and> ws' = ws \<and> r = r1"
    by (auto simp: run_with_retry.simps [of "logging ex"] split: result.splits if_splits)
  with \<open>r1 \<noteq> Panic\<close> 0 show ?case by (intro exI [of _ 0]) simp
next
  case (Suc d)
  obtain r1 c1 w1 where e: "ex (c, w) = (r1, (c1, w1))" by (metis surj_pair)
  then have np: "r1 \<noteq> Panic" using assms(4) [of "(c, w)"] by simp
  let ?b = "min (b * backoff_multiplier cfg) (max_wait_duration cfg)"
  have lt: "\<not> max_retries cfg \<le> n" using Suc.hyps(2) by simp
  have fits: "\<not> max_duration < b * backoff_multiplier cfg" using Suc.prems(3) by (simp add: backoff_fits_def)
  show ?case
  proof (cases "\<exists>er. r1 = Err er \<and> kind er = Retryable")
    case True
    then have "run_with_retry (logging ex) (log_sleep sleep) cfg (Suc n) ?b
        (c1, (Suc k, ws @ [b]), sleep b w1) = (r, (c', (k', ws'), w'))"
      using Suc.prems(1) lt e fits
      by (auto simp: run_with_retry.simps [of "logging ex" _ _ n])
    moreover have "d = max_retries cfg - Suc n" "Suc n \<le> max_retries cfg" using Suc.hyps(2) by simp_all
    ultimately have "\<exists>m\<le>max_retries cfg - Suc n. k' = Suc k + Suc m
        \<and> ws' = (ws @ [b]) @ backoff_schedule cfg m ?b \<and> r \<noteq> Panic
        \<and> (\<forall>e. r = Err e \<longrightarrow> kind e = Retryable \<longrightarrow> m = max_retries cfg - Suc n)"
      using Suc.hyps(1) backoff_fits_step [OF Suc.prems(3)] by blast
    then obtain m where "m \<le> max_retries cfg - Suc n" "k' = Suc k + Suc m"
      "ws' = (ws @ [b]) @ backoff_schedule cfg m ?b" "r \<noteq> Panic"
      "\<forall>e. r = Err e \<longrightarrow> kind e = Retryable \<longrightarrow> m = max_retries cfg - Suc n"
      by blast
    then show ?thesis using Suc.hyps(2) by (intro exI [of _ "Suc m"]) auto
  next
    case False
    then have "k' = Suc k \<and> ws' = ws \<and> r = r1"
      using Suc.prems(1) np e
      by (auto simp: run_with_retry.simps [of "logging ex" _ _ n b] not_retryable split: result.splits)
    with np False show ?thesis by (intro exI [of _ 0]) auto
  qed
qed

lemma default_fits: "backoff_fits default_retry_config (backoff default_retry_config)"
  by (simp add: backoff_fits_def default_retry_config_def max_duration_def from_secs_def)

lemma backoff_schedule_numeral:
  "backoff_schedule cfg (numeral k) b =
     b # backoff_schedule cfg (pred_numeral k) (min (b * backoff_multiplier cfg) (max_wait_duration cfg))"
  by (simp add: numeral_eq_Suc)

lemma default_schedule:
  "backoff_schedule default_retry_config 10 (backoff default_retry_config)
     = map from_secs [1, 2, 4, 8, 16, 30, 30, 30, 30, 30]"
  by (simp add: default_retry_config_def from_secs_def backoff_schedule_numeral)

lemma take_backoff_schedule: "m \<le> n \<Longrightarrow> backoff_schedule cfg m b = take m (backoff_schedule cfg n b)"
proof (induction m arbitrary: n b)
  case (Suc m)
  then show ?case by (cases n) simp_all
qed simp

text \<open>C24: With the default configuration, whatever the command does short of a panic of its own, \<open>m \<le> 10\<close> waits are made
  between \<open>m + 1\<close> calls of \<open>execute\<close>; the waits are the first \<open>m\<close> of 1, 2, 4, 8, 16, 30, 30,
  30, 30, 30 seconds (at most 181 seconds, under the 300 seconds after which a claimed row
  counts as stale); the loop never panics, and it gives up with a retryable error only after
  all ten retries.\<close>

theorem retry_schedule:
  assumes "\<And>s. fst (ex s) \<noteq> Panic"
    and "run_executable_with_retry (logging ex) (log_sleep sleep) default_retry_config (c, (0, []), w)
           = (r, (c', (attempts, waits), w'))"
  shows "\<exists>m\<le>10. attempts = Suc m \<and> waits = take m (map from_secs [1, 2, 4, 8, 16, 30, 30, 30, 30, 30])
           \<and> sum_list waits \<le> from_secs 181 \<and> r \<noteq> Panic
           \<and> (\<forall>e. r = Err e \<longrightarrow> kind e = Retryable \<longrightarrow> m = 10)"
proof -
  have max: "max_retries default_retry_config = 10" by (simp add: default_retry_config_def)
  from run_log [OF assms(2) [unfolded run_executable_with_retry_def] _ default_fits assms(1)]
  obtain m where m: "m \<le> 10" "attempts = Suc m" "r \<noteq> Panic"
    "waits = backoff_schedule default_retry_config m (backoff default_retry_config)"
    "\<forall>e. r = Err e \<longrightarrow> kind e = Retryable \<longrightarrow> m = 10"
    by (auto simp: max)
  have w: "waits = take m (map from_secs [1, 2, 4, 8, 16, 30, 30, 30, 30, 30])"
    using m(4) take_backoff_schedule [OF m(1)] default_schedule by simp
  have "sum_list waits + sum_list (drop m (map from_secs [1, 2, 4, 8, 16, 30, 30, 30, 30, 30])) = from_secs 181"
    unfolding w sum_list_append [symmetric] append_take_drop_id by (simp add: from_secs_def)
  then have "sum_list waits \<le> from_secs 181" by simp
  with m w show ?thesis by blast
qed

definition always_busy :: "(unit \<times> unit, command_error, unit) prog" where
  "always_busy s = (Err (retryable Throttled ''busy'' []), s)"

theorem retry_schedule_witness:
  "\<exists>r c' attempts waits w'. run_executable_with_retry (logging always_busy) (log_sleep (\<lambda>_ u. u))
        default_retry_config ((), (0, []), ()) = (r, (c', (attempts, waits), w'))
      \<and> attempts \<le> 11 \<and> r \<noteq> Panic"
proof -
  obtain r c' attempts waits w' where run: "run_executable_with_retry (logging always_busy) (log_sleep (\<lambda>_ u. u))
      default_retry_config ((), (0, []), ()) = (r, (c', (attempts, waits), w'))"
    by (metis surj_pair)
  have "fst (always_busy s) \<noteq> Panic" for s by (simp add: always_busy_def)
  from retry_schedule [OF this run] run show ?thesis by auto
qed

section \<open>What a completed command has deleted\<close>

text \<open>Worlds whose service reports single keys only for reasons the code retries.\<close>

definition transient_faults :: "fault list \<Rightarrow> bool" where
  "transient_faults fs \<longleftrightarrow>
     (\<forall>f\<in>set fs. case f of
          KeyErrors es \<Rightarrow> (\<forall>(k, c, m)\<in>set es. is_retryable_delete_object_failure
             \<lparr>df_key = (case k of None \<Rightarrow> ''<unknown>'' | Some k' \<Rightarrow> k'), df_code = c, df_message = m\<rparr>)
        | _ \<Rightarrow> True)"

lemma transient_next: "next_fault w = (f, w') \<Longrightarrow> transient_faults (faults w) \<Longrightarrow> transient_faults (faults w')"
  by (auto simp: next_fault_def transient_faults_def split: list.splits)

lemma transient_head: "next_fault w = (KeyErrors es, w') \<Longrightarrow> transient_faults (faults w) \<Longrightarrow>
    (k, c, m) \<in> set es \<Longrightarrow> is_retryable_delete_object_failure
       \<lparr>df_key = (case k of None \<Rightarrow> ''<unknown>'' | Some k' \<Rightarrow> k'), df_code = c, df_message = m\<rparr>"
  by (fastforce simp: next_fault_def transient_faults_def split: list.splits)

lemma transient_request:
  assumes "delete_request chunk w = (r, w')" and "transient_faults (faults w)"
  shows "transient_faults (faults w')"
    and "r = Ok (ds, errs) \<Longrightarrow> (k, c, m) \<in> set errs \<Longrightarrow> is_retryable_delete_object_failure
       \<lparr>df_key = (case k of None \<Rightarrow> ''<unknown>'' | Some k' \<Rightarrow> k'), df_code = c, df_message = m\<rparr>"
proof -
  obtain f w1 where nf: "next_fault w = (f, w1)" by (cases "next_fault w")
  note T = transient_next [OF nf assms(2)]
  show "transient_faults (faults w')"
    using assms(1) nf T by (cases f) (auto simp: delete_request_def Let_def)
  show "r = Ok (ds, errs) \<Longrightarrow> (k, c, m) \<in> set errs \<Longrightarrow> is_retryable_delete_object_failure
       \<lparr>df_key = (case k of None \<Rightarrow> ''<unknown>'' | Some k' \<Rightarrow> k'), df_code = c, df_message = m\<rparr>"
    using assms nf transient_head [of w _ w1 k c m] by (cases f) (auto simp: delete_request_def Let_def)
qed

lemma transient_chunks:
  assumes "delete_chunks cs rep w = (r, w')" and "transient_faults (faults w)"
    and "\<forall>x\<in>set (failed rep). is_retryable_delete_object_failure x"
  shows "transient_faults (faults w') \<and> (\<forall>rep'. r = Ok rep' \<longrightarrow>
           (\<forall>x\<in>set (failed rep'). is_retryable_delete_object_failure x))"
  using assms
proof (induction cs arbitrary: rep w)
  case Nil
  then show ?case by (auto simp: return_def)
next
  case (Cons c cs)
  obtain r1 w1 where req: "delete_request c w = (r1, w1)" by (cases "delete_request c w")
  note T = transient_request [OF req Cons.prems(2)]
  show ?case
  proof (cases r1)
    case (Ok p)
    obtain ds errs where p: "p = (ds, errs)" by (cases p)
    let ?rep = "rep\<lparr>deleted_keys := deleted_keys rep @ ds,
        failed := failed rep @ map (\<lambda>(k, c, m).
          \<lparr>df_key = (case k of None \<Rightarrow> ''<unknown>'' | Some k' \<Rightarrow> k'), df_code = c, df_message = m\<rparr>) errs\<rparr>"
    have "delete_chunks cs ?rep w1 = (r, w')"
      using Cons.prems(1) req Ok p by (simp add: and_then_Ok)
    moreover have "\<forall>x\<in>set (failed ?rep). is_retryable_delete_object_failure x"
      using Cons.prems(3) T(2) [of ds errs] Ok p by (auto split: prod.splits)
    ultimately show ?thesis using Cons.IH T(1) by blast
  next
    case (Err e)
    then show ?thesis using Cons.prems req T(1) by (auto simp: and_then_Err)
  next
    case Panic
    then show ?thesis using req delete_request_no_panic by simp
  qed
qed

lemma transient_execute:
  assumes "execute_delete (ks, w) = (r, (ks', w'))" and "transient_faults (faults w)"
  shows "transient_faults (faults w') \<and> set ks \<inter> stored_keys w' \<subseteq> set ks'"
  using assms(1)
proof (cases rule: execute_delete_cases)
  case (report rep)
  have T: "transient_faults (faults w')" "\<forall>x\<in>set (failed rep). is_retryable_delete_object_failure x"
    using report(1) assms(2) transient_chunks [of "chunks max_delete_per_request ks" empty_report w "Ok rep" w']
    by (auto simp: delete_objects_with_report_def return_def empty_report_def split: if_splits)
  then have "filter is_retryable_delete_object_failure (failed rep) = failed rep" by simp
  with settle_report_pending [OF report(2)] have "ks' = ks \<or> ks' = map df_key (failed rep)" by simp
  with delete_report_Ok(1) [OF report(1)] T(1) show ?thesis by auto
next
  case (error err)
  then show ?thesis
    using assms(2) transient_chunks [of "chunks max_delete_per_request ks" empty_report w "Err err" w']
    by (auto simp: delete_objects_with_report_def return_def empty_report_def split: if_splits)
next
  case panic
  then show ?thesis
    using assms(2) transient_chunks [of "chunks max_delete_per_request ks" empty_report w Panic w']
    by (auto simp: delete_objects_with_report_def return_def empty_report_def split: if_splits)
qed (use assms(2) in auto)

lemma faults_sleep [simp]: "faults (sleep_world d w) = faults w"
  by (simp add: sleep_world_def)

lemma transient_run:
  assumes "run_with_retry execute_delete sleep_world cfg n b (ks, w) = (r, (ks', w'))"
    and "transient_faults (faults w)"
  shows "set ks \<inter> stored_keys w' \<subseteq> set ks'"
  using assms
proof (induction "max_retries cfg - n" arbitrary: n b ks w)
  case 0
  obtain r1 ks1 w1 where e: "execute_delete (ks, w) = (r1, (ks1, w1))" by (metis surj_pair)
  have "ks' = ks1 \<and> stored_keys w' = stored_keys w1"
    using 0 e by (auto simp: run_with_retry.simps [of execute_delete _ _ n] split: result.splits if_splits)
  with transient_execute [OF e] 0 show ?case by simp
next
  case (Suc m)
  obtain r1 ks1 w1 where e: "execute_delete (ks, w) = (r1, (ks1, w1))" by (metis surj_pair)
  note T = transient_execute [OF e Suc.prems(2)]
  show ?case
  proof (cases "ks' = ks1 \<and> stored_keys w' = stored_keys w1")
    case True
    with T show ?thesis by simp
  next
    case False
    then have "run_with_retry execute_delete sleep_world cfg (Suc n)
        (min (b * backoff_multiplier cfg) (max_wait_duration cfg)) (ks1, sleep_world b w1) = (r, (ks', w'))"
      using Suc.prems(1) e
      by (auto simp: run_with_retry.simps [of execute_delete _ _ n b] split: result.splits if_splits)
    moreover have "m = max_retries cfg - Suc n" using Suc.hyps(2) by simp
    ultimately have "set ks1 \<inter> stored_keys w' \<subseteq> set ks'" "stored_keys w' \<subseteq> stored_keys w1"
      using Suc.hyps(1) T del.run_shrinks [of cfg "Suc n" _ ks1 "sleep_world b w1" r ks' w'] by auto
    with T show ?thesis by blast
  qed
qed

lemma handle_Ok:
  assumes "handle cfg t w = (Ok u, w')"
  obtains w1 where "run_command cfg (command t) w = (Ok (), w1)" and "settle_task (outbox_id t) (Inr ()) w1 = (Ok (), w')"
    and "bucket w' = bucket w1" and "\<And>i. outbox_id t = Some i \<Longrightarrow> \<forall>r\<in>set (outbox (db w')). o_id r \<noteq> i"
proof -
  obtain r1 w1 where run: "run_command cfg (command t) w = (r1, w1)" by (cases "run_command cfg (command t) w")
  have "r1 = Ok ()" and settle: "settle_task (outbox_id t) (Inr ()) w1 = (Ok (), w')"
    using assms run
    by (cases r1; auto simp: handle_def attempt_def settle_task_def and_then_def throw_def
        split: result.splits prod.splits)+
  moreover have "bucket w' = bucket w1 \<and> (\<forall>i. outbox_id t = Some i \<longrightarrow> (\<forall>r\<in>set (outbox (db w')). o_id r \<noteq> i))"
    using settle next_fault_fields(3) [of w1]
    by (auto simp: settle_task_def delete_outbox_row_def sql_def return_def
        split: option.splits prod.splits if_splits simp del: next_fault_fields)
  ultimately show ?thesis using that run by blast
qed

lemma run_delete_tables:
  "keeps (\<lambda>(c, w). db w = d \<and> queue w = q) (run_with_retry execute_delete sleep_world cfg n b)"
proof (rule run_with_retry_keeps)
  show "keeps (\<lambda>(c, w). db w = d \<and> queue w = q) execute_delete"
  proof (rule keepsI)
    fix s :: "string list \<times> world" assume "case s of (c, w) \<Rightarrow> db w = d \<and> queue w = q"
    then show "case snd (execute_delete s) of (c, w) \<Rightarrow> db w = d \<and> queue w = q"
      using execute_delete_objects [of "fst s" "snd s" "fst (execute_delete s)"
          "fst (snd (execute_delete s))" "snd (snd (execute_delete s))"]
      by (simp add: case_prod_beta)
  qed
qed (simp add: sleep_world_def)

text \<open>C23: When the handler reports success for a deletion command, and the service refused single
  keys only for reasons the code retries, every object the command names is gone, and so is the
  outbox row it came from.\<close>

theorem handled_deletion_is_complete:
  assumes "command t = DeleteArchiveObjects ks" and "handle cfg t w = (Ok u, w')"
    and "transient_faults (faults w)"
  shows "set ks \<inter> stored_keys w' = {}
     \<and> (\<forall>i. outbox_id t = Some i \<longrightarrow> (\<forall>r\<in>set (outbox (db w')). o_id r \<noteq> i))"
proof -
  from assms(2) obtain w1 where run: "run_command cfg (command t) w = (Ok (), w1)"
    and same: "bucket w' = bucket w1"
    and row: "\<forall>i. outbox_id t = Some i \<longrightarrow> (\<forall>r\<in>set (outbox (db w')). o_id r \<noteq> i)"
    by (rule handle_Ok) blast
  from run assms(1) obtain ks' where
    "run_with_retry execute_delete sleep_world cfg 0 (backoff cfg) (ks, w) = (Ok (), (ks', w1))"
    by (auto simp: run_executable_with_retry_def split: prod.splits)
  from transient_run [OF this assms(3)] del.run_success [OF this]
  have "set ks \<inter> stored_keys w1 = {}" by blast
  with same row show ?thesis by (simp add: stored_keys_def)
qed

text \<open>Running a deletion command, however it ends and whatever the service does, removes no
  object the command does not name, creates none, and touches neither the tables nor the queue.\<close>

theorem deletion_frame:
  assumes "run_command cfg (DeleteArchiveObjects ks) w = (r, w')"
  shows "stored_keys w' \<subseteq> stored_keys w \<and> stored_keys w - set ks \<subseteq> stored_keys w'
     \<and> db w' = db w \<and> queue w' = queue w"
proof -
  from assms obtain ks' where run:
    "run_with_retry execute_delete sleep_world cfg 0 (backoff cfg) (ks, w) = (r, (ks', w'))"
    by (auto simp: run_executable_with_retry_def split: prod.splits)
  from del.run_shrinks [OF this] keepsE [OF run_delete_tables this, of "db w" "queue w"]
  show ?thesis by simp
qed

theorem deletion_frame_witness:
  "''b'' \<in> stored_keys (snd (run_command default_retry_config (DeleteArchiveObjects [''a'']) (demo_world [''a'', ''b''] [])))"
  using deletion_frame [of default_retry_config "[''a'']" "demo_world [''a'', ''b''] []"]
  by (cases "run_command default_retry_config (DeleteArchiveObjects [''a'']) (demo_world [''a'', ''b''] [])")
     (auto simp: demo_world_def stored_keys_def)


lemma demo_chunks: "chunks max_delete_per_request [''a'', ''b''] = [[''a'', ''b'']]"
    "chunks max_delete_per_request [''a''] = [[''a'']]"
  by (simp_all add: chunks.simps max_delete_per_request_def)

definition demo_task :: queued_task where
  "demo_task = \<lparr>outbox_id = None, command = DeleteArchiveObjects [''a'', ''b'']\<rparr>"

lemmas demo_run = Let_def demo_task_def demo_world_def handle_def attempt_def run_executable_with_retry_def
  run_with_retry.simps execute_delete_def delete_objects_with_report_def demo_chunks empty_report_def
  delete_request_def next_fault_def and_then_def return_def settle_report_def
  is_retryable_delete_object_failure_def retryable_def default_retry_config_def max_duration_def
  from_secs_def sleep_world_def settle_task_def stored_keys_def objects_delete_def empty_db_def

theorem handled_deletion_is_complete_witness:
  "let w = demo_world [''a'', ''b'', ''c''] [KeyErrors [(Some ''a'', Some ''SlowDown'', None)]]
   in fst (handle default_retry_config demo_task w) = Ok ()
     \<and> {''a'', ''b''} \<inter> stored_keys (snd (handle default_retry_config demo_task w)) = {}"
proof -
  let ?w = "demo_world [''a'', ''b'', ''c''] [KeyErrors [(Some ''a'', Some ''SlowDown'', None)]]"
  have ok: "fst (handle default_retry_config demo_task ?w) = Ok ()"
    by (simp add: demo_run)
  then obtain w' where run: "handle default_retry_config demo_task ?w = (Ok (), w')"
    by (metis surjective_pairing)
  have "command demo_task = DeleteArchiveObjects [''a'', ''b'']" by (simp add: demo_task_def)
  moreover have "transient_faults (faults ?w)" by (simp add: demo_world_def transient_faults_def is_retryable_delete_object_failure_def)
  ultimately have "set [''a'', ''b''] \<inter> stored_keys w' = {}"
    using handled_deletion_is_complete run by blast
  with run ok show ?thesis by (simp add: Let_def)
qed

text \<open>Without that assumption the statement fails: when one key is refused for good
  (\<open>AccessDenied\<close>) while another one is only throttled, the next attempt retries the
  throttled key alone, the command succeeds, its outbox row goes, and the object refused
  first stays in the bucket with nothing left that would delete it.\<close>

theorem mixed_failure_forgets_a_key:
  "let w = demo_world [''a'', ''b'']
             [KeyErrors [(Some ''a'', Some ''SlowDown'', None), (Some ''b'', Some ''AccessDenied'', None)]];
       (r, w') = handle default_retry_config demo_task w
   in r = Ok () \<and> outbox (db w') = [] \<and> ''b'' \<in> stored_keys w' \<and> ''a'' \<notin> stored_keys w'"
  by (simp add: demo_run)

end
