(* ===== verification/Worker.thy ===== *)
theory Worker
  imports Commands
begin

text \<open>
  \<open>tasks/manager.rs\<close>: the worker that takes tasks from the channel and runs them
  concurrently, and the whole task system as a state machine: submissions, the periodic pull,
  the recovery at startup, the worker's steps, the passing of time, failures of the database
  and the death of the process, in any order.
\<close>

section \<open>The system\<close>

record task_system =
  shared :: world
  in_flight :: "queued_task list"
  stopping :: bool

text \<open>
  The events. \<open>Work\<close> is any part of a running command: it changes neither the tables nor the
  queue (this is what \<open>deletion_frame\<close> says of the command there is), so commands interleave
  with everything else. \<open>Settle k res\<close> ends the \<open>k\<close>-th running command with the result
  \<open>res\<close> and does what \<open>handle\<close> does with it. \<open>Crash\<close> loses the channel and the running
  commands; a new process starts with an empty channel.
\<close>

datatype event =
    Submit task_command
  | SubmitInMemory task_command
  | Pull nat duration
  | Recover duration
  | Receive
  | Work "(string \<times> s3_object) list" nat
  | Settle nat "command_error + unit"
  | Outage "fault list"
  | CloseChannel
  | Stop
  | Crash

definition receive :: "nat \<Rightarrow> task_system \<Rightarrow> task_system" where
  "receive max_in_flight s =
     (if \<not> stopping s \<and> length (in_flight s) < max max_in_flight 1
      then (case queue (shared s) of
              [] \<Rightarrow> if queue_closed (shared s) then s\<lparr>stopping := True\<rparr> else s
            | t # rest \<Rightarrow> s\<lparr>shared := (shared s)\<lparr>queue := rest\<rparr>, in_flight := in_flight s @ [t]\<rparr>)
      else s)"

definition settle :: "nat \<Rightarrow> command_error + unit \<Rightarrow> task_system \<Rightarrow> task_system" where
  "settle k res s =
     (if k < length (in_flight s)
      then s\<lparr>shared := snd (settle_task (outbox_id (in_flight s ! k)) res (shared s)),
             in_flight := take k (in_flight s) @ drop (Suc k) (in_flight s)\<rparr>
      else s)"

fun step :: "nat \<Rightarrow> event \<Rightarrow> task_system \<Rightarrow> task_system" where
  "step m (Submit c) s = s\<lparr>shared := snd (submit c (shared s))\<rparr>"
| "step m (SubmitInMemory c) s = s\<lparr>shared := snd (queue_in_memory c (shared s))\<rparr>"
| "step m (Pull batch timeout) s = s\<lparr>shared := snd (pull_outbox_tasks batch timeout (shared s))\<rparr>"
| "step m (Recover timeout) s = s\<lparr>shared := snd (recover_outbox_tasks timeout (shared s))\<rparr>"
| "step m Receive s = receive m s"
| "step m (Work b d) s = s\<lparr>shared := (shared s)\<lparr>bucket := b, clock := clock (shared s) + int d\<rparr>\<rparr>"
| "step m (Settle k res) s = settle k res s"
| "step m (Outage fs) s = s\<lparr>shared := (shared s)\<lparr>faults := fs\<rparr>\<rparr>"
| "step m CloseChannel s = s\<lparr>shared := (shared s)\<lparr>queue_closed := True\<rparr>\<rparr>"
| "step m Stop s = s\<lparr>stopping := True\<rparr>"
| "step m Crash s = s\<lparr>shared := (shared s)\<lparr>queue := [], queue_closed := False\<rparr>, in_flight := [], stopping := False\<rparr>"

inductive reachable :: "nat \<Rightarrow> task_system \<Rightarrow> bool" for m where
  start: "outbox (db w) = [] \<Longrightarrow> queue w = [] \<Longrightarrow> reachable m \<lparr>shared = w, in_flight = [], stopping = False\<rparr>"
| step: "reachable m s \<Longrightarrow> reachable m (step m e s)"

section \<open>The invariant\<close>

text \<open>Ids are unique and below the sequence; every payload is a command's.\<close>

definition wf_outbox :: "database \<Rightarrow> bool" where
  "wf_outbox d \<longleftrightarrow> distinct (map o_id (outbox d))
     \<and> (\<forall>r\<in>set (outbox d). o_id r < next_outbox_id d
          \<and> (\<exists>c. o_payload r = command_to_json c \<and> o_type r = command_type c))"

text \<open>A task that came from row \<open>i\<close> carries the command of row \<open>i\<close>.\<close>

definition job_of :: "database \<Rightarrow> nat \<Rightarrow> task_command \<Rightarrow> bool" where
  "job_of d i c \<longleftrightarrow> i < next_outbox_id d
     \<and> (\<forall>r\<in>set (outbox d). o_id r = i \<longrightarrow> o_payload r = command_to_json c)"

definition tasks_ok :: "database \<Rightarrow> queued_task list \<Rightarrow> bool" where
  "tasks_ok d ts \<longleftrightarrow> (\<forall>t\<in>set ts. \<forall>i. outbox_id t = Some i \<longrightarrow> job_of d i (command t))"

definition well :: "queued_task list \<Rightarrow> world \<Rightarrow> bool" where
  "well fl w \<longleftrightarrow> wf_outbox (db w) \<and> tasks_ok (db w) (queue w @ fl) \<and> length (queue w) \<le> queue_capacity w"

definition system_ok :: "nat \<Rightarrow> task_system \<Rightarrow> bool" where
  "system_ok m s \<longleftrightarrow> well (in_flight s) (shared s) \<and> length (in_flight s) \<le> max m 1"

text \<open>An update of a row that leaves its id, type and payload.\<close>

definition row_frame :: "(outbox_row \<Rightarrow> outbox_row) \<Rightarrow> bool" where
  "row_frame f \<longleftrightarrow> (\<forall>r. o_id (f r) = o_id r \<and> o_type (f r) = o_type r \<and> o_payload (f r) = o_payload r)"

lemma wf_update:
  assumes "row_frame f" and "wf_outbox d"
  shows "wf_outbox (d\<lparr>outbox := update_where p f (outbox d)\<rparr>)"
proof -
  have "map o_id (update_where p f (outbox d)) = map o_id (outbox d)"
    using assms(1) by (intro map_key_update_where) (simp add: row_frame_def)
  then show ?thesis using assms by (force simp: wf_outbox_def in_update_where row_frame_def)
qed

lemma job_of_alt: "job_of d i c \<longleftrightarrow> i < next_outbox_id d
    \<and> (\<forall>p\<in>set (map (\<lambda>r. (o_id r, o_payload r)) (outbox d)). fst p = i \<longrightarrow> snd p = command_to_json c)"
  by (auto simp: job_of_def)

lemma job_of_update:
  assumes "row_frame f"
  shows "job_of (d\<lparr>outbox := update_where p f (outbox d)\<rparr>) i c \<longleftrightarrow> job_of d i c"
proof -
  have "map (\<lambda>r. (o_id r, o_payload r)) (update_where p f (outbox d)) = map (\<lambda>r. (o_id r, o_payload r)) (outbox d)"
    using assms by (intro map_key_update_where) (simp add: row_frame_def)
  then show ?thesis unfolding job_of_alt by (simp del: list.set_map)
qed

lemma tasks_ok_update:
  "row_frame f \<Longrightarrow> tasks_ok (d\<lparr>outbox := update_where p f (outbox d)\<rparr>) ts \<longleftrightarrow> tasks_ok d ts"
  by (simp add: tasks_ok_def job_of_update)

lemma well_update:
  "row_frame f \<Longrightarrow> well fl w \<Longrightarrow> well fl (w\<lparr>db := (db w)\<lparr>outbox := update_where p f (outbox (db w))\<rparr>\<rparr>)"
  by (simp add: well_def wf_update tasks_ok_update)

lemma well_faults: "fault_free_inv (well fl)"
  by (simp add: fault_free_inv_def well_def)

lemma wf_delete: "wf_outbox d \<Longrightarrow> wf_outbox (d\<lparr>outbox := delete_where p (outbox d)\<rparr>)"
  by (simp add: wf_outbox_def distinct_delete_where)

lemma tasks_ok_delete: "tasks_ok d ts \<Longrightarrow> tasks_ok (d\<lparr>outbox := delete_where p (outbox d)\<rparr>) ts"
  by (auto simp: tasks_ok_def job_of_def)

section \<open>The dispatcher keeps the invariant\<close>

lemma update_outbox_frame:
  assumes "fault_free_inv I" and "\<And>now. row_frame (f now)"
    and "\<And>w g p. row_frame g \<Longrightarrow> I w \<Longrightarrow> I (w\<lparr>db := (db w)\<lparr>outbox := update_where p g (outbox (db w))\<rparr>\<rparr>)"
  shows "keeps I (sql (update_outbox p f))"
  using assms by (intro keeps_sql) (auto simp: update_outbox_def)

text \<open>A predicate on worlds that only looks at what updates of rows leave alone.\<close>

definition frame_inv :: "(world \<Rightarrow> bool) \<Rightarrow> bool" where
  "frame_inv I \<longleftrightarrow> fault_free_inv I
     \<and> (\<forall>w g p. row_frame g \<longrightarrow> I w \<longrightarrow> I (w\<lparr>db := (db w)\<lparr>outbox := update_where p g (outbox (db w))\<rparr>\<rparr>))
     \<and> (\<forall>w a b. I w \<longrightarrow> I (w\<lparr>dropped_full := a, dropped_closed := b\<rparr>))"

lemma frame_inv_sql: "frame_inv I \<Longrightarrow> (\<And>now. row_frame (f now)) \<Longrightarrow> keeps I (sql (update_outbox p f))"
  unfolding frame_inv_def by (rule update_outbox_frame) blast+

lemma frame_inv_faults: "frame_inv I \<Longrightarrow> fault_free_inv I"
  by (simp add: frame_inv_def)

lemma frame_mark_running: "frame_inv I \<Longrightarrow> keeps I (mark_running i)"
  unfolding mark_running_def by (rule frame_inv_sql) (simp_all add: row_frame_def)

lemma frame_requeue: "frame_inv I \<Longrightarrow> keeps I (requeue_retryable_outbox i msg d)"
  unfolding requeue_retryable_outbox_def
  by (intro keeps_and_then keeps_return frame_inv_sql) (simp_all add: row_frame_def)

lemma frame_mark_dead: "frame_inv I \<Longrightarrow> keeps I (mark_outbox_dead i msg)"
  unfolding mark_outbox_dead_def
  by (intro keeps_and_then keeps_return frame_inv_sql) (simp_all add: row_frame_def)

lemma frame_requeue_rows: "frame_inv I \<Longrightarrow> keeps I (requeue_outbox_rows ids d)"
  unfolding requeue_outbox_rows_def
  by (intro keeps_if keeps_and_then keeps_return frame_inv_sql) (simp_all add: row_frame_def)

lemma frame_reclaim: "frame_inv I \<Longrightarrow> keeps I (reclaim_stale_running_outbox timeout)"
  unfolding reclaim_stale_running_outbox_def
  by (intro keeps_if keeps_return frame_inv_sql) (simp_all add: row_frame_def)

lemma frame_claim:
  assumes "frame_inv I" shows "keeps I (sql (claim_batch n))"
  using assms by (intro keeps_sql frame_inv_faults) (auto simp: claim_batch_def Let_def frame_inv_def row_frame_def)

text \<open>The three ways \<open>try_enqueue_outbox_task\<close> can go.\<close>

lemma try_enqueue_cases:
  assumes "try_enqueue_outbox_task i c w = (r0, w')"
  obtains (full) a b where "w' = w\<lparr>dropped_full := a, dropped_closed := b\<rparr>"
  | (unclaimed) r1 where "mark_running i w = (r1, w')" and "r1 \<noteq> Ok 1"
  | (sent) w1 where "mark_running i w = (Ok 1, w1)" and "w' = w1\<lparr>queue := queue w @ [from_outbox i c]\<rparr>"
      and "length (queue w) < queue_capacity w"
proof -
  obtain r w1 where m: "mark_running i w = (r, w1)" by (cases "mark_running i w")
  have q: "queue w1 = queue w"
    using m next_fault_fields(5) [of w]
    by (auto simp: mark_running_def sql_def update_outbox_def split: prod.splits if_splits simp del: next_fault_fields)
  consider "queue_closed w" | "\<not> queue_closed w" "queue_capacity w \<le> length (queue w)"
    | "\<not> queue_closed w" "length (queue w) < queue_capacity w" by fastforce
  then show ?thesis
  proof cases
    case 1
    then have "w' = w\<lparr>dropped_full := dropped_full w, dropped_closed := dropped_closed w + 1\<rparr>"
      using assms by (auto simp: try_enqueue_outbox_task_def attempt_def try_reserve_slot_def modify_def)
    then show ?thesis by (rule full)
  next
    case 2
    then have "w' = w\<lparr>dropped_full := dropped_full w + 1, dropped_closed := dropped_closed w\<rparr>"
      using assms by (auto simp: try_enqueue_outbox_task_def attempt_def try_reserve_slot_def modify_def)
    then show ?thesis by (rule full)
  next
    case 3
    then have w': "w' = (case r of Ok n \<Rightarrow> if n = 1 then w1\<lparr>queue := queue w @ [from_outbox i c]\<rparr> else w1 | _ \<Rightarrow> w1)"
      using m q assms
      by (cases r) (auto simp: try_enqueue_outbox_task_def attempt_def try_reserve_slot_def
          permit_send_def modify_def return_def)
    show ?thesis
    proof (cases "r = Ok 1")
      case True
      with 3 m w' show ?thesis by (intro sent [of w1]) simp_all
    next
      case False
      with m w' show ?thesis by (intro unclaimed [of r]) (auto split: result.splits)
    qed
  qed
qed

text \<open>The jobs a loop still has to enqueue.\<close>

definition jobs :: "database \<Rightarrow> (nat \<times> task_command) set \<Rightarrow> bool" where
  "jobs d js \<longleftrightarrow> (\<forall>(i, c)\<in>js. job_of d i c)"

definition well_jobs :: "queued_task list \<Rightarrow> (nat \<times> task_command) set \<Rightarrow> world \<Rightarrow> bool" where
  "well_jobs fl js w \<longleftrightarrow> well fl w \<and> jobs (db w) js"

lemma frame_well_jobs: "frame_inv (well_jobs fl js)"
  by (auto simp: frame_inv_def fault_free_inv_def well_jobs_def jobs_def well_def wf_update tasks_ok_update job_of_update)

lemma well_send:
  assumes "well_jobs fl js w" and "outbox_id t = None \<or> (\<exists>i. outbox_id t = Some i \<and> (i, command t) \<in> js)"
    and "length (queue w) < queue_capacity w"
  shows "well_jobs fl js (w\<lparr>queue := queue w @ [t]\<rparr>)"
  using assms by (fastforce simp: well_jobs_def well_def tasks_ok_def jobs_def)

lemma well_try_enqueue:
  assumes "(i, c) \<in> js"
  shows "keeps (well_jobs fl js) (try_enqueue_outbox_task i c :: (world, 'a, unit) prog)"
proof (rule keepsI)
  fix w assume w: "well_jobs fl js w"
  obtain r w' where run: "try_enqueue_outbox_task i c w = ((r :: ('a, unit) result), w')" by (metis surj_pair)
  from run have "well_jobs fl js w'"
  proof (cases rule: try_enqueue_cases)
    case (full a b)
    with w show ?thesis by (simp add: well_jobs_def well_def)
  next
    case (unclaimed r1)
    with keepsE [OF frame_mark_running [OF frame_well_jobs] unclaimed(1) w] show ?thesis by simp
  next
    case (sent w1)
    have "well_jobs fl js w1" using keepsE [OF frame_mark_running [OF frame_well_jobs] sent(1) w] .
    moreover have "queue w1 = queue w" "queue_capacity w1 = queue_capacity w"
      using sent(1) next_fault_fields(5,6) [of w]
      by (auto simp: mark_running_def sql_def update_outbox_def split: prod.splits if_splits simp del: next_fault_fields)
    ultimately show ?thesis
      using sent assms well_send [of fl js w1 "from_outbox i c"] by (simp add: from_outbox_def)
  qed
  with run show "well_jobs fl js (snd ((try_enqueue_outbox_task i c :: (world, 'a, unit) prog) w))" by simp
qed

lemma wf_job:
  assumes "wf_outbox d" and "r \<in> set (outbox d)" and "command_from_json (o_payload r) = Some c"
  shows "job_of d (o_id r) c"
proof -
  have "o_payload r' = command_to_json c" if "r' \<in> set (outbox d)" "o_id r' = o_id r" for r'
  proof -
    have "r' = r" using assms(1,2) that unfolding wf_outbox_def by (metis distinct_map inj_onD)
    moreover obtain c' where "o_payload r = command_to_json c'" using assms(1,2) unfolding wf_outbox_def by blast
    ultimately show ?thesis using assms(3) by simp
  qed
  then show ?thesis using assms(1,2) by (simp add: job_of_def wf_outbox_def)
qed

lemma wf_insert:
  assumes "wf_outbox d" and "insert_outbox c now d = Inr (i, d')"
  shows "wf_outbox d'" and "job_of d' i c" and "tasks_ok d ts \<Longrightarrow> tasks_ok d' ts"
proof -
  have fresh: "o_id r < next_outbox_id d" if "r \<in> set (outbox d)" for r
    using that assms(1) by (simp add: wf_outbox_def)
  then have fresh': "o_id r \<noteq> next_outbox_id d" if "r \<in> set (outbox d)" for r using that by fastforce
  have i: "i = next_outbox_id d" and d': "next_outbox_id d' = Suc i"
    and rows: "\<exists>r. outbox d' = outbox d @ [r] \<and> o_id r = i \<and> o_payload r = command_to_json c \<and> o_type r = command_type c"
    using assms(2) by (auto simp: insert_outbox_def)
  obtain r where r: "outbox d' = outbox d @ [r]" "o_id r = i" "o_payload r = command_to_json c" "o_type r = command_type c"
    using rows by blast
  have "i \<notin> o_id ` set (outbox d)" using fresh' i by (metis imageE)
  then have "distinct (map o_id (outbox d'))" using r assms(1) by (simp add: wf_outbox_def)
  moreover have "o_id q < next_outbox_id d'" if "q \<in> set (outbox d')" for q
    using that r fresh d' i less_Suc_eq by auto
  moreover have "\<exists>c. o_payload q = command_to_json c \<and> o_type q = command_type c" if "q \<in> set (outbox d')" for q
    using that r assms(1) by (auto simp: wf_outbox_def)
  ultimately show "wf_outbox d'" by (simp add: wf_outbox_def)
  show "job_of d' i c" using rows fresh' unfolding job_of_def d' i by auto
  show "tasks_ok d' ts" if "tasks_ok d ts"
    using that rows unfolding tasks_ok_def job_of_def d' i by (fastforce simp: less_Suc_eq)
qed

lemma well_submit: "keeps (well fl) (submit c)"
proof (rule keepsI)
  fix w assume w: "well fl w"
  obtain f w1 where nf: "next_fault w = (f, w1)" by (cases "next_fault w")
  have w1: "well fl w1" using fault_free_next [OF well_faults w nf] .
  obtain i d where ins: "insert_outbox c (clock w1) (db w1) = Inr (i, d)" by (simp add: insert_outbox_def)
  note W = wf_insert [OF _ ins]
  show "well fl (snd (submit c w))"
  proof (cases "f = NoFault")
    case True
    have "well_jobs fl {(i, c)} (w1\<lparr>db := d\<rparr>)"
      using w1 W by (simp add: well_jobs_def well_def jobs_def)
    from keepsD [OF well_try_enqueue [where ?'a = anyhow] this]
    have "well fl (snd ((try_enqueue_outbox_task i c :: (world, anyhow, unit) prog) (w1\<lparr>db := d\<rparr>)))"
      by (simp add: well_jobs_def)
    with True nf ins show ?thesis by (simp add: submit_def and_then_def sql_def)
  next
    case False
    with nf w1 show ?thesis by (simp add: submit_def and_then_def sql_def)
  qed
qed

lemma well_queue_in_memory: "keeps (well fl) (queue_in_memory c)"
proof (rule keepsI)
  fix w assume "well fl w"
  then show "well fl (snd (queue_in_memory c w))"
    by (auto simp: queue_in_memory_def and_then_def map_err_def try_reserve_slot_def permit_send_def
        modify_def in_memory_def well_def tasks_ok_def)
qed

definition row_jobs :: "(nat \<times> json) list \<Rightarrow> (nat \<times> task_command) set" where
  "row_jobs rows = {(i, c). \<exists>p. (i, p) \<in> set rows \<and> command_from_json p = Some c}"

lemma well_pump_rows:
  "row_jobs rows \<subseteq> js \<Longrightarrow> keeps (well_jobs fl js) (pump_rows rows n)"
proof (induction rows arbitrary: n)
  case Nil
  show ?case by (simp add: keeps_return)
next
  case (Cons x rest)
  obtain i payload where x: "x = (i, payload)" by (cases x)
  have IH: "keeps (well_jobs fl js) (pump_rows rest n')" for n'
    using Cons by (auto simp: row_jobs_def)
  show ?case
  proof (cases "command_from_json payload")
    case None
    with x IH show ?thesis
      by (auto intro!: keeps_and_then frame_mark_dead frame_well_jobs)
  next
    case (Some c)
    have ic: "(i, c) \<in> js" using Cons.prems x Some by (auto simp: row_jobs_def)
    show ?thesis
    proof (rule keepsI)
      fix w assume w: "well_jobs fl js w"
      have "well_jobs fl js (w\<lparr>queue := queue w @ [from_outbox i c]\<rparr>)"
        if "length (queue w) < queue_capacity w"
        using well_send [OF w _ that, of "from_outbox i c"] ic by (simp add: from_outbox_def)
      with keepsD [OF IH] w Some x show "well_jobs fl js (snd (pump_rows (x # rest) n w))"
        by (auto simp: attempt_def try_reserve_slot_def permit_send_def and_then_def modify_def return_def)
    qed
  qed
qed

lemma claim_jobs:
  assumes "well fl w" and "claim_batch n now (db w) = Inr (rows, d)"
  shows "well_jobs fl (row_jobs rows) (w\<lparr>db := d\<rparr>)"
proof -
  let ?f = "\<lambda>r. r\<lparr>o_status := Running, o_updated := now\<rparr>"
  let ?picked = "take n (due_rows now (db w))"
  have f: "row_frame ?f" by (simp add: row_frame_def)
  have d: "d = (db w)\<lparr>outbox := update_where (\<lambda>r. o_id r \<in> o_id ` set ?picked \<and> o_status r = Pending) ?f (outbox (db w))\<rparr>"
    and rows: "rows = map (\<lambda>r. (o_id r, o_payload r)) ?picked"
    using assms(2) by (simp_all add: claim_batch_def Let_def)
  have "set ?picked \<subseteq> set (outbox (db w))"
    using set_take_subset [of n "due_rows now (db w)"] by (auto simp: due_rows_def)
  then have "jobs (db w) (row_jobs rows)"
    using assms(1) wf_job [of "db w"] unfolding rows jobs_def row_jobs_def well_def by fastforce
  then have "well_jobs fl (row_jobs rows) w" using assms(1) by (simp add: well_jobs_def)
  with f show ?thesis unfolding d using frame_well_jobs unfolding frame_inv_def by blast
qed

lemma well_pump: "keeps (well fl) (pump_outbox_once n)"
proof (rule keepsI)
  fix w assume w: "well fl w"
  obtain f w1 where nf: "next_fault w = (f, w1)" by (cases "next_fault w")
  have w1: "well fl w1" using fault_free_next [OF well_faults w nf] .
  obtain rows d where cl: "claim_batch n (clock w1) (db w1) = Inr (rows, d)" by (simp add: claim_batch_def Let_def)
  let ?rest = "and_then (pump_rows rows 0) (\<lambda>(enqueued, remaining).
     and_then (if remaining \<noteq> [] then requeue_outbox_rows remaining (from_secs 1) else return ()) (\<lambda>_. return enqueued))"
  have "keeps (well_jobs fl (row_jobs rows)) ?rest"
    by (intro keeps_and_then keeps_case_prod keeps_if keeps_return well_pump_rows frame_requeue_rows frame_well_jobs subset_refl)
  from keepsD [OF this claim_jobs [OF w1 cl]]
  have "well fl (snd (?rest (w1\<lparr>db := d\<rparr>)))" by (simp add: well_jobs_def)
  moreover have "well fl (w1\<lparr>db := d\<rparr>)" using claim_jobs [OF w1 cl] by (simp add: well_jobs_def)
  ultimately show "well fl (snd (pump_outbox_once n w))"
    using w w1 nf cl by (simp add: pump_outbox_once_def and_then_def [of "sql _"] sql_def return_def)
qed

lemma well_recover_rows:
  "\<forall>r\<in>set rows. \<forall>c. command_from_json (o_payload r) = Some c \<longrightarrow> (o_id r, c) \<in> js \<Longrightarrow>
     keeps (well_jobs fl js) (recover_rows rows)"
proof (induction rows)
  case Nil
  show ?case by (simp add: keeps_return)
next
  case (Cons r rest)
  then show ?case
    by (cases "command_from_json (o_payload r)") (auto intro!: keeps_throw keeps_and_then well_try_enqueue)
qed

lemma frame_inv_well: "frame_inv (well fl)"
  by (auto simp: frame_inv_def fault_free_inv_def well_def wf_update tasks_ok_update)

lemma well_recover: "keeps (well fl) (recover_outbox_tasks timeout)"
proof -
  have rest: "keeps (well fl) (and_then (select due_rows) (\<lambda>rows. and_then (recover_rows rows)
      (\<lambda>_. return \<lparr>reclaimed_running = n, recovered_pending = length rows\<rparr>)))" (is "keeps _ ?m") for n
  proof (rule keepsI)
    fix w assume w: "well fl w"
    obtain f w1 where nf: "next_fault w = (f, w1)" by (cases "next_fault w")
    have w1: "well fl w1" using fault_free_next [OF well_faults w nf] .
    let ?rows = "due_rows (clock w1) (db w1)"
    let ?js = "{(o_id r, c) |r c. r \<in> set ?rows \<and> command_from_json (o_payload r) = Some c}"
    have "jobs (db w1) ?js" using w1 wf_job [of "db w1"] by (auto simp: jobs_def well_def due_rows_def)
    with w1 have "well_jobs fl ?js w1" by (simp add: well_jobs_def)
    from keepsD [OF well_recover_rows this, of ?rows] have "well fl (snd (recover_rows ?rows w1))"
      by (auto simp: well_jobs_def)
    with w1 nf show "well fl (snd (?m w))"
      by (auto simp: and_then_def select_def sql_def return_def split: prod.splits result.splits)
  qed
  show ?thesis unfolding recover_outbox_tasks_def
    by (intro keeps_and_then frame_reclaim frame_inv_well rest)
qed

lemma well_pull: "keeps (well fl) (pull_outbox_tasks n timeout)"
  unfolding pull_outbox_tasks_def
  by (intro keeps_and_then keeps_return frame_reclaim frame_inv_well well_pump)

lemma well_delete: "keeps (well fl) (delete_outbox_row i)"
  unfolding delete_outbox_row_def
  by (rule keeps_sql [OF well_faults]) (auto simp: well_def wf_delete tasks_ok_delete)

lemma frame_settle_error: "frame_inv I \<Longrightarrow> keeps I (settle_task oid (Inl e))"
  unfolding settle_task_def
  by (cases "kind e") (auto intro!: keeps_rules frame_requeue frame_mark_dead)

lemma well_settle: "keeps (well fl) (settle_task oid res)"
proof (cases res)
  case (Inl e)
  then show ?thesis using frame_settle_error [OF frame_inv_well] by simp
next
  case (Inr u)
  then show ?thesis by (cases oid) (auto simp: settle_task_def intro: keeps_return well_delete)
qed

lemma well_subset: "well fl w \<Longrightarrow> set fl' \<subseteq> set fl \<Longrightarrow> well fl' w"
  by (auto simp: well_def tasks_ok_def)

lemma step_ok:
  assumes "system_ok m s"
  shows "system_ok m (step m e s)"
proof -
  have w: "well (in_flight s) (shared s)" and len: "length (in_flight s) \<le> max m 1"
    using assms by (simp_all add: system_ok_def)
  show ?thesis
  proof (cases e)
    case Receive
    then show ?thesis using w len
      by (auto simp: system_ok_def receive_def well_def tasks_ok_def split: list.splits)
  next
    case (Settle k res)
    let ?fl = "take k (in_flight s) @ drop (Suc k) (in_flight s)"
    have "set ?fl \<subseteq> set (in_flight s)" by (auto dest: in_set_takeD in_set_dropD)
    with w have "well ?fl (shared s)" by (rule well_subset)
    with Settle len keepsD [OF well_settle this] w show ?thesis
      by (auto simp: system_ok_def settle_def intro: le_trans [OF diff_le_self])
  next
    case Crash
    with w show ?thesis by (simp add: system_ok_def well_def tasks_ok_def)
  qed (use w len in \<open>simp_all add: system_ok_def keepsD [OF well_submit] keepsD [OF well_queue_in_memory]
         keepsD [OF well_pull] keepsD [OF well_recover], simp_all add: well_def\<close>)
qed

text \<open>C9: In every reachable state of the task system, whatever the order of submissions, pulls,
  recoveries, worker steps, outages and crashes: outbox ids are unique, every payload decodes
  to its command (so the branches for undecodable payloads are never taken), a task in the
  channel or in a worker carries the command of its row, the channel holds at most its
  capacity, and at most \<open>max_in_flight\<close> (but at least one) commands run at once.\<close>

theorem task_system_invariant:
  assumes "reachable m s"
  shows "system_ok m s"
  using assms
proof (induction rule: reachable.induct)
  case (start w)
  then show ?case by (simp add: system_ok_def well_def wf_outbox_def tasks_ok_def)
qed (rule step_ok)

theorem task_system_invariant_witness:
  "system_ok 16 (step 16 Receive (step 16 (Submit (DeleteArchiveObjects [''a'']))
     \<lparr>shared = demo_world [] [], in_flight = [], stopping = False\<rparr>))"
  by (rule task_system_invariant, intro reachable.intros) (simp_all add: demo_world_def empty_db_def)

section \<open>No command is lost\<close>

text \<open>Predicates on the tables that insertions and updates of outbox rows keep.\<close>

definition db_stable :: "(database \<Rightarrow> bool) \<Rightarrow> bool" where
  "db_stable P \<longleftrightarrow>
     (\<forall>d g p. row_frame g \<longrightarrow> P d \<longrightarrow> P (d\<lparr>outbox := update_where p g (outbox d)\<rparr>))
     \<and> (\<forall>d d' c now i. insert_outbox c now d = Inr (i, d') \<longrightarrow> P d \<longrightarrow> P d')"

lemma stable_frame: "db_stable P \<Longrightarrow> frame_inv (\<lambda>w. P (db w))"
  by (auto simp: db_stable_def frame_inv_def fault_free_inv_def)

lemma stable_try_enqueue:
  assumes "db_stable P"
  shows "keeps (\<lambda>w. P (db w)) (try_enqueue_outbox_task i c)"
proof (rule keepsI)
  fix w :: world assume w: "P (db w)"
  obtain r w' where run: "try_enqueue_outbox_task i c w = ((r :: ('a, unit) result), w')" by (metis surj_pair)
  note M = frame_mark_running [OF stable_frame [OF assms], of i]
  from run have "P (db w')"
  proof (cases rule: try_enqueue_cases)
    case (full a b)
    with w show ?thesis by simp
  next
    case (unclaimed r1)
    with keepsE [OF M unclaimed(1) w] show ?thesis by simp
  next
    case (sent w1)
    with keepsE [OF M sent(1) w] show ?thesis by simp
  qed
  with run show "P (db (snd ((try_enqueue_outbox_task i c :: (world, 'a, unit) prog) w)))" by simp
qed

lemma stable_submit:
  assumes "db_stable P"
  shows "keeps (\<lambda>w. P (db w)) (submit c)"
proof -
  have ins: "\<And>d d' now i. insert_outbox c now d = Inr (i, d') \<Longrightarrow> P d \<Longrightarrow> P d'"
    using assms unfolding db_stable_def by blast
  have "keeps (\<lambda>w. P (db w)) (sql (insert_outbox c))"
    by (rule keeps_sql [OF frame_inv_faults [OF stable_frame [OF assms]]]) (simp add: ins)
  then show ?thesis unfolding submit_def by (intro keeps_and_then stable_try_enqueue assms)
qed

lemma stable_queue: "keeps (\<lambda>w. P (db w)) try_reserve_slot" "keeps (\<lambda>w. P (db w)) (permit_send t)"
  by (simp_all add: keeps_def try_reserve_slot_def permit_send_def modify_def)

lemma stable_queue_in_memory: "keeps (\<lambda>w. P (db w)) (queue_in_memory c)"
  unfolding queue_in_memory_def by (intro keeps_and_then keeps_map_err stable_queue)

lemma stable_pump_rows: "db_stable P \<Longrightarrow> keeps (\<lambda>w. P (db w)) (pump_rows rows n)"
proof (induction rows n rule: pump_rows.induct)
  case (2 i payload rest n)
  then show ?case
    by (auto intro!: keeps_and_then keeps_attempt keeps_return frame_mark_dead stable_frame stable_queue
        split: option.splits sum.splits)
qed (simp add: keeps_return)

lemma stable_pull: "db_stable P \<Longrightarrow> keeps (\<lambda>w. P (db w)) (pull_outbox_tasks n timeout)"
  unfolding pull_outbox_tasks_def pump_outbox_once_def
  by (intro keeps_and_then keeps_if keeps_case_prod keeps_return frame_reclaim frame_claim
      frame_requeue_rows stable_frame stable_pump_rows)

lemma stable_recover_rows: "db_stable P \<Longrightarrow> keeps (\<lambda>w. P (db w)) (recover_rows rows)"
  by (induction rows) (auto intro!: keeps_return keeps_throw keeps_and_then stable_try_enqueue split: option.splits)

lemma stable_recover: "db_stable P \<Longrightarrow> keeps (\<lambda>w. P (db w)) (recover_outbox_tasks timeout)"
  unfolding recover_outbox_tasks_def
  by (intro keeps_and_then keeps_return frame_reclaim stable_frame stable_recover_rows keeps_select frame_inv_faults)

text \<open>The command \<open>c\<close> is stored under the id \<open>i\<close>.\<close>

definition stored_command :: "nat \<Rightarrow> task_command \<Rightarrow> database \<Rightarrow> bool" where
  "stored_command i c d \<longleftrightarrow> (i, command_to_json c) \<in> (\<lambda>r. (o_id r, o_payload r)) ` set (outbox d)"

lemma stored_stable: "db_stable (stored_command i c)"
proof -
  have "stored_command i c (d\<lparr>outbox := update_where p g (outbox d)\<rparr>)"
    if "row_frame g" and "stored_command i c d" for g p d
  proof -
    have "map (\<lambda>r. (o_id r, o_payload r)) (update_where p g (outbox d)) = map (\<lambda>r. (o_id r, o_payload r)) (outbox d)"
      using that(1) by (intro map_key_update_where) (simp add: row_frame_def)
    with that(2) show ?thesis unfolding stored_command_def list.set_map [symmetric] by simp
  qed
  then show ?thesis by (auto simp: db_stable_def insert_outbox_def stored_command_def)
qed

text \<open>The command of row \<open>i\<close> succeeds during the run \<open>es\<close> from \<open>s\<close>.\<close>

fun run_events :: "nat \<Rightarrow> event list \<Rightarrow> task_system \<Rightarrow> task_system" where
  "run_events m [] s = s"
| "run_events m (e # es) s = run_events m es (step m e s)"

definition succeeds_now :: "nat \<Rightarrow> event \<Rightarrow> task_system \<Rightarrow> bool" where
  "succeeds_now i e s = (case e of
      Settle k (Inr _) \<Rightarrow> k < length (in_flight s) \<and> outbox_id (in_flight s ! k) = Some i
    | _ \<Rightarrow> False)"

fun succeeds :: "nat \<Rightarrow> nat \<Rightarrow> event list \<Rightarrow> task_system \<Rightarrow> bool" where
  "succeeds m i [] s = False"
| "succeeds m i (e # es) s = (succeeds_now i e s \<or> succeeds m i es (step m e s))"

lemma stored_settle:
  assumes "stored_command i c (db w)" and "res = Inr () \<longrightarrow> oid \<noteq> Some i"
  shows "stored_command i c (db (snd (settle_task oid res w)))"
proof (cases res)
  case (Inl e)
  with keepsD [OF frame_settle_error [OF stable_frame [OF stored_stable]] assms(1)] show ?thesis by simp
next
  case (Inr u)
  have "keeps (\<lambda>w. stored_command i c (db w)) (delete_outbox_row j)" if "j \<noteq> i" for j
    unfolding delete_outbox_row_def
    by (rule keeps_sql [OF frame_inv_faults [OF stable_frame [OF stored_stable]]])
       (use that in \<open>auto simp: stored_command_def\<close>)
  from keepsD [OF this assms(1)] assms Inr show ?thesis
    by (cases oid) (auto simp: settle_task_def return_def)
qed

lemma stored_step:
  assumes "stored_command i c (db (shared s))" and "\<not> succeeds_now i e s"
  shows "stored_command i c (db (shared (step m e s)))"
proof (cases e)
  case (Settle k res)
  with assms show ?thesis
    by (cases res) (auto simp: settle_def succeeds_now_def intro: stored_settle)
qed (use assms(1) stored_stable in \<open>simp_all add: receive_def keepsD [OF stable_submit] keepsD [OF stable_queue_in_memory]
       keepsD [OF stable_pull] keepsD [OF stable_recover] split: list.splits\<close>)

text \<open> A stored command stays in the outbox under its id, through any sequence of pulls,
  recoveries, failures, retries, outages, full or closed channels and crashes, until a run of
  it has succeeded.\<close>

theorem only_success_removes_a_command:
  assumes "stored_command i c (db (shared s))" and "\<not> succeeds m i es s"
  shows "stored_command i c (db (shared (run_events m es s)))"
  using assms
proof (induction es arbitrary: s)
  case (Cons e es)
  then show ?case by (auto intro: stored_step)
qed simp

definition demo_system :: task_system where
  "demo_system = \<lparr>shared = demo_world [] [], in_flight = [], stopping = False\<rparr>"

theorem only_success_removes_a_command_witness:
  "let s = step 16 (Submit (DeleteArchiveObjects [''a''])) demo_system;
       e = non_retryable AccessDenied ''denied'' [''a'']
   in stored_command 0 (DeleteArchiveObjects [''a''])
        (db (shared (run_events 16 [Receive, Outage [Down TimeoutError], Settle 0 (Inl e), Crash] s)))"
proof -
  let ?s = "step 16 (Submit (DeleteArchiveObjects [''a''])) demo_system"
  let ?es = "[Receive, Outage [Down TimeoutError], Settle 0 (Inl (non_retryable AccessDenied ''denied'' [''a''])), Crash]"
  have "stored_command 0 (DeleteArchiveObjects [''a'']) (db (shared ?s))"
    by (simp add: demo_system_def demo_world_def empty_db_def submit_def and_then_def sql_def insert_outbox_def
        try_enqueue_outbox_task_def attempt_def try_reserve_slot_def mark_running_def update_outbox_def
        update_where_def count_where_def permit_send_def modify_def stored_command_def)
  moreover have "\<not> succeeds 16 0 ?es ?s" by (simp add: succeeds_now_def)
  ultimately show ?thesis
    using only_success_removes_a_command [of 0 "DeleteArchiveObjects [''a'']" ?s 16 ?es] unfolding Let_def by blast
qed

lemma mark_running_new:
  assumes "outbox (db w) = rows @ [r0]" and "o_id r0 = i" and "o_status r0 = Pending"
    and "\<forall>r\<in>set rows. o_id r \<noteq> i" and "mark_running i w = (r, w')"
  shows "queue w' = queue w \<and>
     (if r = Ok 1 then \<exists>now. outbox (db w') = rows @ [r0\<lparr>o_status := Running, o_updated := now\<rparr>]
      else outbox (db w') = rows @ [r0])"
proof -
  obtain f w1 where nf: "next_fault w = (f, w1)" by (cases "next_fault w")
  have same: "db w1 = db w" "queue w1 = queue w" using next_fault_fields(1,5) [of w] nf by simp_all
  let ?p = "\<lambda>r. o_id r = i \<and> o_status r = Pending"
  have "filter ?p rows = []" "\<And>g. update_where ?p g rows = rows"
    using assms(4) by (auto simp: filter_empty_conv intro: update_where_none)
  then show ?thesis
    using assms(1-3,5) nf same
    by (auto simp: mark_running_def sql_def update_outbox_def count_where_def update_where_def split: if_splits)
qed

text \<open> A submission that returns \<open>Ok\<close> has stored its command in a new row, and the row is
  marked as running exactly when its task went into the channel: a full or closed channel, or
  a failing claim, leaves a pending row for the next pull.\<close>

theorem submit_stores_the_command:
  assumes "well fl w" and "submit c w = (Ok u, w')"
  shows "\<exists>r. outbox (db w') = outbox (db w) @ [r] \<and> o_id r = next_outbox_id (db w)
           \<and> o_payload r = command_to_json c
           \<and> (o_status r = Running \<and> queue w' = queue w @ [from_outbox (o_id r) c]
              \<or> o_status r = Pending \<and> queue w' = queue w)"
proof -
  let ?i = "next_outbox_id (db w)"
  obtain f w1 where nf: "next_fault w = (f, w1)" by (cases "next_fault w")
  have same: "db w1 = db w" "queue w1 = queue w" using next_fault_fields(1,5) [of w] nf by simp_all
  obtain r0 where ins: "insert_outbox c (clock w1) (db w1) = Inr (?i, (db w)\<lparr>outbox := outbox (db w) @ [r0],
        next_outbox_id := Suc ?i\<rparr>)" and r0: "o_id r0 = ?i" "o_payload r0 = command_to_json c" "o_status r0 = Pending"
    by (simp add: insert_outbox_def same)
  let ?w2 = "w1\<lparr>db := (db w)\<lparr>outbox := outbox (db w) @ [r0], next_outbox_id := Suc ?i\<rparr>\<rparr>"
  have none: "\<forall>r\<in>set (outbox (db w)). o_id r \<noteq> ?i"
    using assms(1) by (fastforce simp: well_def wf_outbox_def)
  have enq: "(try_enqueue_outbox_task ?i c :: (world, anyhow, unit) prog) ?w2 = (Ok u, w')"
    using assms(2) nf ins by (auto simp: submit_def and_then_def sql_def split: if_splits)
  have M: "mark_running ?i ?w2 = (r1, w3) \<Longrightarrow> queue w3 = queue w \<and>
     (if r1 = Ok 1 then \<exists>now. outbox (db w3) = outbox (db w) @ [r0\<lparr>o_status := Running, o_updated := now\<rparr>]
      else outbox (db w3) = outbox (db w) @ [r0])" for r1 w3
    using mark_running_new [of ?w2 "outbox (db w)" r0 ?i r1 w3] r0 none same by simp
  from enq show ?thesis
  proof (cases rule: try_enqueue_cases)
    case (full a b)
    then show ?thesis using r0 same by simp
  next
    case (unclaimed r1)
    then show ?thesis using M r0 by simp
  next
    case (sent w3)
    then show ?thesis using M [OF sent(1)] r0 same by auto
  qed
qed

theorem submit_stores_the_command_witness:
  "\<exists>w' r. submit (DeleteArchiveObjects [''a'']) (demo_world [] []) = (Ok (), w')
      \<and> outbox (db w') = [r] \<and> o_payload r = command_to_json (DeleteArchiveObjects [''a''])"
proof -
  let ?w = "demo_world [] []"
  have "well [] ?w" by (simp add: well_def wf_outbox_def tasks_ok_def demo_world_def empty_db_def)
  moreover obtain w' where run: "submit (DeleteArchiveObjects [''a'']) ?w = (Ok (), w')"
    by (simp add: demo_world_def empty_db_def submit_def and_then_def sql_def insert_outbox_def
        try_enqueue_outbox_task_def attempt_def try_reserve_slot_def mark_running_def update_outbox_def
        update_where_def count_where_def permit_send_def modify_def)
  ultimately have "\<exists>r. outbox (db w') = outbox (db ?w) @ [r] \<and> o_payload r = command_to_json (DeleteArchiveObjects [''a''])"
    using submit_stores_the_command by blast
  with run show ?thesis by (auto simp: demo_world_def empty_db_def)
qed

section \<open>Nobody else works on a claimed row\<close>

definition ids :: "queued_task list \<Rightarrow> nat list" where
  "ids ts = List.map_filter outbox_id ts"

lemma ids_append [simp]: "ids (ts @ us) = ids ts @ ids us"
  by (simp add: ids_def List.map_filter_def)

lemma ids_Cons [simp]: "ids (t # ts) = (case outbox_id t of None \<Rightarrow> ids ts | Some i \<Rightarrow> i # ids ts)"
  by (simp add: ids_def List.map_filter_def split: option.splits)

lemma ids_Nil [simp]: "ids [] = []"
  by (simp add: ids_def List.map_filter_def)

lemma in_ids_iff: "i \<in> set (ids ts) \<longleftrightarrow> (\<exists>t\<in>set ts. outbox_id t = Some i)"
  by (induction ts) (auto split: option.splits)

definition held :: "queued_task list \<Rightarrow> world \<Rightarrow> nat set" where
  "held fl w = set (ids (queue w @ fl))"

text \<open>Every row is held at most once, and a row that is held is marked as running.\<close>

definition owned :: "queued_task list \<Rightarrow> world \<Rightarrow> bool" where
  "owned fl w \<longleftrightarrow> distinct (ids (queue w @ fl))
     \<and> (\<forall>r\<in>set (outbox (db w)). o_id r \<in> held fl w \<longrightarrow> o_status r = Running)"

text \<open>No held row is old enough to be reclaimed.\<close>

definition timely :: "duration \<Rightarrow> queued_task list \<Rightarrow> world \<Rightarrow> bool" where
  "timely timeout fl w \<longleftrightarrow>
     (\<forall>r\<in>set (outbox (db w)). o_id r \<in> held fl w \<longrightarrow> clock w - seconds (delay_seconds timeout) \<le> o_updated r)"

definition event_timely :: "event \<Rightarrow> task_system \<Rightarrow> bool" where
  "event_timely e s = (case e of
      Pull _ timeout \<Rightarrow> timely timeout (in_flight s) (shared s)
    | Recover timeout \<Rightarrow> timely timeout (in_flight s) (shared s)
    | _ \<Rightarrow> True)"

lemma owned_faults: "fault_free_inv (owned fl)"
  by (simp add: fault_free_inv_def owned_def held_def)

lemma owned_update:
  assumes "owned fl w" and "row_frame g"
    and "\<And>r. r \<in> set (outbox (db w)) \<Longrightarrow> p r \<Longrightarrow> o_id r \<in> held fl w \<Longrightarrow> o_status (g r) = Running"
  shows "owned fl (w\<lparr>db := (db w)\<lparr>outbox := update_where p g (outbox (db w))\<rparr>\<rparr>)"
  using assms by (auto simp: owned_def held_def in_update_where row_frame_def)

lemma owned_mark_running: "keeps (owned fl) (mark_running i)"
  unfolding mark_running_def
  by (rule keeps_sql [OF owned_faults]) (auto simp: update_outbox_def row_frame_def intro!: owned_update)

lemma owned_update_free:
  assumes "\<And>now. row_frame (f now)"
  shows "keeps (\<lambda>w. owned fl w \<and> set is \<inter> held fl w = {}) (sql (update_outbox (\<lambda>_ r. o_id r \<in> set is) f))"
proof (rule keeps_sql)
  show "fault_free_inv (\<lambda>w. owned fl w \<and> set is \<inter> held fl w = {})"
    by (simp add: fault_free_inv_def owned_def held_def)
  fix w x d assume "owned fl w \<and> set is \<inter> held fl w = {}"
    and "update_outbox (\<lambda>_ r. o_id r \<in> set is) f (clock w) (db w) = Inr (x, d)"
  then show "owned fl (w\<lparr>db := d\<rparr>) \<and> set is \<inter> held fl (w\<lparr>db := d\<rparr>) = {}"
    using owned_update [of fl w "f (clock w)" "\<lambda>r. o_id r \<in> set is"] assms
    by (auto simp: update_outbox_def held_def)
qed

lemma mark_running_one:
  assumes "mark_running i w = (Ok 1, w')"
  shows "\<exists>r\<in>set (outbox (db w)). o_id r = i \<and> o_status r = Pending"
proof -
  obtain f w1 where nf: "next_fault w = (f, w1)" by (cases "next_fault w")
  have "db w1 = db w" using next_fault_fields(1) [of w] nf by simp
  then have "count_where (\<lambda>r. o_id r = i \<and> o_status r = Pending) (outbox (db w)) = 1"
    using assms nf by (auto simp: mark_running_def sql_def update_outbox_def split: if_splits)
  then show ?thesis using count_where_0_iff [of "\<lambda>r. o_id r = i \<and> o_status r = Pending" "outbox (db w)"] by auto
qed

lemma owned_send:
  assumes "owned fl w" and "outbox_id t = None \<or> (\<exists>i. outbox_id t = Some i \<and> i \<notin> held fl w
      \<and> (\<forall>r\<in>set (outbox (db w)). o_id r = i \<longrightarrow> o_status r = Running))"
  shows "owned fl (w\<lparr>queue := queue w @ [t]\<rparr>)"
  using assms by (auto simp: owned_def held_def)

lemma mark_running_marks:
  assumes "mark_running i w = (Ok 1, w')" and "owned fl w"
  shows "queue w' = queue w" and "i \<notin> held fl w'"
    and "distinct (map o_id (outbox (db w))) \<Longrightarrow> \<forall>r\<in>set (outbox (db w')). o_id r = i \<longrightarrow> o_status r = Running"
proof -
  obtain f w1 where nf: "next_fault w = (f, w1)" by (cases "next_fault w")
  have same: "db w1 = db w" "queue w1 = queue w" using next_fault_fields(1,5) [of w] nf by simp_all
  show q: "queue w' = queue w"
    using assms(1) nf same by (auto simp: mark_running_def sql_def update_outbox_def split: if_splits)
  from mark_running_one [OF assms(1)] assms(2) q show "i \<notin> held fl w'"
    by (auto simp: owned_def held_def)
  assume d: "distinct (map o_id (outbox (db w)))"
  from mark_running_one [OF assms(1)] obtain r where r: "r \<in> set (outbox (db w))" "o_id r = i" "o_status r = Pending"
    by blast
  have all: "o_status q = Pending" if "q \<in> set (outbox (db w))" "o_id q = i" for q
    using d that r by (metis distinct_map inj_onD)
  have rows: "outbox (db w') = update_where (\<lambda>r. o_id r = i \<and> o_status r = Pending)
      (\<lambda>r. r\<lparr>o_status := Running, o_updated := clock w1\<rparr>) (outbox (db w))"
    using assms(1) nf same by (auto simp: mark_running_def sql_def update_outbox_def split: if_splits)
  show "\<forall>r\<in>set (outbox (db w')). o_id r = i \<longrightarrow> o_status r = Running"
  proof (intro ballI impI)
    fix q assume "q \<in> set (outbox (db w'))" and q: "o_id q = i"
    then obtain x where x: "x \<in> set (outbox (db w))"
      "q = (if o_id x = i \<and> o_status x = Pending then x\<lparr>o_status := Running, o_updated := clock w1\<rparr> else x)"
      unfolding rows in_update_where by blast
    then show "o_status q = Running" using q all [OF x(1)] by (cases "o_id x = i") simp_all
  qed
qed

definition safe :: "queued_task list \<Rightarrow> world \<Rightarrow> bool" where
  "safe fl w \<longleftrightarrow> owned fl w \<and> distinct (map o_id (outbox (db w)))"

lemma safe_faults: "fault_free_inv (safe fl)"
  by (simp add: fault_free_inv_def safe_def owned_def held_def)

lemma safe_mark_running: "keeps (safe fl) (mark_running i)"
proof (rule keepsI)
  fix w assume "safe fl w"
  moreover have "db_stable (\<lambda>d. True)" by (simp add: db_stable_def)
  moreover have "map o_id (outbox (db (snd (mark_running i w)))) = map o_id (outbox (db w))"
    by (auto simp: mark_running_def sql_def update_outbox_def next_fault_def map_key_update_where split: list.splits)
  ultimately show "safe fl (snd (mark_running i w))"
    using keepsD [OF owned_mark_running] by (simp add: safe_def)
qed

lemma safe_try_enqueue: "keeps (safe fl) (try_enqueue_outbox_task i c)"
proof (rule keepsI)
  fix w assume w: "safe fl w"
  obtain r w' where run: "try_enqueue_outbox_task i c w = ((r :: ('a, unit) result), w')" by (metis surj_pair)
  from run have "safe fl w'"
  proof (cases rule: try_enqueue_cases)
    case (full a b)
    with w show ?thesis by (simp add: safe_def owned_def held_def)
  next
    case (unclaimed r1)
    with keepsE [OF safe_mark_running unclaimed(1) w] show ?thesis by simp
  next
    case (sent w1)
    have w1: "safe fl w1" using keepsE [OF safe_mark_running sent(1) w] .
    have "owned fl w" "distinct (map o_id (outbox (db w)))" using w by (simp_all add: safe_def)
    note M = mark_running_marks [OF sent(1) this(1)] mark_running_marks(3) [OF sent(1) this]
    have "owned fl (w1\<lparr>queue := queue w1 @ [from_outbox i c]\<rparr>)"
      using w1 M by (intro owned_send) (simp_all add: safe_def from_outbox_def)
    with w1 M(1) sent(2) show ?thesis by (simp add: safe_def)
  qed
  with run show "safe fl (snd ((try_enqueue_outbox_task i c :: (world, 'a, unit) prog) w))" by simp
qed

lemma sql_update_world:
  assumes "sql (update_outbox p f) w = (r, w')"
  obtains (failed) fs where "w' = w\<lparr>faults := fs\<rparr>"
  | (applied) fs where "w' = w\<lparr>db := (db w)\<lparr>outbox := update_where (p (clock w)) (f (clock w)) (outbox (db w))\<rparr>, faults := fs\<rparr>"
proof -
  obtain ft w1 where nf: "next_fault w = (ft, w1)" by (cases "next_fault w")
  obtain fs where w1: "w1 = w\<lparr>faults := fs\<rparr>" using next_fault_world [OF nf] by blast
  show ?thesis
  proof (cases "ft = NoFault")
    case True
    with assms nf w1 show ?thesis by (intro applied [of fs]) (auto simp: sql_def update_outbox_def)
  next
    case False
    with assms nf w1 show ?thesis by (intro failed [of fs]) (auto simp: sql_def)
  qed
qed

text \<open>Claimed rows that are not yet in the channel.\<close>

definition claimed :: "queued_task list \<Rightarrow> nat set \<Rightarrow> world \<Rightarrow> bool" where
  "claimed fl js w \<longleftrightarrow> js \<inter> held fl w = {} \<and> (\<forall>r\<in>set (outbox (db w)). o_id r \<in> js \<longrightarrow> o_status r = Running)"

lemma safe_update_id:
  assumes "safe fl w" and "row_frame g" and "i \<notin> held fl w"
  shows "safe fl (w\<lparr>db := (db w)\<lparr>outbox := update_where (\<lambda>r. o_id r = i) g (outbox (db w))\<rparr>\<rparr>)"
  using assms owned_update [of fl w g "\<lambda>r. o_id r = i"]
  by (auto simp: safe_def map_key_update_where row_frame_def)

lemma mark_dead_claimed:
  assumes "mark_outbox_dead i msg w = (r, w')" and "safe fl w" and "claimed fl (insert i js) w" and "i \<notin> js"
  shows "safe fl w' \<and> claimed fl js w'"
proof -
  let ?f = "\<lambda>now r. r\<lparr>o_status := Dead, o_attempts := o_attempts r + 1, o_error := Some msg, o_updated := now\<rparr>"
  obtain r1 where "sql (update_outbox (\<lambda>_ r. o_id r = i) ?f) w = (r1, w')"
    using assms(1) by (auto simp: mark_outbox_dead_def and_then_def return_def split: prod.splits result.splits)
  then show ?thesis
  proof (cases rule: sql_update_world)
    case (failed fs)
    with assms show ?thesis by (simp add: safe_def owned_def held_def claimed_def)
  next
    case (applied fs)
    let ?w = "w\<lparr>db := (db w)\<lparr>outbox := update_where (\<lambda>r. o_id r = i) (?f (clock w)) (outbox (db w))\<rparr>\<rparr>"
    have "safe fl ?w" using assms(2,3) by (intro safe_update_id) (auto simp: row_frame_def claimed_def)
    moreover have "claimed fl js ?w" using assms(3,4) by (auto simp: claimed_def held_def in_update_where)
    ultimately show ?thesis unfolding applied by (simp add: safe_def owned_def held_def claimed_def)
  qed
qed

lemma pump_rows_safe:
  assumes "pump_rows rows n w = (r, w')" and "safe fl w" and "distinct (map fst rows)"
    and "claimed fl (fst ` set rows) w"
  shows "safe fl w' \<and> (\<forall>k rem. r = Ok (k, rem) \<longrightarrow> set rem \<inter> held fl w' = {})"
  using assms
proof (induction rows arbitrary: n w)
  case Nil
  then show ?case by (auto simp: return_def)
next
  case (Cons x rest)
  obtain i payload where x: "x = (i, payload)" by (cases x)
  have i: "i \<notin> fst ` set rest" using Cons.prems(3) x by simp
  show ?case
  proof (cases "command_from_json payload")
    case None
    obtain r1 w1 where d: "mark_outbox_dead i ''invalid outbox payload'' w = (r1, w1)"
      by (cases "mark_outbox_dead i ''invalid outbox payload'' w")
    have D: "safe fl w1" "claimed fl (fst ` set rest) w1"
      using mark_dead_claimed [OF d Cons.prems(2) _ i] Cons.prems(4) x by simp_all
    show ?thesis
    proof (cases r1)
      case (Ok u)
      then have "pump_rows rest n w1 = (r, w')" using Cons.prems(1) x None d by (simp add: and_then_Ok)
      moreover have "distinct (map fst rest)" using Cons.prems(3) by simp
      ultimately show ?thesis using Cons.IH D by blast
    qed (use Cons.prems(1) x None d D in \<open>auto simp: and_then_def\<close>)
  next
    case (Some c)
    show ?thesis
    proof (cases "queue_closed w \<or> queue_capacity w \<le> length (queue w)")
      case True
      then have "r = Ok (n, i # map fst rest)" "w' = w"
        using Cons.prems(1) x Some by (auto simp: attempt_def try_reserve_slot_def return_def split: if_splits)
      with Cons.prems x show ?thesis by (auto simp: claimed_def)
    next
      case False
      let ?w = "w\<lparr>queue := queue w @ [from_outbox i c]\<rparr>"
      have run: "pump_rows rest (Suc n) ?w = (r, w')"
        using Cons.prems(1) x Some False
        by (auto simp: attempt_def try_reserve_slot_def permit_send_def and_then_def modify_def)
      have "owned fl ?w" using Cons.prems(2,4) x
        by (intro owned_send) (auto simp: safe_def claimed_def from_outbox_def)
      then have "safe fl ?w" using Cons.prems(2) by (simp add: safe_def)
      moreover have "claimed fl (fst ` set rest) ?w"
        using Cons.prems(4) x i by (auto simp: claimed_def held_def from_outbox_def)
      moreover have "distinct (map fst rest)" using Cons.prems(3) by simp
      ultimately show ?thesis using Cons.IH [OF run] by blast
    qed
  qed
qed

lemma claim_safe:
  assumes "safe fl w" and "claim_batch n now (db w) = Inr (rows, d)"
  shows "safe fl (w\<lparr>db := d\<rparr>)" and "distinct (map fst rows)" and "claimed fl (fst ` set rows) (w\<lparr>db := d\<rparr>)"
proof -
  let ?f = "\<lambda>r. r\<lparr>o_status := Running, o_updated := now\<rparr>"
  let ?picked = "take n (due_rows now (db w))"
  let ?p = "\<lambda>r. o_id r \<in> o_id ` set ?picked \<and> o_status r = Pending"
  have d: "d = (db w)\<lparr>outbox := update_where ?p ?f (outbox (db w))\<rparr>"
    and rows: "rows = map (\<lambda>r. (o_id r, o_payload r)) ?picked"
    using assms(2) by (simp_all add: claim_batch_def Let_def)
  have dist: "distinct (map o_id (outbox (db w)))" using assms(1) by (simp add: safe_def)
  have picked: "set ?picked \<subseteq> {r \<in> set (outbox (db w)). o_status r = Pending}"
    using set_take_subset [of n "due_rows now (db w)"] by (auto simp: due_rows_def)
  have "distinct (map o_id (due_rows now (db w)))"
    using dist distinct_map_filter [of o_id "outbox (db w)"] by (simp add: due_rows_def distinct_map)
  then show "distinct (map fst rows)" by (simp add: rows comp_def take_map [symmetric])
  show "safe fl (w\<lparr>db := d\<rparr>)"
    using assms(1) owned_update [of fl w ?f ?p] unfolding d safe_def
    by (simp add: row_frame_def map_key_update_where)
  have ids: "fst ` set rows = o_id ` set ?picked" by (force simp: rows)
  have pend: "o_status q = Pending" if "q \<in> set (outbox (db w))" "o_id q \<in> o_id ` set ?picked" for q
  proof -
    from that(2) obtain r where r: "r \<in> set ?picked" "o_id q = o_id r" by blast
    with picked have "r \<in> set (outbox (db w))" "o_status r = Pending" by auto
    with r that(1) dist show ?thesis by (metis distinct_map inj_onD)
  qed
  have "o_id ` set ?picked \<inter> held fl w = {}"
    using assms(1) picked by (fastforce simp: safe_def owned_def)
  moreover have "o_status r = Running" if r: "r \<in> set (outbox d)" "o_id r \<in> o_id ` set ?picked" for r
  proof -
    from r(1) obtain q where q: "q \<in> set (outbox (db w))" "r = (if ?p q then ?f q else q)"
      unfolding d by (auto simp: in_update_where)
    then have "o_id q = o_id r" by simp
    with pend [OF q(1)] r(2) have "?p q" by simp
    with q(2) show ?thesis by simp
  qed
  ultimately show "claimed fl (fst ` set rows) (w\<lparr>db := d\<rparr>)"
    unfolding ids claimed_def by (simp add: held_def)
qed

lemma safe_apply:
  assumes "safe fl w" and "row_frame g"
    and "owned fl (w\<lparr>db := (db w)\<lparr>outbox := update_where p g (outbox (db w))\<rparr>\<rparr>)"
  shows "safe fl (w\<lparr>db := (db w)\<lparr>outbox := update_where p g (outbox (db w))\<rparr>, faults := fs\<rparr>)"
  using assms by (simp add: safe_def owned_def held_def map_key_update_where row_frame_def)

lemma requeue_rows_safe:
  assumes "safe fl w" and "set rem \<inter> held fl w = {}"
  shows "safe fl (snd (requeue_outbox_rows rem d w))"
proof (cases "rem = []")
  case False
  let ?f = "\<lambda>now r. r\<lparr>o_status := Pending, o_next_retry := now + seconds (delay_seconds d), o_updated := now\<rparr>"
  obtain r1 w1 where run: "sql (update_outbox (\<lambda>_ r. o_id r \<in> set rem) ?f) w = (r1, w1)"
    by (cases "sql (update_outbox (\<lambda>_ r. o_id r \<in> set rem) ?f) w")
  from run have "safe fl w1"
  proof (cases rule: sql_update_world)
    case (failed fs)
    with assms(1) show ?thesis by (simp add: safe_def owned_def held_def)
  next
    case (applied fs)
    have "owned fl (w\<lparr>db := (db w)\<lparr>outbox := update_where (\<lambda>r. o_id r \<in> set rem) (?f (clock w)) (outbox (db w))\<rparr>\<rparr>)"
      using assms by (intro owned_update) (auto simp: safe_def row_frame_def)
    then show ?thesis using assms(1) unfolding applied
      by (simp add: safe_def owned_def held_def map_key_update_where)
  qed
  with False run show ?thesis
    by (cases r1) (simp_all add: requeue_outbox_rows_def and_then_def return_def)
qed (use assms(1) in \<open>simp add: requeue_outbox_rows_def return_def\<close>)

lemma safe_pump: "keeps (safe fl) (pump_outbox_once n)"
proof (rule keepsI)
  fix w assume w: "safe fl w"
  obtain f w1 where nf: "next_fault w = (f, w1)" by (cases "next_fault w")
  have w1: "safe fl w1" using fault_free_next [OF safe_faults w nf] .
  obtain rows d where cl: "claim_batch n (clock w1) (db w1) = Inr (rows, d)" by (simp add: claim_batch_def Let_def)
  note C = claim_safe [OF w1 cl]
  obtain r2 w2 where run: "pump_rows rows 0 (w1\<lparr>db := d\<rparr>) = (r2, w2)"
    by (cases "pump_rows rows 0 (w1\<lparr>db := d\<rparr>)")
  note P = pump_rows_safe [OF run C]
  have rest: "safe fl w3" if "r2 = Ok (k, rem)" "requeue_outbox_rows rem d w2 = (r3, w3)" for k rem d r3 w3
    using P that requeue_rows_safe [of fl w2 rem d] by simp
  show "safe fl (snd (pump_outbox_once n w))"
    using w w1 nf cl run P C(1)
    by (auto simp: pump_outbox_once_def and_then_def sql_def return_def
        split: result.splits prod.splits dest: rest)
qed

lemma safe_reclaim:
  assumes "safe fl w" and "timely timeout fl w"
  shows "safe fl (snd (reclaim_stale_running_outbox timeout w))"
proof (cases "timeout = 0")
  case False
  let ?p = "\<lambda>now r. o_status r = Running \<and> o_updated r < now - seconds (delay_seconds timeout)"
  let ?f = "\<lambda>now r. r\<lparr>o_status := Pending, o_next_retry := now,
                o_error := Some (case o_error r of
                    None \<Rightarrow> reclaim_note
                  | Some e \<Rightarrow> if e = [] then reclaim_note else e @ [nl] @ reclaim_note),
                o_updated := now\<rparr>"
  have frame: "row_frame (?f (clock w))" by (simp add: row_frame_def)
  obtain r1 w1 where run: "sql (update_outbox ?p ?f) w = (r1, w1)" by (cases "sql (update_outbox ?p ?f) w")
  from run have "safe fl w1"
  proof (cases rule: sql_update_world)
    case (failed fs)
    with assms(1) show ?thesis by (simp add: safe_def owned_def held_def)
  next
    case (applied fs)
    have "owned fl (w\<lparr>db := (db w)\<lparr>outbox := update_where (?p (clock w)) (?f (clock w)) (outbox (db w))\<rparr>\<rparr>)"
    proof (rule owned_update)
      show "owned fl w" using assms(1) by (simp add: safe_def)
      show "row_frame (?f (clock w))" by (rule frame)
      fix r assume "r \<in> set (outbox (db w))" "?p (clock w) r" "o_id r \<in> held fl w"
      with assms(2) have False unfolding timely_def by fastforce
      then show "o_status (?f (clock w) r) = Running" ..
    qed
    with assms(1) frame show ?thesis unfolding applied by (rule safe_apply)
  qed
  with False run show ?thesis unfolding reclaim_stale_running_outbox_def by simp
qed (use assms in \<open>simp add: reclaim_stale_running_outbox_def return_def\<close>)

lemma safe_pull:
  assumes "safe fl w" and "timely timeout fl w"
  shows "safe fl (snd (pull_outbox_tasks n timeout w))"
proof -
  obtain r1 w1 where run: "reclaim_stale_running_outbox timeout w = (r1, w1)"
    by (cases "reclaim_stale_running_outbox timeout w")
  have w1: "safe fl w1" using safe_reclaim [OF assms] run by simp
  have "keeps (safe fl) (and_then (pump_outbox_once n) (\<lambda>_. return ()))"
    by (intro keeps_and_then keeps_return safe_pump)
  from keepsD [OF this w1] w1 run show ?thesis
    by (cases r1) (simp_all add: pull_outbox_tasks_def and_then_def [of "reclaim_stale_running_outbox timeout"])
qed

lemma safe_recover_rows: "keeps (safe fl) (recover_rows rows)"
  by (induction rows) (auto intro!: keeps_return keeps_throw keeps_and_then safe_try_enqueue split: option.splits)

lemma safe_recover:
  assumes "safe fl w" and "timely timeout fl w"
  shows "safe fl (snd (recover_outbox_tasks timeout w))"
proof -
  obtain r1 w1 where run: "reclaim_stale_running_outbox timeout w = (r1, w1)"
    by (cases "reclaim_stale_running_outbox timeout w")
  have w1: "safe fl w1" using safe_reclaim [OF assms] run by simp
  have "keeps (safe fl) (and_then (select due_rows) (\<lambda>rows. and_then (recover_rows rows)
      (\<lambda>_. return \<lparr>reclaimed_running = k, recovered_pending = length rows\<rparr>)))" for k
    by (intro keeps_and_then keeps_return keeps_select safe_faults safe_recover_rows)
  from keepsD [OF this w1] w1 run show ?thesis
    by (cases r1) (simp_all add: recover_outbox_tasks_def and_then_def [of "reclaim_stale_running_outbox timeout"])
qed

lemma safe_insert:
  assumes "safe fl w" and "well fl w"
  shows "safe fl (snd (submit c w))"
proof -
  let ?i = "next_outbox_id (db w)"
  obtain f w1 where nf: "next_fault w = (f, w1)" by (cases "next_fault w")
  have w1: "safe fl w1" "well fl w1"
    using fault_free_next [OF safe_faults assms(1) nf] fault_free_next [OF well_faults assms(2) nf] by simp_all
  obtain i d where ins: "insert_outbox c (clock w1) (db w1) = Inr (i, d)" by (simp add: insert_outbox_def)
  have i: "i = next_outbox_id (db w1)" using ins by (simp add: insert_outbox_def)
  have new: "\<exists>r. outbox d = outbox (db w1) @ [r] \<and> o_id r = i" using ins by (auto simp: insert_outbox_def)
  have "i < next_outbox_id (db w1)" if "i \<in> held fl w1" for i
    using w1(2) that by (auto simp: held_def in_ids_iff well_def tasks_ok_def job_of_def simp del: ids_append)
  with i have "i \<notin> held fl w1" by blast
  then have "owned fl (w1\<lparr>db := d\<rparr>)" using w1(1) new by (auto simp: safe_def owned_def held_def)
  moreover have "wf_outbox d" using wf_insert(1) [OF _ ins] w1(2) by (simp add: well_def)
  ultimately have "safe fl (w1\<lparr>db := d\<rparr>)" by (simp add: safe_def wf_outbox_def)
  from keepsD [OF safe_try_enqueue [where ?'a = anyhow] this, of i c] nf ins w1(1) show ?thesis
    by (auto simp: submit_def and_then_def sql_def)
qed

lemma safe_queue_in_memory: "keeps (safe fl) (queue_in_memory c)"
proof (rule keepsI)
  fix w assume "safe fl w"
  then show "safe fl (snd (queue_in_memory c w))"
    by (auto simp: queue_in_memory_def and_then_def map_err_def try_reserve_slot_def permit_send_def
        modify_def in_memory_def safe_def owned_def held_def)
qed

lemma snd_then_return: "snd (and_then m (\<lambda>_. return x) s) = snd (m s)"
  by (simp add: and_then_def return_def split: prod.splits result.splits)

lemma snd_then_throw: "snd (and_then m (\<lambda>_. throw e) s) = snd (m s)"
  by (simp add: and_then_def throw_def split: prod.splits result.splits)

text \<open>Ending a task whose id nobody else holds.\<close>

lemma safe_settle:
  assumes "safe fl w" and "\<And>i. oid = Some i \<Longrightarrow> i \<notin> held fl w"
  shows "safe fl (snd (settle_task oid res w))"
proof -
  have upd: "safe fl (snd (sql (update_outbox (\<lambda>_ r. o_id r = i) f) w))"
    if "oid = Some i" and "\<And>now. row_frame (f now)" for i f
  proof -
    obtain r1 w1 where run: "sql (update_outbox (\<lambda>_ r. o_id r = i) f) w = (r1, w1)"
      by (cases "sql (update_outbox (\<lambda>_ r. o_id r = i) f) w")
    then have "safe fl w1"
    proof (cases rule: sql_update_world)
      case (failed fs)
      with assms(1) show ?thesis by (simp add: safe_def owned_def held_def)
    next
      case (applied fs)
      have "safe fl (w\<lparr>db := (db w)\<lparr>outbox := update_where (\<lambda>r. o_id r = i) (f (clock w)) (outbox (db w))\<rparr>\<rparr>)"
        using assms that by (intro safe_update_id) auto
      then show ?thesis unfolding applied by (simp add: safe_def owned_def held_def)
    qed
    with run show ?thesis by simp
  qed
  show ?thesis
  proof (cases res)
    case (Inl e)
    have "safe fl (snd (requeue_retryable_outbox i m d w))" "safe fl (snd (mark_outbox_dead i m w))"
      if "oid = Some i" for i m d
      unfolding requeue_retryable_outbox_def mark_outbox_dead_def snd_then_return
      by (rule upd [OF that]; simp add: row_frame_def)+
    with assms(1) Inl show ?thesis
      by (auto simp: settle_task_def snd_then_throw return_def split: option.splits error_kind.splits)
  next
    case (Inr u)
    have "keeps (safe fl) (delete_outbox_row i)" for i
      unfolding delete_outbox_row_def
      by (rule keeps_sql [OF safe_faults]) (auto simp: safe_def owned_def held_def distinct_delete_where)
    from keepsD [OF this assms(1)] Inr assms(1) show ?thesis
      by (cases oid) (simp_all add: settle_task_def return_def)
  qed
qed

lemma safe_in_flight:
  assumes "safe fl w" and "k < length fl"
  shows "safe (take k fl @ drop (Suc k) fl) w"
    and "outbox_id (fl ! k) = Some i \<Longrightarrow> i \<notin> held (take k fl @ drop (Suc k) fl) w"
proof -
  have fl: "fl = take k fl @ fl ! k # drop (Suc k) fl" using assms(2) by (rule id_take_nth_drop)
  have "safe (take k fl @ fl ! k # drop (Suc k) fl) w"
    unfolding fl [symmetric] by (rule assms(1))
  then show "outbox_id (fl ! k) = Some i \<Longrightarrow> i \<notin> held (take k fl @ drop (Suc k) fl) w"
    and "safe (take k fl @ drop (Suc k) fl) w"
    by (auto simp: held_def safe_def owned_def split: option.splits)
qed

lemma step_safe:
  assumes "system_ok m s" and "safe (in_flight s) (shared s)" and "event_timely e s"
  shows "safe (in_flight (step m e s)) (shared (step m e s))"
proof (cases e)
  case (Settle k res)
  show ?thesis
  proof (cases "k < length (in_flight s)")
    case True
    note S = safe_in_flight [OF assms(2) True]
    from safe_settle [OF S(1), of "outbox_id (in_flight s ! k)"] S(2) True Settle show ?thesis
      by (simp add: settle_def)
  qed (use assms Settle in \<open>simp add: settle_def\<close>)
next
  case Receive
  with assms(2) show ?thesis
    by (auto simp: receive_def safe_def owned_def held_def split: list.splits option.splits)
next
  case Crash
  with assms(2) show ?thesis by (simp add: safe_def owned_def held_def)
next
  case (Pull n timeout)
  with assms show ?thesis by (simp add: event_timely_def safe_pull)
next
  case (Recover timeout)
  with assms show ?thesis by (simp add: event_timely_def safe_recover)
next
  case (Submit c)
  with assms show ?thesis by (simp add: system_ok_def safe_insert)
next
  case (SubmitInMemory c)
  with assms(2) keepsD [OF safe_queue_in_memory] show ?thesis by simp
qed (use assms(2) in \<open>simp_all add: safe_def owned_def held_def\<close>)

fun all_timely :: "nat \<Rightarrow> event list \<Rightarrow> task_system \<Rightarrow> bool" where
  "all_timely m [] s = True"
| "all_timely m (e # es) s = (event_timely e s \<and> all_timely m es (step m e s))"

text \<open>C13: As long as no pull and no recovery finds a row that is queued or being worked on older
  than the running timeout, no row is ever held twice: its id occurs at most once in the
  channel and the workers together, and the row is marked as running for as long.\<close>

theorem claimed_rows_have_one_owner:
  assumes "outbox (db w) = []" and "queue w = []"
    and "all_timely m es \<lparr>shared = w, in_flight = [], stopping = False\<rparr>"
    and "s = run_events m es \<lparr>shared = w, in_flight = [], stopping = False\<rparr>"
  shows "distinct (ids (queue (shared s) @ in_flight s))
     \<and> (\<forall>r\<in>set (outbox (db (shared s))).
          o_id r \<in> set (ids (queue (shared s) @ in_flight s)) \<longrightarrow> o_status r = Running)"
proof -
  have run: "safe (in_flight (run_events m es s0)) (shared (run_events m es s0))"
    if "system_ok m s0" "safe (in_flight s0) (shared s0)" "all_timely m es s0" for s0
    using that
  proof (induction es arbitrary: s0)
    case (Cons e es)
    then show ?case using step_ok step_safe by simp
  qed simp
  have "system_ok m \<lparr>shared = w, in_flight = [], stopping = False\<rparr>"
    and "safe [] w"
    using assms(1,2) by (simp_all add: system_ok_def well_def wf_outbox_def tasks_ok_def safe_def owned_def)
  with run [of "\<lparr>shared = w, in_flight = [], stopping = False\<rparr>"] assms(3) show ?thesis
    unfolding assms(4) safe_def owned_def held_def by simp
qed

text \<open>
  The first command runs; the claim of the second fails, a second later the pull claims its row, a recovery finds nothing to do,
  and a third command is submitted.
\<close>

definition busy_events :: "event list" where
  "busy_events = [Submit (DeleteArchiveObjects [''a'']), Receive, Outage [NoFault, Down TimeoutError], Submit (DeleteArchiveObjects [''b'']),
     Work [] 1000000, Pull 100 (from_secs 300), Recover (from_secs 300), Submit (DeleteArchiveObjects [''c''])]"

lemma busy_run:
  "all_timely 16 busy_events demo_system"
  "ids (queue (shared (run_events 16 busy_events demo_system)) @ in_flight (run_events 16 busy_events demo_system)) = [1, 2, 0]"
  "map o_id (outbox (db (shared (run_events 16 busy_events demo_system)))) = [0, 1, 2]"
  by (simp_all add: busy_events_def demo_system_def demo_world_def empty_db_def submit_def and_then_def sql_def insert_outbox_def
      try_enqueue_outbox_task_def attempt_def try_reserve_slot_def mark_running_def update_outbox_def
      update_where_def count_where_def permit_send_def modify_def receive_def from_outbox_def
      pull_outbox_tasks_def reclaim_stale_running_outbox_def delay_seconds_def as_secs_def from_secs_def
      seconds_def pump_outbox_once_def claim_batch_def due_rows_def return_def Let_def
      command_from_json_def recover_outbox_tasks_def select_def next_fault_def event_timely_def timely_def held_def)

theorem claimed_rows_have_one_owner_witness:
  "let s = run_events 16 busy_events demo_system in
     all_timely 16 busy_events demo_system \<and> ids (queue (shared s) @ in_flight s) = [1, 2, 0]
     \<and> distinct (ids (queue (shared s) @ in_flight s)) \<and> map o_status (outbox (db (shared s))) = [Running, Running, Running]"
proof -
  let ?s = "run_events 16 busy_events demo_system"
  have "outbox (db (demo_world [] [])) = []" "queue (demo_world [] []) = []" by (simp_all add: demo_world_def empty_db_def)
  from claimed_rows_have_one_owner [OF this, of 16 busy_events ?s] busy_run(1)
  have one: "distinct (ids (queue (shared ?s) @ in_flight ?s))"
    "\<forall>r\<in>set (outbox (db (shared ?s))). o_id r \<in> set (ids (queue (shared ?s) @ in_flight ?s)) \<longrightarrow> o_status r = Running"
    by (simp_all add: demo_system_def)
  then have "o_status r = Running" if "r \<in> set (outbox (db (shared ?s)))" for r
  proof -
    have "o_id r \<in> set (map o_id (outbox (db (shared ?s))))" using that by simp
    then have "o_id r \<in> set (ids (queue (shared ?s) @ in_flight ?s))" unfolding busy_run(2,3) by auto
    with one(2) that show ?thesis by blast
  qed
  moreover have "length (outbox (db (shared ?s))) = 3" using arg_cong [OF busy_run(3), of length] by simp
  ultimately have "map o_status (outbox (db (shared ?s))) = replicate 3 Running"
    using map_replicate_const [of Running "outbox (db (shared ?s))"] by (metis (no_types, lifting) map_cong)
  then have "map o_status (outbox (db (shared ?s))) = [Running, Running, Running]" by (simp add: numeral_3_eq_3)
  with one busy_run(1,2) show ?thesis by (simp add: Let_def)
qed

section \<open>Stale and due rows are dispatched\<close>

lemma pump_rows_room:
  assumes "\<forall>(i, p)\<in>set rows. command_from_json p = Some (cmd p)"
    and "\<not> queue_closed w" and "length (queue w) + length rows \<le> queue_capacity w"
  shows "pump_rows rows n w =
     (Ok (n + length rows, []), w\<lparr>queue := queue w @ map (\<lambda>(i, p). from_outbox i (cmd p)) rows\<rparr>)"
  using assms
proof (induction rows arbitrary: n w)
  case Nil
  then show ?case by (simp add: return_def)
next
  case (Cons x rest)
  obtain i p where x: "x = (i, p)" by (cases x)
  then show ?case
    using Cons.prems Cons.IH [of "w\<lparr>queue := queue w @ [from_outbox i (cmd p)]\<rparr>" "Suc n"]
    by (simp add: attempt_def try_reserve_slot_def permit_send_def and_then_def modify_def)
qed

text \<open>A row the next pull may take: due and pending, or running for too long.\<close>

definition eligible :: "duration \<Rightarrow> int \<Rightarrow> outbox_row \<Rightarrow> bool" where
  "eligible timeout now r \<longleftrightarrow> (o_status r = Pending \<and> o_next_retry r \<le> now)
     \<or> (timeout \<noteq> 0 \<and> o_status r = Running \<and> o_updated r < now - seconds (delay_seconds timeout))"

lemma reclaim_no_fault:
  assumes "faults w = []" and "wf_outbox (db w)"
  obtains n d where "reclaim_stale_running_outbox timeout w = (Ok n, w\<lparr>db := d\<rparr>)" and "wf_outbox d"
    and "map (\<lambda>r. (o_id r, o_payload r)) (filter (\<lambda>r. o_status r = Pending \<and> o_next_retry r \<le> clock w) (outbox d))
       = map (\<lambda>r. (o_id r, o_payload r)) (filter (eligible timeout (clock w)) (outbox (db w)))"
proof -
  let ?p = "\<lambda>r. timeout \<noteq> 0 \<and> o_status r = Running \<and> o_updated r < clock w - seconds (delay_seconds timeout)"
  let ?f = "\<lambda>r. r\<lparr>o_status := Pending, o_next_retry := clock w,
                o_error := Some (case o_error r of
                    None \<Rightarrow> reclaim_note
                  | Some e \<Rightarrow> if e = [] then reclaim_note else e @ [nl] @ reclaim_note),
                o_updated := clock w\<rparr>"
  let ?d = "(db w)\<lparr>outbox := update_where ?p ?f (outbox (db w))\<rparr>"
  have "row_frame ?f" by (simp add: row_frame_def)
  then have "wf_outbox ?d" using assms(2) by (rule wf_update)
  moreover have "\<exists>n. reclaim_stale_running_outbox timeout w = (Ok n, w\<lparr>db := ?d\<rparr>)"
    using assms(1) update_where_none [of "outbox (db w)" "\<lambda>_. False"]
    by (cases "timeout = 0")
       (simp_all add: reclaim_stale_running_outbox_def sql_def update_outbox_def return_def)
  moreover have "map (\<lambda>r. (o_id r, o_payload r)) (filter (\<lambda>r. o_status r = Pending \<and> o_next_retry r \<le> clock w) (outbox ?d))
       = map (\<lambda>r. (o_id r, o_payload r)) (filter (eligible timeout (clock w)) (outbox (db w)))"
  proof -
    have "(\<lambda>r. o_status r = Pending \<and> o_next_retry r \<le> clock w) \<circ> (\<lambda>r. if ?p r then ?f r else r) = eligible timeout (clock w)"
      by (rule ext) (auto simp: eligible_def comp_def)
    then show ?thesis by (simp add: update_where_def filter_map comp_def cong: if_cong)
  qed
  ultimately show ?thesis using that by blast
qed

text \<open>A pump with room sends the tasks of all due rows.\<close>

lemma pump_dispatches:
  assumes "faults w = []" and "\<not> queue_closed w" and due: "due = due_rows (clock w) (db w)"
    and "\<And>r. r \<in> set due \<Longrightarrow> command_from_json (o_payload r) = Some (cmd (o_payload r))"
    and "length due \<le> batch" and "length (queue w) + length due \<le> queue_capacity w"
  shows "\<exists>w'. pump_outbox_once batch w = (Ok (length due), w')
    \<and> (\<forall>r\<in>set due. from_outbox (o_id r) (cmd (o_payload r)) \<in> set (queue w'))"
proof (cases "due = []")
  case True
  with assms(1) due show ?thesis
    by (cases "batch = 0") (simp_all add: pump_outbox_once_def claim_batch_def and_then_def sql_def return_def)
next
  case False
  let ?rows = "map (\<lambda>r. (o_id r, o_payload r)) due"
  obtain d' where cl: "claim_batch batch (clock w) (db w) = Inr (?rows, d')"
    using assms(5) by (simp add: claim_batch_def Let_def due)
  have "\<forall>(i, p)\<in>set ?rows. command_from_json p = Some (cmd p)" using assms(4) by auto
  from pump_rows_room [OF this, of "w\<lparr>db := d'\<rparr>" 0] assms(2,6)
  have "pump_rows ?rows 0 (w\<lparr>db := d'\<rparr>) = (Ok (length due, []),
      w\<lparr>db := d', queue := queue w @ map (\<lambda>(i, p). from_outbox i (cmd p)) ?rows\<rparr>)" by simp
  moreover have "batch \<noteq> 0" using False assms(5) by (cases due) simp_all
  ultimately show ?thesis using False cl assms(1)
    by (auto simp: pump_outbox_once_def and_then_def sql_def return_def)
qed

text \<open>C35: When the database answers, the channel is open and has room for all eligible rows, and
  the batch is large enough, one pull puts every due pending row and every row that has been
  running for longer than the timeout into the channel with its own command. So the work of a
  worker that died is taken up again, and a refused row is not forgotten.\<close>

theorem pull_dispatches_eligible_rows:
  assumes "well fl w" and "faults w = []" and "\<not> queue_closed w"
    and "length (filter (eligible timeout (clock w)) (outbox (db w))) \<le> batch"
    and "length (queue w) + length (filter (eligible timeout (clock w)) (outbox (db w))) \<le> queue_capacity w"
  shows "\<exists>w'. pull_outbox_tasks batch timeout w = (Ok (), w')
     \<and> (\<forall>r\<in>set (outbox (db w)). eligible timeout (clock w) r \<longrightarrow>
          (\<exists>c. o_payload r = command_to_json c \<and> from_outbox (o_id r) c \<in> set (queue w')))"
proof -
  let ?key = "\<lambda>r. (o_id r, o_payload r)"
  let ?E = "filter (eligible timeout (clock w)) (outbox (db w))"
  have wf: "wf_outbox (db w)" using assms(1) by (simp add: well_def)
  obtain n d where rec: "reclaim_stale_running_outbox timeout w = (Ok n, w\<lparr>db := d\<rparr>)"
    and E: "map ?key (filter (\<lambda>r. o_status r = Pending \<and> o_next_retry r \<le> clock w) (outbox d)) = map ?key ?E"
    by (rule reclaim_no_fault [OF assms(2) wf])
  define due where "due = due_rows (clock w) d"
  have len: "length due = length ?E" and keys: "?key ` set due = ?key ` set ?E"
    using arg_cong [OF E, of length] arg_cong [OF E, of set] by (simp_all add: due_def due_rows_def)
  define cmd where "cmd = (\<lambda>p. the (command_from_json p))"
  have dec: "command_from_json (o_payload r) = Some (cmd (o_payload r)) \<and> o_payload r = command_to_json (cmd (o_payload r))"
    if "r \<in> set (outbox (db w))" for r
    using wf that by (auto simp: wf_outbox_def cmd_def)
  have "command_from_json (o_payload r) = Some (cmd (o_payload r))" if "r \<in> set due" for r
  proof -
    have "?key r \<in> ?key ` set ?E" using that unfolding keys [symmetric] by simp
    then show ?thesis using dec by auto
  qed
  with pump_dispatches [of "w\<lparr>db := d\<rparr>" due cmd batch] assms(2-5) len
  obtain w' where pump: "pump_outbox_once batch (w\<lparr>db := d\<rparr>) = (Ok (length due), w')"
    and sent: "\<forall>r\<in>set due. from_outbox (o_id r) (cmd (o_payload r)) \<in> set (queue w')" by (auto simp: due_def)
  have "from_outbox (o_id r) (cmd (o_payload r)) \<in> set (queue w')"
    if "r \<in> set (outbox (db w))" "eligible timeout (clock w) r" for r
  proof -
    have "?key r \<in> ?key ` set due" using that unfolding keys by simp
    with sent show ?thesis by auto
  qed
  moreover have "pull_outbox_tasks batch timeout w = (Ok (), w')"
    using rec pump by (simp add: pull_outbox_tasks_def and_then_def return_def)
  ultimately show ?thesis using dec by blast
qed

definition stale_row :: outbox_row where
  "stale_row = \<lparr>o_id = 0, o_type = ''DeleteArchiveObjects'',
     o_payload = command_to_json (DeleteArchiveObjects [''a'']), o_status = Running, o_attempts = 0,
     o_next_retry = 0, o_error = None, o_updated = 0\<rparr>"

definition stale_world :: world where
  "stale_world = (demo_world [] [])\<lparr>db := empty_db\<lparr>outbox := [stale_row], next_outbox_id := 1\<rparr>,
     clock := 301000000\<rparr>"

lemma eligible_stale: "eligible (from_secs 300) 301000000 stale_row"
  by (simp add: eligible_def stale_row_def delay_seconds_small seconds_def) (simp add: from_secs_def)

theorem pull_dispatches_eligible_rows_witness:
  "\<exists>w'. pull_outbox_tasks 100 (from_secs 300) stale_world = (Ok (), w')
     \<and> from_outbox 0 (DeleteArchiveObjects [''a'']) \<in> set (queue w')"
proof -
  have w: "outbox (db stale_world) = [stale_row]" "clock stale_world = 301000000" "queue stale_world = []"
    "queue_capacity stale_world = 2" "faults stale_world = []" "\<not> queue_closed stale_world"
    by (simp_all add: stale_world_def demo_world_def)
  have "o_payload stale_row = command_to_json (DeleteArchiveObjects [''a''])"
    and "o_type stale_row = command_type (DeleteArchiveObjects [''a''])" by (simp_all add: stale_row_def)
  then have "\<exists>c. o_payload stale_row = command_to_json c \<and> o_type stale_row = command_type c" by blast
  moreover have "o_id stale_row < next_outbox_id (db stale_world)" by (simp add: stale_world_def stale_row_def)
  ultimately have "wf_outbox (db stale_world)" unfolding wf_outbox_def w by simp
  then have "well [] stale_world" by (simp add: well_def tasks_ok_def w)
  from pull_dispatches_eligible_rows [OF this w(5,6), of "from_secs 300" 100] eligible_stale w
  obtain w' c where "pull_outbox_tasks 100 (from_secs 300) stale_world = (Ok (), w')"
    "o_payload stale_row = command_to_json c" "from_outbox (o_id stale_row) c \<in> set (queue w')"
    by auto
  moreover from this(2) have "c = DeleteArchiveObjects [''a'']"
    by (metis command_from_to_json option.inject outbox_row.select_convs(3) stale_row_def)
  ultimately show ?thesis by (auto simp: stale_row_def)
qed

text \<open>Delivery is at least once: a command that runs for longer than the running timeout (301
  against the default 300 seconds) is reclaimed and handed out a second time while the first
  run is still going on.\<close>

theorem slow_command_runs_twice:
  "ids (in_flight (run_events 16
      [Submit (DeleteArchiveObjects [''a'']), Receive, Work [] 301000000, Pull 100 (from_secs 300), Receive]
      demo_system)) = [0, 0]"
  by (simp add: demo_system_def demo_world_def empty_db_def submit_def and_then_def sql_def insert_outbox_def
      try_enqueue_outbox_task_def attempt_def try_reserve_slot_def mark_running_def update_outbox_def
      update_where_def count_where_def permit_send_def modify_def receive_def from_outbox_def
      pull_outbox_tasks_def reclaim_stale_running_outbox_def delay_seconds_def as_secs_def from_secs_def
      seconds_def pump_outbox_once_def claim_batch_def due_rows_def return_def Let_def
      command_from_json_def)

end
