(* ===== verification/Access.thy ===== *)
theory Access
  imports Demo
begin

text \<open>
  \<open>middleware/auth.rs\<close> and \<open>modules/admin/api_rule/\<close>: who may call which route. A request
  reaches its handler with the claims of its token; a user who is no administrator needs a
  rule that covers path and method. The rules are granted, revoked and listed by the
  administrators, and the routes a user has are computed from them.
\<close>

section \<open>Requests to the database as application errors\<close>

text \<open>\<open>.map_err(|e| AppError::UnexpectedError(e.into()))\<close>.\<close>

definition unexpected :: "('s, anyhow, 'a) prog \<Rightarrow> ('s, app_error, 'a) prog" where
  "unexpected m = map_err UnexpectedError m"

lemma keeps_unexpected [keeps_rules]: "keeps I m \<Longrightarrow> keeps I (unexpected m)"
  by (simp add: unexpected_def keeps_map_err)

lemma select_no_fault: "faults w = [] \<Longrightarrow> select q w = (Ok (q (clock w) (db w)), w)"
  by (simp add: select_def sql_def)

lemma unexpected_select_no_fault [simp]: "faults w = [] \<Longrightarrow> unexpected (select q) w = (Ok (q (clock w) (db w)), w)"
  by (simp add: unexpected_def map_err_def select_no_fault)

lemma unexpected_select_OkD:
  assumes "unexpected (select q) w = (Ok x, w')"
  shows "x = q (clock w) (db w) \<and> (\<exists>fs. w' = w\<lparr>faults := fs\<rparr>)"
proof -
  obtain f w1 where nf: "next_fault w = (f, w1)" by (cases "next_fault w")
  have same: "db w1 = db w" "clock w1 = clock w" using next_fault_fields(1,8) [of w] nf by simp_all
  obtain fs where "w1 = w\<lparr>faults := fs\<rparr>" using next_fault_world [OF nf] by blast
  with assms nf same show ?thesis by (auto simp: unexpected_def select_def sql_def split: if_splits)
qed

section \<open>The middleware\<close>

record http_request =
  authorization :: "string option"
  req_path :: string
  req_method :: string

definition basic_permissions :: "(string \<times> string) list" where
  "basic_permissions = [(''/api/user/'', ''ALL'')]"

definition parse_token :: "http_request \<Rightarrow> string option" where
  "parse_token req = Option.bind (authorization req) (strip_prefix ''Bearer '')"

definition check_token :: "externs \<Rightarrow> int \<Rightarrow> string \<Rightarrow> app_error + claims" where
  "check_token X now token =
     (case x_jwt_decode X now token of
        Inr c \<Rightarrow> Inr c
      | Inl ExpiredSignature \<Rightarrow> Inl JwtExpired
      | Inl OtherJwtError \<Rightarrow> Inl Unauthorized)"

text \<open>\<open>fetch_one\<close>: no row is an error.\<close>

definition fetch_one :: "(database \<Rightarrow> 'a option) \<Rightarrow> (world, anyhow, 'a) prog" where
  "fetch_one q = and_then (select (\<lambda>_ d. q d))
     (\<lambda>r. case r of None \<Rightarrow> throw (DbErr None) | Some x \<Rightarrow> return x)"

definition check_user_enabled :: "claims \<Rightarrow> (world, app_error, unit) prog" where
  "check_user_enabled c =
     and_then (unexpected (fetch_one (\<lambda>d. map_option u_active (row_by u_id (sub c) (users d)))))
       (\<lambda>act. if \<not> act then throw UserDisabled else return ())"

text \<open>The \<open>WHERE\<close> clause of \<open>check_user_role\<close>.\<close>

definition rule_permits :: "int \<Rightarrow> uuid \<Rightarrow> string \<Rightarrow> string \<Rightarrow> rule_row \<Rightarrow> bool" where
  "rule_permits now uid p m r \<longleftrightarrow>
     r_user r = uid
     \<and> (r_method r = ''ALL'' \<or> r_method r = m)
     \<and> (case r_expires r of None \<Rightarrow> True | Some e \<Rightarrow> now < e)
     \<and> (right_is_slash (r_pattern r) \<and> p = rtrim_slash (r_pattern r) \<or> like (r_pattern r @ ''%'') p)"

definition has_permission :: "int \<Rightarrow> database \<Rightarrow> uuid \<Rightarrow> string \<Rightarrow> string \<Rightarrow> bool" where
  "has_permission now d uid p m = list_ex (rule_permits now uid p m) (rules d)"

definition check_user_role :: "uuid \<Rightarrow> string \<Rightarrow> string \<Rightarrow> (world, app_error, unit) prog" where
  "check_user_role uid p m =
     (if list_ex (\<lambda>(pat, pm). prefix pat p \<and> (pm = ''ALL'' \<or> pm = m)) basic_permissions
      then return ()
      else and_then (unexpected (select (\<lambda>now d. has_permission now d uid p m)))
             (\<lambda>ok. if \<not> ok then throw (Forbidden ''user lacks permission'') else return ()))"

text \<open>
  \<open>mw_authentication\<close>; \<open>next\<close> is the rest of the request, which gets the claims
  (\<open>AuthenticatedUser\<close>).
\<close>

definition mw_authentication :: "externs \<Rightarrow> http_request \<Rightarrow> (claims \<Rightarrow> (world, app_error, 'a) prog) \<Rightarrow>
    (world, app_error, 'a) prog" where
  "mw_authentication X req next =
     (case parse_token req of
        None \<Rightarrow> throw Unauthorized
      | Some token \<Rightarrow>
          (\<lambda>w. (case check_token X (clock w) token of
             Inl e \<Rightarrow> throw e
           | Inr c \<Rightarrow>
               and_then (check_user_enabled c) (\<lambda>_.
               and_then (if role c = USER then check_user_role (sub c) (req_path req) (req_method req) else return ())
                 (\<lambda>_. next c))) w))"

section \<open>Requests about rules\<close>

record grant_request =
  g_user :: uuid
  g_pattern :: string
  g_expires :: "int option"
  g_method :: http_method
  g_desc :: "string option"

text \<open>\<open>API_PATTERN_REGEX\<close>: \<open>^(/[a-z_0-9-]+)+/$\<close>.\<close>

definition pattern_char :: "char \<Rightarrow> bool" where
  "pattern_char c \<longleftrightarrow> is_lower c \<or> is_digit c \<or> c = CHR ''_'' \<or> c = CHR ''-''"

definition api_pattern_ok :: "string \<Rightarrow> bool" where
  "api_pattern_ok s =
     (case split_on (CHR ''/'') s of
        [] \<Rightarrow> False
      | seg # segs \<Rightarrow> seg = [] \<and> segs \<noteq> [] \<and> last segs = [] \<and> butlast segs \<noteq> []
          \<and> list_all (\<lambda>x. x \<noteq> [] \<and> list_all pattern_char x) (butlast segs))"

definition one_error :: "string \<Rightarrow> string \<Rightarrow> string \<Rightarrow> validation_errors" where
  "one_error field c m = [(field, [\<lparr>ve_code = c, ve_message = Some m\<rparr>])]"

definition length_error :: "string \<Rightarrow> nat \<Rightarrow> nat \<Rightarrow> string \<Rightarrow> string \<Rightarrow> validation_errors" where
  "length_error field lo hi m s =
     (if char_count s < lo \<or> hi < char_count s then one_error field ''length'' m else [])"

definition nonempty_error :: "string \<Rightarrow> string \<Rightarrow> string \<Rightarrow> validation_errors" where
  "nonempty_error field m s = (if char_count s < 1 then one_error field ''length'' m else [])"

definition option_errors :: "('a \<Rightarrow> validation_errors) \<Rightarrow> 'a option \<Rightarrow> validation_errors" where
  "option_errors f v = (case v of None \<Rightarrow> [] | Some x \<Rightarrow> f x)"

text \<open>\<open>validate\<close> of the request: an error entry per failing field.\<close>

definition validate_grant :: "int \<Rightarrow> grant_request \<Rightarrow> validation_errors" where
  "validate_grant now req =
     (if api_pattern_ok (g_pattern req) then []
      else one_error ''api_pattern'' ''regex'' ''malformed API path, it starts and ends with a slash'')
     @ (case g_expires req of
          None \<Rightarrow> []
        | Some e \<Rightarrow> if e \<le> now then one_error ''expires_at'' ''invalid_expires_at'' ''the expiry must be in the future''
                    else [])"

text \<open>The errors of one field are reported together.\<close>

fun merge_error :: "string \<times> validation_error list \<Rightarrow> validation_errors \<Rightarrow> validation_errors" where
  "merge_error (f, es) [] = [(f, es)]"
| "merge_error (f, es) ((g, gs) # rest) =
     (if f = g then (g, es @ gs) # rest else (g, gs) # merge_error (f, es) rest)"

definition require_valid :: "(int \<Rightarrow> validation_errors) \<Rightarrow> (world, app_error, unit) prog" where
  "require_valid f w =
     (case f (clock w) of
        [] \<Rightarrow> (Ok (), w)
      | e # es \<Rightarrow> (Err (ValidationError (foldr merge_error (e # es) [])), w))"

section \<open>Routes\<close>

definition build_template_route_info :: "externs \<Rightarrow> uuid \<Rightarrow> string \<Rightarrow> string \<Rightarrow> route_info list" where
  "build_template_route_info X tid nm cat =
     (let base = ''/api/archive/'' @ x_uuid_str X tid; rn = cat @ ''-'' @ nm in
      [\<lparr>route_method = POST, path = base @ ''/create/'', category = cat, description = rn @ ''&creates '' @ rn\<rparr>,
       \<lparr>route_method = GET, path = base @ ''/init_upload/'', category = cat,
          description = rn @ ''&starts an upload session for '' @ rn\<rparr>,
       \<lparr>route_method = POST, path = base @ ''/presigned/'', category = cat,
          description = rn @ ''&gets an upload URL for '' @ rn\<rparr>,
       \<lparr>route_method = POST, path = base @ ''/query/'', category = cat, description = rn @ ''&queries '' @ rn\<rparr>,
       \<lparr>route_method = DELETE, path = base @ ''/delete/'', category = cat, description = rn @ ''&deletes '' @ rn\<rparr>,
       \<lparr>route_method = GET, path = base @ ''/info/'', category = cat, description = rn @ ''&describes '' @ rn\<rparr>])"

definition registry_routes_of :: "externs \<Rightarrow> database \<Rightarrow> route_info list" where
  "registry_routes_of X d =
     fold (\<lambda>t routes. routes_extend (build_template_route_info X (t_id t) (t_name t) (t_category t)) routes)
       (filter t_active (templates d)) route_registry"

definition get_registry_routes :: "externs \<Rightarrow> (world, app_error, route_info list) prog" where
  "get_registry_routes X = unexpected (select (\<lambda>_ d. registry_routes_of X d))"

definition do_filter_with_prefix :: "string \<Rightarrow> http_method \<Rightarrow> route_info list \<Rightarrow> route_info list" where
  "do_filter_with_prefix pre m routes =
     filter (\<lambda>r. prefix pre (path r) \<and> (route_method r = m \<or> m = METHOD_ALL)) routes"

text \<open>The rules of a user that \<open>get_effective_rules_for_user\<close> counts as not expired.\<close>

definition effective_rules :: "uuid \<Rightarrow> int \<Rightarrow> database \<Rightarrow> (string \<times> http_method) list" where
  "effective_rules uid now d =
     map (\<lambda>r. (r_pattern r, method_from (r_method r)))
       (filter (\<lambda>r. r_user r = uid \<and> (case r_expires r of None \<Rightarrow> True | Some e \<Rightarrow> now \<le> e)) (rules d))"

definition get_effective_rules_for_user :: "uuid \<Rightarrow> (world, app_error, (string \<times> http_method) list) prog" where
  "get_effective_rules_for_user uid = unexpected (select (effective_rules uid))"

definition do_filter_with_user_exists_rules ::
  "route_info list \<Rightarrow> uuid \<Rightarrow> (world, app_error, route_info list) prog" where
  "do_filter_with_user_exists_rules routes uid =
     and_then (get_effective_rules_for_user uid) (\<lambda>urules.
       return (filter (\<lambda>r. list_all (\<lambda>(pat, m). \<not> prefix pat (path r) \<or> (route_method r \<noteq> m \<and> m \<noteq> METHOD_ALL)) urules)
                 routes))"

text \<open>\<open>modules/user/service.rs\<close>.\<close>

definition get_user_effective_routes :: "externs \<Rightarrow> uuid \<Rightarrow> (world, app_error, route_info list) prog" where
  "get_user_effective_routes X uid =
     and_then (get_effective_rules_for_user uid) (\<lambda>urules.
     and_then (get_registry_routes X) (\<lambda>routes.
       return (filter (\<lambda>r. list_ex (\<lambda>(pat, m). prefix pat (path r) \<and> (route_method r = m \<or> METHOD_ALL = m)) urules)
                 routes)))"

record routes_filter =
  rf_prefix :: "string option"
  rf_method :: "http_method option"
  rf_user :: "uuid option"

definition get_registry_routes_handler :: "externs \<Rightarrow> routes_filter \<Rightarrow>
    (world, app_error, route_info list app_response) prog" where
  "get_registry_routes_handler X f =
     and_then (get_registry_routes X) (\<lambda>routes.
       let pre = coalesce (rf_prefix f) []; m = coalesce (rf_method f) METHOD_ALL;
           routes' = do_filter_with_prefix pre m routes
       in and_then (case rf_user f of None \<Rightarrow> return routes' | Some uid \<Rightarrow> do_filter_with_user_exists_rules routes' uid)
            (\<lambda>rs. return (resp_success_msg rs ''routes found'')))"

section \<open>Granting and revoking\<close>

record api_rule_dto =
  dto_rule :: uuid
  dto_pattern :: string
  dto_method :: http_method
  dto_expires :: "int option"
  dto_created :: int
  dto_granted :: "uuid option"

text \<open>The \<open>WHERE\<close> clause of \<open>check_api_rule_conflict\<close>.\<close>

definition broader_rule :: "grant_request \<Rightarrow> rule_row \<Rightarrow> bool" where
  "broader_rule req r \<longleftrightarrow>
     r_user r = g_user req
     \<and> like (r_pattern r @ ''%'') (g_pattern req)
     \<and> (r_method r = ''ALL'' \<or> r_method r = method_as_str (g_method req))
     \<and> (case r_expires r of
          None \<Rightarrow> True
        | Some e \<Rightarrow> (case g_expires req of None \<Rightarrow> False | Some e' \<Rightarrow> e' \<le> e))"

definition check_api_rule_conflict :: "grant_request \<Rightarrow> (world, app_error, unit) prog" where
  "check_api_rule_conflict req =
     and_then (unexpected (select (\<lambda>_ d. find (broader_rule req) (rules d))))
       (\<lambda>r. case r of Some r \<Rightarrow> throw (ApiRuleConflict (r_id r)) | None \<Rightarrow> return ())"

definition check_api_rule_validity :: "externs \<Rightarrow> string \<Rightarrow> http_method \<Rightarrow> (world, app_error, unit) prog" where
  "check_api_rule_validity X pre m =
     and_then (get_registry_routes X) (\<lambda>routes.
       if do_filter_with_prefix pre m routes = [] then throw (DataNotFound ''no matching route'') else return ())"

text \<open>
  The upsert: the column width first, then the unique key
  \<open>(user_id, api_pattern, http_method)\<close> decides between insert and update; a new row needs an unused primary key,
  and both need the foreign keys. It returns
  \<open>rule_id\<close> and \<open>created_at\<close> of the row.
\<close>

definition upsert_rule :: "uuid \<Rightarrow> grant_request \<Rightarrow> uuid \<Rightarrow> (uuid \<times> int) stmt" where
  "upsert_rule fresh req granter now d =
     (let same = (\<lambda>r. r_user r = g_user req \<and> r_pattern r = g_pattern req
                      \<and> r_method r = method_as_str (g_method req))
      in if 255 < char_count (g_pattern req) then Inl ''22001''
         else if find same (rules d) = None \<and> fresh \<in> r_id ` set (rules d) then Inl ''23505''
         else if g_user req \<notin> u_id ` set (users d) \<or> granter \<notin> u_id ` set (users d) then Inl ''23503''
         else (case find same (rules d) of
             Some r \<Rightarrow>
               Inr ((r_id r, r_created r),
                    d\<lparr>rules := update_where same
                        (\<lambda>r. r\<lparr>r_expires := g_expires req, r_granted := Some granter, r_desc := g_desc req\<rparr>) (rules d)\<rparr>)
           | None \<Rightarrow>
               Inr ((fresh, now),
                    d\<lparr>rules := rules d @ [\<lparr>r_id = fresh, r_user = g_user req, r_pattern = g_pattern req,
                        r_method = method_as_str (g_method req), r_desc = g_desc req, r_expires = g_expires req,
                        r_granted = Some granter, r_created = now\<rparr>]\<rparr>)))"

definition grant_user_api_access_rule :: "grant_request \<Rightarrow> uuid \<Rightarrow> (world, app_error, api_rule_dto) prog" where
  "grant_user_api_access_rule req granter =
     and_then (check_api_rule_conflict req) (\<lambda>_.
     and_then new_uuid (\<lambda>fresh.
     and_then (map_err (\<lambda>e. if e = DbErr (Some ''23503'') then DataNotFound ''user not found'' else UnexpectedError e)
                 (sql (upsert_rule fresh req granter))) (\<lambda>(rid, created).
     return \<lparr>dto_rule = rid, dto_pattern = g_pattern req, dto_method = g_method req,
              dto_expires = g_expires req, dto_created = created, dto_granted = Some granter\<rparr>)))"

definition grant_user_api_rule_handler :: "externs \<Rightarrow> grant_request \<Rightarrow> claims \<Rightarrow>
    (world, app_error, api_rule_dto app_response) prog" where
  "grant_user_api_rule_handler X req user =
     and_then (require_valid (\<lambda>now. validate_grant now req)) (\<lambda>_.
     and_then (check_api_rule_validity X (g_pattern req) (g_method req)) (\<lambda>_.
     and_then (grant_user_api_access_rule req (sub user)) (\<lambda>dto.
     return (resp_created dto ''rule granted''))))"

definition revoke_user_api_access_rule :: "uuid \<Rightarrow> (world, app_error, unit) prog" where
  "revoke_user_api_access_rule rid =
     and_then (unexpected (sql (\<lambda>_ d. Inr (count_where (\<lambda>r. r_id r = rid) (rules d),
                 d\<lparr>rules := delete_where (\<lambda>r. r_id r = rid) (rules d)\<rparr>))))
       (\<lambda>n. if n = 0 then throw (DataNotFound ''API access rule not found'') else return ())"

definition revoke_user_api_rule_handler :: "uuid \<Rightarrow> (world, app_error, unit app_response) prog" where
  "revoke_user_api_rule_handler rid =
     and_then (revoke_user_api_access_rule rid) (\<lambda>_. return (resp_ok_msg ''rule revoked''))"

section \<open>Listing\<close>

record query_rules_request =
  qr_user :: "uuid option"
  qr_page :: i64
  qr_page_size :: i64

definition validate_page :: "i64 \<Rightarrow> i64 \<Rightarrow> validation_errors" where
  "validate_page p ps =
     (if sint p < 1 then one_error ''page'' ''range'' ''the page is at least 1'' else [])
     @ (if sint ps < 1 then one_error ''page_size'' ''range'' ''the page size is at least 1'' else [])"

text \<open>
  \<open>ORDER BY\<close> sorts by a key; the order of rows with equal keys is left to the database (\<open>tie\<close> ranks the rows
  before they are sorted). A page is cut out of the sorted rows.
\<close>

definition in_order :: "(nat \<Rightarrow> nat) \<Rightarrow> ('r \<Rightarrow> int) \<Rightarrow> 'r list \<Rightarrow> 'r list" where
  "in_order tie key rows = sort_key key (map snd (sort_key (\<lambda>(i, _). tie i) (enumerate 0 rows)))"

definition page_query :: "i64 \<Rightarrow> i64 \<Rightarrow> ('r \<Rightarrow> int) \<Rightarrow> ('r \<Rightarrow> 'd) \<Rightarrow> (database \<Rightarrow> 'r list) \<Rightarrow> 'd list stmt" where
  "page_query p ps key to_dto q now d =
     (case limit_offset ps (offset p ps) (map to_dto (in_order (ties d ps (offset p ps) now) key (q d))) of
        None \<Rightarrow> Inl (if sint ps < 0 then ''2201W'' else ''2201X'')
      | Some rows \<Rightarrow> Inr (rows, d))"

definition rule_to_dto :: "rule_row \<Rightarrow> api_rule_dto" where
  "rule_to_dto r = \<lparr>dto_rule = r_id r, dto_pattern = r_pattern r, dto_method = method_from (r_method r),
     dto_expires = r_expires r, dto_created = r_created r, dto_granted = r_granted r\<rparr>"

text \<open>The count compares with the user only when one is given; the rows always do.\<close>

definition query_user_api_access_rules :: "query_rules_request \<Rightarrow>
    (world, app_error, api_rule_dto page_data) prog" where
  "query_user_api_access_rules req =
     and_then (unexpected (select (\<lambda>_ d. word_of_int (int (count_where
                 (\<lambda>r. qr_user req = None \<or> Some (r_user r) = qr_user req) (rules d))) :: i64))) (\<lambda>cnt.
     and_then (unexpected (sql (page_query (qr_page req) (qr_page_size req) (\<lambda>r. - r_created r) rule_to_dto (\<lambda>d.
        filter (\<lambda>r. Some (r_user r) = qr_user req) (rules d))))) (\<lambda>rows.
     return (page_data_from rows cnt (qr_page req) (qr_page_size req))))"

definition query_user_api_access_rules_handler :: "query_rules_request \<Rightarrow>
    (world, app_error, api_rule_dto page_data app_response) prog" where
  "query_user_api_access_rules_handler req =
     and_then (require_valid (\<lambda>_. validate_page (qr_page req) (qr_page_size req))) (\<lambda>_.
     and_then (query_user_api_access_rules req) (\<lambda>pd.
     return (resp_success_msg pd ''rules found'')))"

section \<open>Patterns\<close>

lemma split_on_join: "concat (map (\<lambda>x. x @ [c]) (butlast (split_on c s))) @ last (split_on c s) = s"
proof (induction c s rule: split_on.induct)
  case (2 c x xs)
  then show ?case by (cases "split_on c xs") (auto split: list.splits)
qed simp

lemma api_pattern_shape:
  assumes "api_pattern_ok s"
  obtains t where "s = t @ ''/''" and "t \<noteq> []" and "last t \<noteq> CHR ''/''"
    and "CHR ''%'' \<notin> set s" and "CHR 0x5C \<notin> set s" and "prefix ''/'' s"
proof -
  from assms obtain segs where sp: "split_on (CHR ''/'') s = [] # segs" and ne: "segs \<noteq> []" "last segs = []"
      "butlast segs \<noteq> []" and ok: "\<forall>x\<in>set (butlast segs). x \<noteq> [] \<and> list_all pattern_char x"
    by (auto simp: api_pattern_ok_def list_all_iff split: list.splits)
  let ?bs = "butlast segs"
  have s: "s = ''/'' @ concat (map (\<lambda>x. x @ ''/'') ?bs)"
    using split_on_join [of "CHR ''/''" s] ne by (simp add: sp)
  have bs: "?bs = butlast ?bs @ [last ?bs]" using ne(3) by simp
  let ?t = "''/'' @ concat (map (\<lambda>x. x @ ''/'') (butlast ?bs)) @ last ?bs"
  have st: "s = ?t @ ''/''"
    unfolding s by (subst bs) (simp del: append_butlast_last_id)
  have lastok: "last ?bs \<noteq> []" "list_all pattern_char (last ?bs)" using ok ne(3) by auto
  then have "last ?t = last (last ?bs)" by simp
  moreover have "pattern_char (last (last ?bs))" using lastok by (simp add: list_all_iff)
  moreover have "\<not> pattern_char (CHR ''/'')" by code_simp
  ultimately have "last ?t \<noteq> CHR ''/''" by metis
  moreover have "c \<in> set s \<Longrightarrow> c = CHR ''/'' \<or> pattern_char c" for c
    using ok unfolding s by (auto simp: list_all_iff split: if_splits)
  moreover have "\<not> pattern_char (CHR ''%'')" "\<not> pattern_char (CHR 0x5C)" by code_simp+
  ultimately show ?thesis using that [of ?t] st lastok s by auto
qed

text \<open>What a rule for \<open>pat\<close> is meant to cover: the pattern without its final slash, and
  everything below it.\<close>

definition covers :: "string \<Rightarrow> string \<Rightarrow> bool" where
  "covers pat p \<longleftrightarrow> prefix pat p \<or> p @ ''/'' = pat"

lemma sql_clause_covers:
  assumes "api_pattern_ok pat"
  shows "covers pat p \<Longrightarrow> right_is_slash pat \<and> p = rtrim_slash pat \<or> like (pat @ ''%'') p"
    and "CHR ''_'' \<notin> set pat \<Longrightarrow>
      right_is_slash pat \<and> p = rtrim_slash pat \<or> like (pat @ ''%'') p \<Longrightarrow> covers pat p"
proof -
  from assms obtain t where t: "pat = t @ ''/''" "t \<noteq> []" "last t \<noteq> CHR ''/''"
    and lit: "CHR ''%'' \<notin> set pat" "CHR 0x5C \<notin> set pat" by (rule api_pattern_shape)
  have rt: "right_is_slash pat" "rtrim_slash pat = t"
    using t rtrim_slash_id [of t] by (simp_all add: right_is_slash_def rtrim_slash_snoc)
  show "covers pat p \<Longrightarrow> right_is_slash pat \<and> p = rtrim_slash pat \<or> like (pat @ ''%'') p"
    using rt like_prefix [OF lit] t by (auto simp: covers_def)
  show "CHR ''_'' \<notin> set pat \<Longrightarrow>
      right_is_slash pat \<and> p = rtrim_slash pat \<or> like (pat @ ''%'') p \<Longrightarrow> covers pat p"
    using rt lit like_prefix_literal [of pat p] t by (auto simp: covers_def like_literal_def)
qed

section \<open>Who gets through\<close>

text \<open>The specification: the token is valid, its user exists and is active, and an ordinary user
  is below \<open>/api/user/\<close> or has an unexpired rule for the method that covers the path.\<close>

definition rule_grants :: "int \<Rightarrow> uuid \<Rightarrow> string \<Rightarrow> string \<Rightarrow> rule_row \<Rightarrow> bool" where
  "rule_grants now uid p m r \<longleftrightarrow>
     r_user r = uid \<and> r_method r \<in> {''ALL'', m} \<and> (\<forall>e. r_expires r = Some e \<longrightarrow> now < e) \<and> covers (r_pattern r) p"

definition admitted :: "externs \<Rightarrow> int \<Rightarrow> database \<Rightarrow> http_request \<Rightarrow> claims \<Rightarrow> bool" where
  "admitted X now d req c \<longleftrightarrow>
     (\<exists>token. authorization req = Some (''Bearer '' @ token) \<and> x_jwt_decode X now token = Inr c)
     \<and> (\<exists>u\<in>set (users d). u_id u = sub c \<and> u_active u)
     \<and> (role c = USER \<longrightarrow> prefix ''/api/user/'' (req_path req)
          \<or> (\<exists>r\<in>set (rules d). rule_grants now (sub c) (req_path req) (req_method req) r))"

definition plain_rules :: "database \<Rightarrow> bool" where
  "plain_rules d \<longleftrightarrow> (\<forall>r\<in>set (rules d). api_pattern_ok (r_pattern r) \<and> CHR ''_'' \<notin> set (r_pattern r))"

lemma parse_token_iff: "parse_token req = Some t \<longleftrightarrow> authorization req = Some (''Bearer '' @ t)"
  by (cases "authorization req") (auto simp: parse_token_def strip_prefix_def prefix_def)

lemma has_permission_iff:
  assumes "plain_rules d"
  shows "has_permission now d uid p m \<longleftrightarrow> (\<exists>r\<in>set (rules d). rule_grants now uid p m r)"
proof -
  have "rule_permits now uid p m r \<longleftrightarrow> rule_grants now uid p m r" if "r \<in> set (rules d)" for r
    using assms that sql_clause_covers [of "r_pattern r" p]
    by (auto simp: plain_rules_def rule_permits_def rule_grants_def split: option.splits)
  then show ?thesis by (auto simp: has_permission_def list_ex_iff)
qed

lemma check_user_enabled_OkD:
  assumes "check_user_enabled c w = (Ok u, w')"
  shows "(\<exists>x\<in>set (users (db w)). u_id x = sub c \<and> u_active x) \<and> (\<exists>fs. w' = w\<lparr>faults := fs\<rparr>)"
proof -
  obtain f w1 where nf: "next_fault w = (f, w1)" by (cases "next_fault w")
  have same: "db w1 = db w" using next_fault_fields(1) [of w] nf by simp
  obtain fs where "w1 = w\<lparr>faults := fs\<rparr>" using next_fault_world [OF nf] by blast
  with assms nf same show ?thesis
    by (auto simp: check_user_enabled_def unexpected_def map_err_def fetch_one_def and_then_def select_def
        sql_def throw_def return_def split: if_splits option.splits dest!: row_by_SomeD)
qed

lemma check_user_role_OkD:
  assumes "check_user_role uid p m w = (Ok u, w')"
  shows "(prefix ''/api/user/'' p \<or> has_permission (clock w) (db w) uid p m) \<and> (\<exists>fs. w' = w\<lparr>faults := fs\<rparr>)"
proof (cases "prefix ''/api/user/'' p")
  case True
  with assms have "w' = w" by (simp add: check_user_role_def basic_permissions_def return_def)
  then have "w' = w\<lparr>faults := faults w\<rparr>" by simp
  with True show ?thesis by blast
next
  case False
  with assms obtain ok w1 where "unexpected (select (\<lambda>now d. has_permission now d uid p m)) w = (Ok ok, w1)"
    and "(if \<not> ok then throw (Forbidden ''user lacks permission'') else return ()) w1 = (Ok u, w')"
    by (auto simp: check_user_role_def basic_permissions_def elim: and_then_OkE)
  with unexpected_select_OkD [OF this(1)] show ?thesis by (auto simp: throw_def return_def split: if_splits)
qed

text \<open> No request reaches a handler without permission, whatever calls fail: when the middleware
  hands on the claims \<open>c\<close>, the request carried a valid token for \<open>c\<close>, its user exists and is
  active, and an ordinary user is under \<open>/api/user/\<close> or has an unexpired rule for the method
  that covers the path. The tables and all other state are untouched. (Patterns without an
  underscore; see \<open>underscore_is_a_wildcard\<close>.)\<close>

theorem only_admitted_requests_pass:
  assumes "plain_rules (db w)" and "mw_authentication X req return w = (Ok c, w')"
  shows "admitted X (clock w) (db w) req c \<and> w' = w\<lparr>faults := faults w'\<rparr>"
proof -
  from assms(2) obtain token where t: "parse_token req = Some token"
    by (cases "parse_token req") (auto simp: mw_authentication_def throw_def)
  with assms(2) obtain c' where c': "check_token X (clock w) token = Inr c'"
    by (cases "check_token X (clock w) token") (auto simp: mw_authentication_def throw_def)
  then have dec: "x_jwt_decode X (clock w) token = Inr c'"
    by (auto simp: check_token_def split: sum.splits jwt_error.splits)
  let ?rest = "if role c' = USER then check_user_role (sub c') (req_path req) (req_method req) else return ()"
  have "and_then (check_user_enabled c') (\<lambda>_. and_then ?rest (\<lambda>_. return c')) w = (Ok c, w')"
    using assms(2) t c' by (simp add: mw_authentication_def)
  then obtain u1 w1 u2 where en: "check_user_enabled c' w = (Ok u1, w1)" and ro: "?rest w1 = (Ok u2, w')" and "c = c'"
    by (auto elim!: and_then_OkE simp: return_def)
  note E = check_user_enabled_OkD [OF en]
  from E obtain fs where w1: "w1 = w\<lparr>faults := fs\<rparr>" by blast
  have "(role c' = USER \<longrightarrow> prefix ''/api/user/'' (req_path req)
          \<or> has_permission (clock w) (db w) (sub c') (req_path req) (req_method req)) \<and> w' = w\<lparr>faults := faults w'\<rparr>"
  proof (cases "role c' = USER")
    case True
    with ro have "check_user_role (sub c') (req_path req) (req_method req) w1 = (Ok u2, w')" by simp
    from check_user_role_OkD [OF this] w1 show ?thesis by auto
  next
    case False
    with ro w1 show ?thesis by (auto simp: return_def)
  qed
  with E dec t \<open>c = c'\<close> has_permission_iff [OF assms(1)] show ?thesis
    by (simp add: admitted_def parse_token_iff)
qed

text \<open> Conversely, while the services answer, every admitted request reaches its handler with
  the state unchanged.\<close>

theorem admitted_requests_pass:
  assumes "admitted X (clock w) (db w) req c" and "plain_rules (db w)"
    and "distinct (map u_id (users (db w)))" and "faults w = []"
  shows "mw_authentication X req next w = next c w"
proof -
  from assms(1) obtain token u where t: "parse_token req = Some token" "x_jwt_decode X (clock w) token = Inr c"
    and u: "u \<in> set (users (db w))" "u_id u = sub c" "u_active u"
    by (auto simp: admitted_def parse_token_iff)
  have "row_by u_id (sub c) (users (db w)) = Some u" using row_by_distinct [OF assms(3) u(1)] u(2) by simp
  then have en: "check_user_enabled c w = (Ok (), w)"
    using assms(4) u(3)
    by (simp add: check_user_enabled_def fetch_one_def unexpected_def map_err_def and_then_def select_no_fault return_def)
  have ro: "(if role c = USER then check_user_role (sub c) (req_path req) (req_method req) else return ()) w = (Ok (), w)"
  proof (cases "role c = USER \<and> \<not> prefix ''/api/user/'' (req_path req)")
    case True
    then have "has_permission (clock w) (db w) (sub c) (req_path req) (req_method req)"
      using assms(1) has_permission_iff [OF assms(2)] by (simp add: admitted_def)
    with True assms(4) show ?thesis
      by (simp add: check_user_role_def basic_permissions_def and_then_def return_def)
  qed (auto simp: check_user_role_def basic_permissions_def return_def)
  from t en ro show ?thesis by (simp add: mw_authentication_def check_token_def and_then_def)
qed

definition demo_access :: "rule_row list \<Rightarrow> world" where
  "demo_access rs = (demo_world [] [])\<lparr>db := empty_db\<lparr>users := [demo_user 1, demo_user 2], rules := rs\<rparr>\<rparr>"

definition demo_request :: "string \<Rightarrow> string \<Rightarrow> string \<Rightarrow> http_request" where
  "demo_request t p m = \<lparr>authorization = Some (''Bearer '' @ t), req_path = p, req_method = m\<rparr>"

lemma demo_admitted:
  "admitted demo_externs 0 (db (demo_access [demo_rule 7 1 ''/api/archive/'' ''GET''])) (demo_request ''Ua'' ''/api/archive/x/'' ''GET'')
     (demo_claims USER 1)"
  by (auto simp: admitted_def demo_access_def demo_request_def demo_externs_def demo_user_def demo_rule_def
      demo_uuid_parse_def demo_claims_def rule_grants_def covers_def)

lemma demo_plain: "plain_rules (db (demo_access [demo_rule 7 1 ''/api/archive/'' ''GET'']))"
  by (simp add: plain_rules_def demo_access_def demo_rule_def api_pattern_ok_def pattern_char_def is_lower_def is_digit_def)

theorem admitted_requests_pass_witness:
  "mw_authentication demo_externs (demo_request ''Ua'' ''/api/archive/x/'' ''GET'') (\<lambda>c. return (sub c))
     (demo_access [demo_rule 7 1 ''/api/archive/'' ''GET'']) = (Ok 1, demo_access [demo_rule 7 1 ''/api/archive/'' ''GET''])"
proof -
  let ?w = "demo_access [demo_rule 7 1 ''/api/archive/'' ''GET'']"
  have "clock ?w = 0" "faults ?w = []" "distinct (map u_id (users (db ?w)))"
    by (simp_all add: demo_access_def demo_world_def demo_user_def)
  with admitted_requests_pass [of demo_externs ?w "demo_request ''Ua'' ''/api/archive/x/'' ''GET''" "demo_claims USER 1"
      "\<lambda>c. return (sub c)"] demo_admitted demo_plain
  show ?thesis by (simp add: return_def demo_claims_def)
qed

theorem only_admitted_requests_pass_witness:
  "let w = demo_access [demo_rule 7 1 ''/api/archive/'' ''GET''];
       (r, w') = mw_authentication demo_externs (demo_request ''Ua'' ''/api/user/info'' ''GET'') return w
   in r = Ok (demo_claims USER 1)
      \<and> admitted demo_externs (clock w) (db w) (demo_request ''Ua'' ''/api/user/info'' ''GET'') (demo_claims USER 1)"
proof -
  let ?w = "demo_access [demo_rule 7 1 ''/api/archive/'' ''GET'']"
  let ?req = "demo_request ''Ua'' ''/api/user/info'' ''GET''"
  have run: "mw_authentication demo_externs ?req return ?w = (Ok (demo_claims USER 1), ?w)"
    by (simp add: mw_authentication_def demo_request_def parse_token_def strip_prefix_def check_token_def
        demo_externs_def demo_uuid_parse_def check_user_enabled_def fetch_one_def unexpected_def map_err_def
        and_then_def select_def sql_def next_fault_def demo_access_def demo_world_def row_by_def demo_user_def
        demo_claims_def check_user_role_def basic_permissions_def return_def)
  from only_admitted_requests_pass [OF demo_plain run] run show ?thesis by simp
qed

text \<open>An underscore, which the grant request admits, is a wildcard in the permission query: a
  rule for \<open>/api/a_b/\<close> opens the unrelated \<open>/api/axb/\<close>.\<close>

theorem underscore_is_a_wildcard:
  "let w = demo_access [demo_rule 7 1 ''/api/a_b/'' ''GET'']
   in api_pattern_ok ''/api/a_b/'' \<and> check_user_role 1 ''/api/axb/secret'' ''GET'' w = (Ok (), w)
      \<and> \<not> covers ''/api/a_b/'' ''/api/axb/secret''"
  by (simp add: check_user_role_def basic_permissions_def and_then_def unexpected_def map_err_def select_def sql_def
      next_fault_def demo_access_def demo_world_def has_permission_def rule_permits_def demo_rule_def return_def
      covers_def api_pattern_ok_def pattern_char_def is_lower_def is_digit_def Let_def)

section \<open>What granting and revoking change\<close>

text \<open>Ids and keys are unique, every rule is of an existing user, has a well-formed pattern and a
  known method.\<close>

definition rule_key :: "rule_row \<Rightarrow> uuid \<times> string \<times> string" where
  "rule_key r = (r_user r, r_pattern r, r_method r)"

definition rules_ok :: "database \<Rightarrow> bool" where
  "rules_ok d \<longleftrightarrow> distinct (map r_id (rules d)) \<and> distinct (map rule_key (rules d))
     \<and> (\<forall>r\<in>set (rules d). r_user r \<in> u_id ` set (users d) \<and> api_pattern_ok (r_pattern r)
          \<and> r_method r \<in> range method_as_str)"

definition upsert_match :: "grant_request \<Rightarrow> rule_row \<Rightarrow> bool" where
  "upsert_match req r \<longleftrightarrow> rule_key r = (g_user req, g_pattern req, method_as_str (g_method req))"

lemma upsert_rule_cases:
  assumes "upsert_rule fresh req granter now d = Inr (x, d')"
  obtains (update) r where "r \<in> set (rules d)" and "upsert_match req r" and "x = (r_id r, r_created r)"
      and "d' = d\<lparr>rules := update_where (upsert_match req)
            (\<lambda>r. r\<lparr>r_expires := g_expires req, r_granted := Some granter, r_desc := g_desc req\<rparr>) (rules d)\<rparr>"
  | (insert) "\<forall>r\<in>set (rules d). \<not> upsert_match req r" and "g_user req \<in> u_id ` set (users d)"
      and "fresh \<notin> r_id ` set (rules d)"
      and "x = (fresh, now)"
      and "d' = d\<lparr>rules := rules d @ [\<lparr>r_id = fresh, r_user = g_user req, r_pattern = g_pattern req,
                        r_method = method_as_str (g_method req), r_desc = g_desc req, r_expires = g_expires req,
                        r_granted = Some granter, r_created = now\<rparr>]\<rparr>"
proof -
  have m: "upsert_match req = (\<lambda>r. r_user r = g_user req \<and> r_pattern r = g_pattern req
                      \<and> r_method r = method_as_str (g_method req))"
    by (rule ext) (simp add: upsert_match_def rule_key_def)
  have run: "\<not> 255 < char_count (g_pattern req)" "g_user req \<in> u_id ` set (users d)"
    "find (upsert_match req) (rules d) = None \<Longrightarrow> fresh \<notin> r_id ` set (rules d)"
    "(case find (upsert_match req) (rules d) of
             Some r \<Rightarrow>
               Inr ((r_id r, r_created r),
                    d\<lparr>rules := update_where (upsert_match req)
                        (\<lambda>r. r\<lparr>r_expires := g_expires req, r_granted := Some granter, r_desc := g_desc req\<rparr>) (rules d)\<rparr>)
           | None \<Rightarrow>
               Inr ((fresh, now),
                    d\<lparr>rules := rules d @ [\<lparr>r_id = fresh, r_user = g_user req, r_pattern = g_pattern req,
                        r_method = method_as_str (g_method req), r_desc = g_desc req, r_expires = g_expires req,
                        r_granted = Some granter, r_created = now\<rparr>]\<rparr>)) = (Inr (x, d') :: string + (uuid \<times> int) \<times> database)"
    using assms unfolding upsert_rule_def Let_def m [symmetric] by (auto split: if_splits)
  show ?thesis
  proof (cases "find (upsert_match req) (rules d)")
    case None
    then have "\<forall>r\<in>set (rules d). \<not> upsert_match req r" by (auto simp: find_None_iff)
    then show ?thesis by (rule insert) (use run None in simp_all)
  next
    case (Some r)
    then have "r \<in> set (rules d)" "upsert_match req r" by (auto simp: find_Some_iff)
    then show ?thesis by (rule update) (use run Some in simp_all)
  qed
qed

lemma upsert_rule_row:
  assumes "upsert_rule fresh req granter now d = Inr (x, d')"
  shows "\<exists>r\<in>set (rules d'). upsert_match req r \<and> r_expires r = g_expires req \<and> r_id r = fst x"
  using assms
proof (cases rule: upsert_rule_cases)
  case (update r)
  let ?r = "r\<lparr>r_expires := g_expires req, r_granted := Some granter, r_desc := g_desc req\<rparr>"
  have "?r \<in> set (rules d')" using update(1,2,4) by (auto simp: in_update_where)
  moreover have "upsert_match req ?r \<and> r_expires ?r = g_expires req \<and> r_id ?r = fst x"
    using update(2,3) by (simp add: upsert_match_def rule_key_def)
  ultimately show ?thesis by blast
qed (simp add: upsert_match_def rule_key_def)

lemma upsert_rules_ok:
  assumes "upsert_rule fresh req granter now d = Inr (x, d')" and "rules_ok d"
    and "api_pattern_ok (g_pattern req)"
  shows "rules_ok d'"
  using assms(1)
proof (cases rule: upsert_rule_cases)
  case (update r)
  let ?f = "\<lambda>r. r\<lparr>r_expires := g_expires req, r_granted := Some granter, r_desc := g_desc req\<rparr>"
  have "map r_id (update_where (upsert_match req) ?f (rules d)) = map r_id (rules d)"
    "map rule_key (update_where (upsert_match req) ?f (rules d)) = map rule_key (rules d)"
    by (intro map_key_update_where; simp add: rule_key_def)+
  with assms(2) show ?thesis unfolding update(4) by (force simp: rules_ok_def in_update_where)
next
  case insert
  have "(g_user req, g_pattern req, method_as_str (g_method req)) \<notin> rule_key ` set (rules d)"
    using insert(1) by (auto simp: upsert_match_def)
  with assms(2,3) insert(2,3) show ?thesis
    unfolding insert(5) by (auto simp: rules_ok_def rule_key_def)
qed

lemma sql_OkD:
  assumes "sql st w = (Ok x, w')"
  shows "\<exists>fs d. st (clock w) (db w) = Inr (x, d) \<and> w' = w\<lparr>faults := fs, db := d\<rparr>"
proof -
  obtain f w1 where nf: "next_fault w = (f, w1)" by (cases "next_fault w")
  obtain fs where w1: "w1 = w\<lparr>faults := fs\<rparr>" using next_fault_world [OF nf] by blast
  with assms nf show ?thesis by (auto simp: sql_def split: if_splits sum.splits prod.splits)
qed

lemma sql_ErrD:
  assumes "sql st w = (Err e, w')"
  shows "\<exists>fs. w' = w\<lparr>faults := fs\<rparr>"
proof -
  obtain f w1 where nf: "next_fault w = (f, w1)" by (cases "next_fault w")
  obtain fs where w1: "w1 = w\<lparr>faults := fs\<rparr>" using next_fault_world [OF nf] by blast
  with assms nf show ?thesis by (auto simp: sql_def split: if_splits sum.splits prod.splits)
qed

text \<open>Reads keep every predicate on the tables.\<close>

lemma keeps_read [keeps_rules]: "keeps (\<lambda>w. P (db w)) (unexpected (select q))"
  by (intro keeps_unexpected keeps_select) (simp add: fault_free_inv_def)

lemma keeps_require_valid [keeps_rules]: "keeps I (require_valid f)"
  by (auto simp: keeps_def require_valid_def split: list.splits)

lemma keeps_conflict [keeps_rules]: "keeps (\<lambda>w. P (db w)) (check_api_rule_conflict req)"
  unfolding check_api_rule_conflict_def by (intro keeps_rules)

lemma keeps_validity [keeps_rules]: "keeps (\<lambda>w. P (db w)) (check_api_rule_validity X pre m)"
  unfolding check_api_rule_validity_def get_registry_routes_def by (intro keeps_rules)

lemma grant_OkD:
  assumes "grant_user_api_rule_handler X req user w = (Ok resp, w')"
  shows "api_pattern_ok (g_pattern req)
     \<and> (\<exists>fresh granter now x. upsert_rule fresh req granter now (db w) = Inr (x, db w'))"
proof -
  from assms [unfolded grant_user_api_rule_handler_def]
  obtain u1 w1 where v: "require_valid (\<lambda>now. validate_grant now req) w = (Ok u1, w1)"
    and r1: "and_then (check_api_rule_validity X (g_pattern req) (g_method req)) (\<lambda>_.
      and_then (grant_user_api_access_rule req (sub user)) (\<lambda>dto. return (resp_created dto ''rule granted''))) w1 = (Ok resp, w')"
    by (rule and_then_OkE)
  from r1 obtain u2 w2 where c: "check_api_rule_validity X (g_pattern req) (g_method req) w1 = (Ok u2, w2)"
    and r2: "and_then (grant_user_api_access_rule req (sub user)) (\<lambda>dto. return (resp_created dto ''rule granted'')) w2 = (Ok resp, w')"
    by (rule and_then_OkE)
  from r2 obtain dto w5 where g: "grant_user_api_access_rule req (sub user) w2 = (Ok dto, w5)"
    and w5: "return (resp_created dto ''rule granted'') w5 = ((Ok resp :: (app_error, _) result), w')" by (rule and_then_OkE)
  from g [unfolded grant_user_api_access_rule_def]
  obtain u3 w3 where k: "check_api_rule_conflict req w2 = (Ok u3, w3)"
    and r3: "and_then new_uuid (\<lambda>fresh. and_then (map_err (\<lambda>e. if e = DbErr (Some ''23503'') then DataNotFound ''user not found'' else UnexpectedError e)
                 (sql (upsert_rule fresh req (sub user)))) (\<lambda>(rid, created).
     return \<lparr>dto_rule = rid, dto_pattern = g_pattern req, dto_method = g_method req,
              dto_expires = g_expires req, dto_created = created, dto_granted = Some (sub user)\<rparr>)) w3 = (Ok dto, w5)"
    by (rule and_then_OkE)
  from r3 obtain fresh w3' where n: "new_uuid w3 = ((Ok fresh :: (app_error, uuid) result), w3')"
    and r4: "and_then (map_err (\<lambda>e. if e = DbErr (Some ''23503'') then DataNotFound ''user not found'' else UnexpectedError e)
                 (sql (upsert_rule fresh req (sub user)))) (\<lambda>(rid, created).
     return \<lparr>dto_rule = rid, dto_pattern = g_pattern req, dto_method = g_method req,
              dto_expires = g_expires req, dto_created = created, dto_granted = Some (sub user)\<rparr>) w3' = (Ok dto, w5)"
    by (rule and_then_OkE)
  from r4 obtain x w4 where u: "sql (upsert_rule fresh req (sub user)) w3' = (Ok x, w4)" and w4: "w5 = w4"
    by (rule and_then_OkE) (auto simp: return_def)
  have w': "w' = w4" using w5 w4 by (simp add: return_def)
  have "db w1 = db w" and "api_pattern_ok (g_pattern req)"
    using v by (auto simp: require_valid_def validate_grant_def one_error_def split: list.splits if_splits)
  moreover have "db w2 = db w1" using keepsE [OF keeps_validity c, of "\<lambda>d. d = db w1"] by simp
  moreover have "db w3 = db w2" using keepsE [OF keeps_conflict k, of "\<lambda>d. d = db w2"] by simp
  moreover have "db w3' = db w3" using n by (auto simp: new_uuid_def)
  ultimately have "upsert_rule fresh req (sub user) (clock w3') (db w) = Inr (x, db w')"
    using sql_OkD [OF u] w' by auto
  with \<open>api_pattern_ok (g_pattern req)\<close> show ?thesis by blast
qed

text \<open>C25: After a grant has succeeded, every request of that user with the method to a path the
  pattern covers is permitted until the rule expires.\<close>

theorem granted_rule_takes_effect:
  assumes "grant_user_api_rule_handler X req user w = (Ok resp, w')"
    and "covers (g_pattern req) p" and "g_method req = METHOD_ALL \<or> m = method_as_str (g_method req)"
    and "\<forall>e. g_expires req = Some e \<longrightarrow> now < e"
  shows "has_permission now (db w') (g_user req) p m"
proof -
  from grant_OkD [OF assms(1)] obtain r where ok: "api_pattern_ok (g_pattern req)"
    and r: "r \<in> set (rules (db w'))" "upsert_match req r" "r_expires r = g_expires req"
    using upsert_rule_row by blast
  have "rule_permits now (g_user req) p m r"
    using r(2,3) assms(3,4) sql_clause_covers(1) [OF ok assms(2)]
    by (auto simp: rule_permits_def upsert_match_def rule_key_def split: option.splits)
  with r(1) show ?thesis by (auto simp: has_permission_def list_ex_iff)
qed

definition demo_grant :: grant_request where
  "demo_grant = \<lparr>g_user = 1, g_pattern = ''/api/admin/user/'', g_expires = Some 50, g_method = GET, g_desc = None\<rparr>"

lemma demo_grant_run:
  "\<exists>resp w'. grant_user_api_rule_handler demo_externs demo_grant (demo_claims ADMIN 2) (demo_access []) = (Ok resp, w')"
proof -
  have "(''/api/admin/user/query/'', GET) \<in> route_key ` set route_registry"
    by (simp add: route_registry_def register_template_routes_def register_api_rule_routes_def
        register_user_routes_def register_route_def Let_def keys_route_insert route_key_def)
  then obtain r where "r \<in> set route_registry" "path r = ''/api/admin/user/query/''" "route_method r = GET"
    by (auto simp: route_key_def)
  then have "\<exists>r\<in>set route_registry. prefix ''/api/admin/user/'' (path r) \<and> route_method r = GET"
    by (intro bexI [of _ r]) simp_all
  then have "do_filter_with_prefix ''/api/admin/user/'' GET route_registry \<noteq> []"
    by (auto simp: do_filter_with_prefix_def filter_empty_conv)
  then show ?thesis
    by (simp add: grant_user_api_rule_handler_def and_then_def require_valid_def validate_grant_def demo_grant_def
        api_pattern_ok_def pattern_char_def is_lower_def is_digit_def demo_access_def demo_world_def
        check_api_rule_validity_def get_registry_routes_def registry_routes_of_def empty_db_def
        grant_user_api_access_rule_def check_api_rule_conflict_def return_def new_uuid_def map_err_def sql_def
        upsert_rule_def char_count_def demo_user_def demo_claims_def Let_def)
qed

theorem granted_rule_takes_effect_witness:
  "\<exists>resp w'. grant_user_api_rule_handler demo_externs demo_grant (demo_claims ADMIN 2) (demo_access []) = (Ok resp, w')
     \<and> has_permission 49 (db w') 1 ''/api/admin/user/query/'' ''GET''"
proof -
  obtain resp w' where run: "grant_user_api_rule_handler demo_externs demo_grant (demo_claims ADMIN 2) (demo_access []) = (Ok resp, w')"
    using demo_grant_run by blast
  from granted_rule_takes_effect [OF run, of "''/api/admin/user/query/''" "''GET''" 49] run show ?thesis
    by (auto simp: demo_grant_def covers_def)
qed

lemma revoke_world:
  assumes "revoke_user_api_access_rule rid w = (r, w')"
  shows "(\<exists>fs. w' = w\<lparr>faults := fs\<rparr> \<and> r \<noteq> Ok ())
     \<or> (\<exists>fs. w' = w\<lparr>faults := fs, db := (db w)\<lparr>rules := delete_where (\<lambda>r. r_id r = rid) (rules (db w))\<rparr>\<rparr>
          \<and> (r = Ok () \<longleftrightarrow> (\<exists>r\<in>set (rules (db w)). r_id r = rid)))"
proof -
  let ?st = "\<lambda>_ d. Inr (count_where (\<lambda>r. r_id r = rid) (rules d), d\<lparr>rules := delete_where (\<lambda>r. r_id r = rid) (rules d)\<rparr>)"
  obtain r1 w1 where run: "sql ?st w = (r1, w1)" by (cases "sql ?st w")
  show ?thesis
  proof (cases r1)
    case (Ok n)
    from sql_OkD [OF run [unfolded Ok]] count_where_0_iff [of "\<lambda>r. r_id r = rid" "rules (db w)"] assms run Ok
    show ?thesis
      by (auto simp: revoke_user_api_access_rule_def and_then_def unexpected_def map_err_def throw_def return_def
          split: if_splits)
  next
    case (Err e)
    from sql_ErrD [OF run [unfolded Err]] assms run Err show ?thesis
      by (auto simp: revoke_user_api_access_rule_def and_then_def unexpected_def map_err_def)
  next
    case Panic
    with run show ?thesis by (auto simp: sql_def split: prod.splits if_splits sum.splits)
  qed
qed

text \<open> Revoking a rule takes away exactly that rule: afterwards a request is permitted if and only if
  one of the other rules permits it, and nothing else in the database has changed. The
  answer is \<open>Ok\<close> only if the rule existed.\<close>

theorem revoke_removes_exactly_the_rule:
  assumes "revoke_user_api_access_rule rid w = (Ok u, w')"
  shows "(has_permission now (db w') uid p m \<longleftrightarrow> (\<exists>r\<in>set (rules (db w)). r_id r \<noteq> rid \<and> rule_permits now uid p m r))
    \<and> (\<exists>r\<in>set (rules (db w)). r_id r = rid)
    \<and> db w' = (db w)\<lparr>rules := rules (db w')\<rparr>"
  using revoke_world [OF assms] by (auto simp: has_permission_def list_ex_iff)

theorem revoke_removes_exactly_the_rule_witness:
  "let w = demo_access [demo_rule 7 1 ''/api/archive/'' ''GET''];
       (r, w') = revoke_user_api_access_rule 7 w
   in r = Ok () \<and> \<not> has_permission 0 (db w') 1 ''/api/archive/x/'' ''GET''"
proof -
  let ?w = "demo_access [demo_rule 7 1 ''/api/archive/'' ''GET'']"
  obtain w' where run: "revoke_user_api_access_rule 7 ?w = (Ok (), w')"
    by (simp add: revoke_user_api_access_rule_def and_then_def unexpected_def map_err_def sql_def demo_access_def
        demo_world_def count_where_def demo_rule_def return_def)
  from revoke_removes_exactly_the_rule [OF run, of 0 1 "''/api/archive/x/''" "''GET''"] run show ?thesis
    by (simp add: demo_access_def demo_rule_def)
qed

lemma upsert_rules_inv:
  assumes "rules_ok (db w)" and "api_pattern_ok (g_pattern req)" and "sql (upsert_rule fresh req granter) w = (r, w')"
  shows "rules_ok (db w')"
proof (cases r)
  case (Ok x)
  from sql_OkD [OF assms(3) [unfolded Ok]]
  obtain now where up: "upsert_rule fresh req granter now (db w) = Inr (x, db w')" by auto
  show ?thesis using upsert_rules_ok [OF up assms(1,2)] .
next
  case (Err e)
  with sql_ErrD [OF assms(3) [unfolded Err]] assms(1) show ?thesis by auto
next
  case Panic
  with assms(3) show ?thesis by (auto simp: sql_def split: prod.splits if_splits sum.splits)
qed

lemma grant_rules_ok:
  "keeps (\<lambda>w. rules_ok (db w)) (grant_user_api_rule_handler X req user)"
proof (cases "api_pattern_ok (g_pattern req)")
  case True
  have "keeps (\<lambda>w. rules_ok (db w)) (sql (upsert_rule fresh req (sub user)))" for fresh
    by (rule keepsI) (metis True upsert_rules_inv prod.collapse)
  then show ?thesis
    unfolding grant_user_api_rule_handler_def grant_user_api_access_rule_def check_api_rule_conflict_def
      check_api_rule_validity_def get_registry_routes_def
    by (intro keeps_rules keeps_select) (simp_all add: fault_free_inv_def keeps_def new_uuid_def)
next
  case False
  then show ?thesis
    by (simp add: keeps_def grant_user_api_rule_handler_def and_then_def require_valid_def validate_grant_def one_error_def)
qed

lemma keeps_revoke_rule: "keeps (\<lambda>w. rules_ok (db w)) (revoke_user_api_access_rule rid)"
proof (rule keepsI)
  fix w :: world assume w: "rules_ok (db w)"
  obtain r w' where run: "revoke_user_api_access_rule rid w = (r, w')" by (cases "revoke_user_api_access_rule rid w")
  from revoke_world [OF run] w show "rules_ok (db (snd (revoke_user_api_access_rule rid w)))"
    unfolding run by (auto simp: rules_ok_def distinct_delete_where)
qed

text \<open> Granting and revoking keep the rule table well formed, whatever fails on the way: ids are
  unique, there is one rule per user, pattern and method, and every rule belongs to an existing
  user, has a pattern of the documented shape and a known method.\<close>

theorem rule_table_stays_well_formed:
  assumes "rules_ok (db w)"
  shows "rules_ok (db (snd (grant_user_api_rule_handler X req user w)))
     \<and> rules_ok (db (snd (revoke_user_api_rule_handler rid w)))"
proof
  show "rules_ok (db (snd (grant_user_api_rule_handler X req user w)))"
    using keepsD [OF grant_rules_ok assms] .
  have "keeps (\<lambda>w. rules_ok (db w)) (revoke_user_api_rule_handler rid)"
    unfolding revoke_user_api_rule_handler_def by (intro keeps_rules keeps_revoke_rule)
  from keepsD [OF this assms] show "rules_ok (db (snd (revoke_user_api_rule_handler rid w)))" .
qed

theorem rule_table_stays_well_formed_witness:
  "rules_ok (db (snd (grant_user_api_rule_handler demo_externs demo_grant (demo_claims ADMIN 2)
     (demo_access [demo_rule 7 1 ''/api/archive/'' ''GET'']))))"
proof -
  let ?w = "demo_access [demo_rule 7 1 ''/api/archive/'' ''GET'']"
  have "''GET'' \<in> range method_as_str" by (rule image_eqI [of _ _ GET]) simp_all
  then have "rules_ok (db ?w)"
    by (simp add: rules_ok_def demo_access_def demo_rule_def demo_user_def
        api_pattern_ok_def pattern_char_def is_lower_def is_digit_def)
  from rule_table_stays_well_formed [OF this] show ?thesis by blast
qed

section \<open>Refused grants\<close>

text \<open> A grant refused because of a broader rule would have added nothing: every request the new
  rule would cover, before its expiry, is permitted already.\<close>

theorem refused_grant_is_redundant:
  assumes "check_api_rule_conflict req w = (Err (ApiRuleConflict i), w')"
    and "plain_rules (db w)" and "api_pattern_ok (g_pattern req)"
    and "covers (g_pattern req) p"
    and "m = method_as_str (g_method req) \<or> (g_method req = METHOD_ALL \<and> m = any)"
    and "\<forall>e. g_expires req = Some e \<longrightarrow> now < e"
  shows "has_permission now (db w) (g_user req) p m"
proof -
  from assms(1) obtain r where "find (broader_rule req) (rules (db w)) = Some r"
    by (auto simp: check_api_rule_conflict_def and_then_def unexpected_def map_err_def throw_def return_def
        select_def sql_def next_fault_def split: prod.splits result.splits option.splits if_splits list.splits)
  then have r: "r \<in> set (rules (db w))" "broader_rule req r" by (auto simp: find_Some_iff)
  have ok: "api_pattern_ok (r_pattern r)" "CHR ''_'' \<notin> set (r_pattern r)"
    using assms(2) r(1) by (auto simp: plain_rules_def)
  have lit: "like_literal (r_pattern r)"
    using api_pattern_shape [OF ok(1)] ok(2) by (metis like_literal_def)
  then have pre: "prefix (r_pattern r) (g_pattern req)"
    using r(2) like_prefix_literal by (simp add: broader_rule_def)
  have "covers (r_pattern r) p"
  proof (cases "prefix (g_pattern req) p")
    case True
    with pre show ?thesis unfolding covers_def using prefix_order.trans by blast
  next
    case False
    with assms(4) have "p @ ''/'' = g_pattern req" by (simp add: covers_def)
    with pre show ?thesis unfolding covers_def by (metis prefix_snoc)
  qed
  then have "rule_permits now (g_user req) p m r"
    using r(2) assms(5,6) sql_clause_covers(1) [OF ok(1)]
    by (cases "g_method req") (auto simp: rule_permits_def broader_rule_def split: option.splits)
  with r(1) show ?thesis by (auto simp: has_permission_def list_ex_iff)
qed

theorem refused_grant_is_redundant_witness:
  "let w = demo_access [demo_rule 7 1 ''/api/admin/'' ''ALL'']
   in fst (check_api_rule_conflict demo_grant w) = Err (ApiRuleConflict 7)
      \<and> has_permission 0 (db w) 1 ''/api/admin/user/query/'' ''GET''"
proof -
  let ?w = "demo_access [demo_rule 7 1 ''/api/admin/'' ''ALL'']"
  have run: "check_api_rule_conflict demo_grant ?w = (Err (ApiRuleConflict 7), ?w)"
    by (simp add: check_api_rule_conflict_def and_then_def unexpected_def map_err_def select_def sql_def throw_def
        demo_access_def demo_world_def broader_rule_def demo_grant_def demo_rule_def)
  have "plain_rules (db ?w)" "api_pattern_ok (g_pattern demo_grant)"
    by (simp_all add: plain_rules_def demo_access_def demo_rule_def demo_grant_def api_pattern_ok_def pattern_char_def
        is_lower_def is_digit_def)
  from refused_grant_is_redundant [OF run this, of "''/api/admin/user/query/''" "''GET''" _ 0] run show ?thesis
    by (simp add: demo_grant_def covers_def Let_def)
qed

section \<open>The routes a user has\<close>

text \<open>C26: The two route lists agree with each other and with the middleware: for every user the
  registry splits into the routes the user has and the routes that can still be granted, and a
  request to a route the user has is permitted (unless a rule expires at this very moment,
  which the lists still count).\<close>

theorem route_lists_agree_with_the_middleware:
  assumes "faults w = []" and "rules_ok (db w)" and "\<forall>r\<in>set (rules (db w)). r_expires r \<noteq> Some (clock w)"
  shows "\<exists>have rest. get_user_effective_routes X uid w = (Ok have, w)
     \<and> do_filter_with_user_exists_rules (registry_routes_of X (db w)) uid w = (Ok rest, w)
     \<and> set have \<union> set rest = set (registry_routes_of X (db w)) \<and> set have \<inter> set rest = {}
     \<and> (\<forall>r\<in>set have. has_permission (clock w) (db w) uid (path r) (method_as_str (route_method r)))"
proof -
  let ?reg = "registry_routes_of X (db w)" and ?rules = "effective_rules uid (clock w) (db w)"
  let ?has = "\<lambda>r. list_ex (\<lambda>(pat, m). prefix pat (path r) \<and> (route_method r = m \<or> METHOD_ALL = m)) ?rules"
  have eff: "get_user_effective_routes X uid w = (Ok (filter ?has ?reg), w)"
    using assms(1) by (simp add: get_user_effective_routes_def get_effective_rules_for_user_def
        get_registry_routes_def and_then_def return_def)
  have rest: "do_filter_with_user_exists_rules ?reg uid w = (Ok (filter (\<lambda>r. \<not> ?has r) ?reg), w)"
  proof -
    have "filter (\<lambda>r. list_all (\<lambda>(pat, m). \<not> prefix pat (path r) \<or> (route_method r \<noteq> m \<and> m \<noteq> METHOD_ALL)) ?rules) ?reg
        = filter (\<lambda>r. \<not> ?has r) ?reg"
      by (rule filter_cong [OF refl]) (auto simp: list_all_iff list_ex_iff)
    then show ?thesis
      unfolding do_filter_with_user_exists_rules_def get_effective_rules_for_user_def
      using assms(1) by (simp only: and_then_def return_def unexpected_select_no_fault prod.case result.case)
  qed
  have "has_permission (clock w) (db w) uid (path r) (method_as_str (route_method r))" if h: "?has r" for r
  proof -
    from h obtain x where x: "x \<in> set (rules (db w))" "r_user x = uid"
      "case r_expires x of None \<Rightarrow> True | Some e \<Rightarrow> clock w \<le> e" "prefix (r_pattern x) (path r)"
      "route_method r = method_from (r_method x) \<or> METHOD_ALL = method_from (r_method x)"
      by (auto simp: list_ex_iff effective_rules_def)
    have ok: "api_pattern_ok (r_pattern x)" "r_method x \<in> range method_as_str"
      using assms(2) x(1) by (auto simp: rules_ok_def)
    have "r_method x = ''ALL'' \<or> r_method x = method_as_str (route_method r)"
      using ok(2) x(5) by auto
    moreover have "like (r_pattern x @ ''%'') (path r) \<or> right_is_slash (r_pattern x) \<and> path r = rtrim_slash (r_pattern x)"
      using sql_clause_covers(1) [OF ok(1), of "path r"] x(4) by (auto simp: covers_def)
    moreover have "case r_expires x of None \<Rightarrow> True | Some e \<Rightarrow> clock w < e"
      using x(1,3) assms(3) by (auto split: option.splits simp: less_le)
    ultimately have "rule_permits (clock w) uid (path r) (method_as_str (route_method r)) x"
      using x(2) by (auto simp: rule_permits_def)
    with x(1) show ?thesis by (auto simp: has_permission_def list_ex_iff)
  qed
  with eff rest show ?thesis by (intro exI conjI) auto
qed

text \<open>Without a user the list of rules counts all rules but returns none of them.\<close>

theorem rule_list_without_user_is_empty:
  "let w = demo_access [demo_rule 7 1 ''/api/archive/'' ''GET''];
       (r, _) = query_user_api_access_rules \<lparr>qr_user = None, qr_page = 1, qr_page_size = 10\<rparr> w
   in case r of Ok pd \<Rightarrow> total pd = 1 \<and> items pd = [] | _ \<Rightarrow> False"
  by (simp add: query_user_api_access_rules_def and_then_def unexpected_def map_err_def select_def sql_def
      demo_access_def demo_world_def count_where_def page_query_def in_order_def limit_offset_def offset_def return_def
      page_data_from_def Let_def)

theorem route_lists_agree_with_the_middleware_witness:
  "\<exists>have rest. get_user_effective_routes demo_externs 1 (demo_access [demo_rule 7 1 ''/api/archive/'' ''GET'']) = (Ok have, demo_access [demo_rule 7 1 ''/api/archive/'' ''GET''])
     \<and> set have \<inter> set rest = {}"
proof -
  let ?w = "demo_access [demo_rule 7 1 ''/api/archive/'' ''GET'']"
  have "''GET'' \<in> range method_as_str" by (rule image_eqI [of _ _ GET]) simp_all
  then have "faults ?w = []" "rules_ok (db ?w)" "\<forall>r\<in>set (rules (db ?w)). r_expires r \<noteq> Some (clock ?w)"
    by (simp_all add: rules_ok_def demo_access_def demo_rule_def demo_user_def demo_world_def
        api_pattern_ok_def pattern_char_def is_lower_def is_digit_def)
  from route_lists_agree_with_the_middleware [OF this, of demo_externs 1] show ?thesis by blast
qed

end
