(* ===== verification/Users.thy ===== *)
theory Users
  imports Access Storage
begin

text \<open>
  \<open>modules/auth/\<close>, \<open>modules/user/\<close>, \<open>modules/admin/user/\<close>, \<open>utils/jwt.rs\<close> and
  \<open>utils/password.rs\<close>: login, the administration of accounts, and what users change of
  their own account. Hashing, tokens and e-mail syntax are functions of third-party crates.
\<close>

section \<open>Passwords and tokens\<close>

text \<open>\<open>hash_password\<close> draws a salt; the blocking thread pool is left out.\<close>

definition hash_password :: "externs \<Rightarrow> string \<Rightarrow> (world, anyhow, string) prog" where
  "hash_password X p =
     and_then new_uuid (\<lambda>salt. case x_hash X salt p of
         None \<Rightarrow> throw (Anyhow ''password hashing failed'') | Some h \<Rightarrow> return h)"

definition verify_password :: "externs \<Rightarrow> string \<Rightarrow> string \<Rightarrow> (world, anyhow, unit) prog" where
  "verify_password X p h = guard (x_verify X h p) (Anyhow ''wrong password'')"

definition generate_jwt_token :: "externs \<Rightarrow> 64 word \<Rightarrow> int \<Rightarrow> uuid \<Rightarrow> string \<Rightarrow> user_role \<Rightarrow> string option" where
  "generate_jwt_token X expiration now uid nm ro =
     x_jwt_encode X \<lparr>sub = uid, exp = word_of_int (now div 1000000 + sint expiration),
        iat = word_of_int (now div 1000000), username = nm, role = ro\<rparr>"

definition generate_jwt :: "externs \<Rightarrow> 64 word \<Rightarrow> uuid \<Rightarrow> string \<Rightarrow> user_role \<Rightarrow> (world, app_error, string) prog" where
  "generate_jwt X expiration uid nm ro w =
     (case generate_jwt_token X expiration (clock w) uid nm ro of
        None \<Rightarrow> (Err (UnexpectedError (Anyhow ''token encoding failed'')), w)
      | Some t \<Rightarrow> (Ok t, w))"

section \<open>Login\<close>

definition get_stored_credentials :: "string \<Rightarrow> (world, anyhow, (uuid \<times> string \<times> user_role) option) prog" where
  "get_stored_credentials nm =
     select (\<lambda>_ d. map_option (\<lambda>u. (u_id u, u_hash u, role_from (u_role u))) (row_by u_name nm (users d)))"

text \<open>The hash checked for a user name that does not exist.\<close>

definition dummy_hash :: string where
  "dummy_hash = ''$argon2id$v=19$m=15000,t=2,p=1$gZiV/M1gPc22ElAH/Jh1Hw$CWOrkoo7oJBQ/iyh7uJ0LO2aLEfrHwTWllSAxT0zRno''"

definition validate_user_password :: "externs \<Rightarrow> string \<Rightarrow> string \<Rightarrow> (world, anyhow, uuid \<times> user_role) prog" where
  "validate_user_password X nm p =
     and_then (get_stored_credentials nm) (\<lambda>cred.
       let uid = map_option fst cred;
           h = (case cred of None \<Rightarrow> dummy_hash | Some (_, h, _) \<Rightarrow> h);
           ro = (case cred of None \<Rightarrow> USER | Some (_, _, ro) \<Rightarrow> ro)
       in and_then (verify_password X p h) (\<lambda>_.
            case uid of None \<Rightarrow> throw (Anyhow ''no such user'') | Some i \<Rightarrow> return (i, ro)))"

definition login_user_handler :: "externs \<Rightarrow> 64 word \<Rightarrow> string \<Rightarrow> string \<Rightarrow>
    (world, app_error, string app_response) prog" where
  "login_user_handler X expiration nm p =
     and_then (require_valid (\<lambda>_. nonempty_error ''username'' ''the user name is empty'' nm
                 @ nonempty_error ''password'' ''the password is empty'' p)) (\<lambda>_.
     and_then (map_err (\<lambda>_. LoginFailed) (validate_user_password X nm p)) (\<lambda>(uid, ro).
     and_then (generate_jwt X expiration uid nm ro) (\<lambda>jwt.
     return (resp_success_msg jwt ''logged in''))))"

section \<open>Rows of users\<close>

text \<open>The widths of the \<open>VARCHAR\<close> columns of \<open>sys_user\<close>.\<close>

definition fits :: "nat \<Rightarrow> string option \<Rightarrow> bool" where
  "fits n v = (case v of None \<Rightarrow> True | Some s \<Rightarrow> char_count s \<le> n)"

definition user_fits :: "user_row \<Rightarrow> bool" where
  "user_fits u \<longleftrightarrow> char_count (u_name u) \<le> 50 \<and> char_count (u_nickname u) \<le> 50 \<and> char_count (u_hash u) \<le> 200
     \<and> fits 100 (u_email u) \<and> fits 20 (u_phone u) \<and> fits 100 (u_avatar u) \<and> fits 50 (u_major u) \<and> fits 50 (u_college u)"

text \<open>\<open>UPDATE sys_user SET .. WHERE user_id = ..\<close> with its affected-row count.\<close>

definition update_user :: "uuid \<Rightarrow> (user_row \<Rightarrow> user_row) \<Rightarrow> nat stmt" where
  "update_user uid f now d =
     (if list_ex (\<lambda>u. u_id u = uid \<and> \<not> user_fits (f u)) (users d) then Inl ''22001''
      else Inr (count_where (\<lambda>u. u_id u = uid) (users d), d\<lparr>users := update_where (\<lambda>u. u_id u = uid) f (users d)\<rparr>))"

text \<open>\<open>DELETE FROM sys_user\<close> with the actions of the foreign keys: the user's rules go, references
  from other rows become null, and a trigger renews \<open>updated_at\<close> of such a row.\<close>

definition forget_user :: "uuid \<Rightarrow> uuid option \<Rightarrow> uuid option" where
  "forget_user uid by = (if by = Some uid then None else by)"

definition delete_user_stmt :: "uuid \<Rightarrow> nat stmt" where
  "delete_user_stmt uid now d =
     Inr (count_where (\<lambda>u. u_id u = uid) (users d),
          (if count_where (\<lambda>u. u_id u = uid) (users d) = 0 then d
           else d\<lparr>users := delete_where (\<lambda>u. u_id u = uid) (users d),
                  rules := map (\<lambda>r. r\<lparr>r_granted := forget_user uid (r_granted r)\<rparr>)
                             (delete_where (\<lambda>r. r_user r = uid) (rules d)),
                  templates := map (\<lambda>t. t\<lparr>t_by := forget_user uid (t_by t),
                                       t_updated := (if t_by t = Some uid then now else t_updated t)\<rparr>) (templates d),
                  records := map (\<lambda>a. a\<lparr>a_by := forget_user uid (a_by a)\<rparr>) (records d),
                  files := map (\<lambda>f. f\<lparr>f_by := forget_user uid (f_by f)\<rparr>) (files d)\<rparr>))"

section \<open>Administration of accounts\<close>

record register_request =
  reg_username :: string
  reg_nickname :: string
  reg_password :: string
  reg_role :: user_role
  reg_email :: "string option"
  reg_phone :: "string option"
  reg_major :: "string option"
  reg_college :: "string option"

record user_dto =
  ud_id :: uuid
  ud_name :: string
  ud_nickname :: string
  ud_active :: bool
  ud_role :: user_role
  ud_email :: "string option"
  ud_phone :: "string option"
  ud_major :: "string option"
  ud_college :: "string option"
  ud_avatar :: "string option"
  ud_created :: int

text \<open>\<open>PHONE_NUMBER\<close>: \<open>^1[3-9]\d{9}$\<close> (ASCII digits).\<close>

definition phone_ok :: "string \<Rightarrow> bool" where
  "phone_ok s \<longleftrightarrow> length s = 11 \<and> list_all is_digit s \<and> hd s = CHR ''1'' \<and> s ! 1 \<in> set ''3456789''"

definition email_error :: "externs \<Rightarrow> string \<Rightarrow> validation_errors" where
  "email_error X s = (if x_email_ok X s then [] else one_error ''email'' ''email'' ''malformed e-mail address'')"

definition phone_error :: "string \<Rightarrow> validation_errors" where
  "phone_error s = (if phone_ok s then [] else one_error ''phone'' ''regex'' ''not a mainland China mobile number'')"

definition validate_register :: "externs \<Rightarrow> register_request \<Rightarrow> validation_errors" where
  "validate_register X r =
     length_error ''username'' 3 50 ''the user name has 3 to 50 characters'' (reg_username r)
     @ length_error ''nickname'' 3 50 ''the nickname has 3 to 50 characters'' (reg_nickname r)
     @ length_error ''password'' 6 100 ''the password has 6 to 100 characters'' (reg_password r)
     @ option_errors (email_error X) (reg_email r)
     @ option_errors phone_error (reg_phone r)
     @ option_errors (length_error ''major'' 0 50 ''the major has at most 50 characters'') (reg_major r)
     @ option_errors (length_error ''college'' 0 50 ''the college has at most 50 characters'') (reg_college r)"

text \<open>The insert of \<open>store_user\<close>: widths of the columns, then the unique user name.\<close>

definition new_user_row :: "uuid \<Rightarrow> int \<Rightarrow> register_request \<Rightarrow> user_row" where
  "new_user_row fresh now r =
     \<lparr>u_id = fresh, u_name = reg_username r, u_nickname = reg_nickname r,
      u_hash = reg_password r, u_role = role_as_str (reg_role r), u_email = reg_email r,
      u_phone = reg_phone r, u_avatar = None, u_major = reg_major r, u_college = reg_college r,
      u_active = True, u_created = now\<rparr>"

definition insert_user :: "uuid \<Rightarrow> register_request \<Rightarrow> (uuid \<times> int) stmt" where
  "insert_user fresh r now d =
     (if \<not> user_fits (new_user_row fresh now r) then Inl ''22001''
      else if reg_username r \<in> u_name ` set (users d) \<or> fresh \<in> u_id ` set (users d) then Inl ''23505''
      else Inr ((fresh, now), d\<lparr>users := users d @ [new_user_row fresh now r]\<rparr>))"

definition store_user :: "register_request \<Rightarrow> (world, app_error, user_dto) prog" where
  "store_user r =
     and_then new_uuid (\<lambda>fresh.
     and_then (map_err (\<lambda>e. if e = DbErr (Some ''23505'') then UserAlreadyExists else UnexpectedError e)
                 (sql (insert_user fresh r))) (\<lambda>(uid, created).
     return \<lparr>ud_id = uid, ud_name = reg_username r, ud_nickname = reg_nickname r, ud_active = True,
        ud_role = reg_role r, ud_email = reg_email r, ud_phone = reg_phone r, ud_major = reg_major r,
        ud_college = reg_college r, ud_avatar = None, ud_created = created\<rparr>))"

definition create_user_handler :: "externs \<Rightarrow> register_request \<Rightarrow> (world, app_error, user_dto app_response) prog" where
  "create_user_handler X r =
     and_then (require_valid (\<lambda>_. validate_register X r)) (\<lambda>_.
     and_then (unexpected (hash_password X (reg_password r))) (\<lambda>h.
     and_then (store_user (r\<lparr>reg_password := h\<rparr>)) (\<lambda>u.
     return (resp_created u ''user created''))))"

definition modify_user_status :: "uuid \<Rightarrow> bool \<Rightarrow> (world, app_error, unit) prog" where
  "modify_user_status uid act =
     and_then (unexpected (sql (update_user uid (\<lambda>u. u\<lparr>u_active := act\<rparr>))))
       (\<lambda>n. if n = 0 then throw (DataNotFound ''user not found'') else return ())"

definition modify_user_status_handler :: "uuid \<Rightarrow> bool \<Rightarrow> claims \<Rightarrow> (world, app_error, unit app_response) prog" where
  "modify_user_status_handler uid act user =
     (if sub user = uid then throw (Forbidden ''your own status cannot be changed'')
      else and_then (modify_user_status uid act) (\<lambda>_. return (resp_ok_msg ''status changed'')))"

definition admin_change_user_password :: "uuid \<Rightarrow> string \<Rightarrow> (world, app_error, unit) prog" where
  "admin_change_user_password uid h =
     and_then (unexpected (sql (update_user uid (\<lambda>u. u\<lparr>u_hash := h\<rparr>))))
       (\<lambda>n. if n = 0 then throw (DataNotFound ''user not found'') else return ())"

definition admin_change_user_password_handler :: "externs \<Rightarrow> uuid \<Rightarrow> string \<Rightarrow>
    (world, app_error, unit app_response) prog" where
  "admin_change_user_password_handler X uid p =
     and_then (require_valid (\<lambda>_. length_error ''new_password'' 6 100 ''the new password has 6 to 100 characters'' p)) (\<lambda>_.
     and_then (unexpected (hash_password X p)) (\<lambda>h.
     and_then (admin_change_user_password uid h) (\<lambda>_.
     return (resp_ok_msg ''password changed''))))"

definition delete_user :: "uuid \<Rightarrow> (world, app_error, unit) prog" where
  "delete_user uid =
     and_then (unexpected (sql (delete_user_stmt uid)))
       (\<lambda>n. if n = 0 then throw (DataNotFound ''user not found'') else return ())"

definition admin_delete_user_handler :: "uuid \<Rightarrow> claims \<Rightarrow> (world, app_error, unit app_response) prog" where
  "admin_delete_user_handler uid user =
     (if sub user = uid then throw (Forbidden ''your own account cannot be deleted'')
      else and_then (delete_user uid) (\<lambda>_. return (resp_ok_msg ''user deleted'')))"

section \<open>Avatars\<close>

definition build_avatar_key :: "string \<Rightarrow> string \<Rightarrow> app_error + string" where
  "build_avatar_key object_key file_name =
     (case path_extension file_name of
        None \<Rightarrow> Inl (UnexpectedError (Anyhow ''malformed file name, no extension''))
      | Some e \<Rightarrow> Inr (object_key @ ''.'' @ e))"

definition parse_avatar_key_to_url :: "externs \<Rightarrow> string \<Rightarrow> (world, app_error, string) prog" where
  "parse_avatar_key_to_url X avatar_key =
     (let object_key = split_first (CHR ''.'') avatar_key
      in case strip_prefix ''avatar/'' avatar_key of
           None \<Rightarrow> throw (UnexpectedError (Anyhow ''malformed avatar key''))
         | Some file_name \<Rightarrow> unexpected (generate_view_url X file_name object_key))"

definition store_user_avatar :: "externs \<Rightarrow> string \<Rightarrow> string \<Rightarrow> (world, app_error, file_metadata) prog" where
  "store_user_avatar X source dest =
     and_then (unexpected (object_exists source)) (\<lambda>there.
     if \<not> there then throw (DataNotFound ''avatar file not found'')
     else
       and_then (map_err (\<lambda>e. UnexpectedError (case e of
             HeadNotFound \<Rightarrow> S3Err (ServiceError (Some ''NotFound'')) ''service error''
           | HeadOther x \<Rightarrow> S3Err x ''service error'')) (get_head_object_output source)) (\<lambda>head.
       and_then (lift_result UnexpectedError (try_from_head X head)) (\<lambda>md.
       and_then (unexpected (copy_source_to_dest source dest)) (\<lambda>_.
       and_then (unexpected (delete_object source)) (\<lambda>_.
       return md)))))"

definition save_user_avatar_into_database :: "uuid \<Rightarrow> string \<Rightarrow> (world, app_error, unit) prog" where
  "save_user_avatar_into_database uid key =
     and_then (unexpected (sql (update_user uid (\<lambda>u. u\<lparr>u_avatar := Some key\<rparr>)))) (\<lambda>_. return ())"

definition update_avatar_handler :: "externs \<Rightarrow> claims \<Rightarrow> uuid \<Rightarrow> (world, app_error, string app_response) prog" where
  "update_avatar_handler X user file_id =
     (let source = build_temp_avatar_key X file_id; dest = build_avatar_dest_key X (sub user)
      in and_then (store_user_avatar X source dest) (\<lambda>md.
         case build_avatar_key dest (md_filename md) of
           Inl e \<Rightarrow> throw e
         | Inr key \<Rightarrow>
             and_then (save_user_avatar_into_database (sub user) key) (\<lambda>_.
             and_then (parse_avatar_key_to_url X key) (\<lambda>url.
             return (resp_success_msg url ''avatar updated'')))))"

record avatar_request =
  av_filename :: string
  av_length :: i64
  av_type :: "string option"

text \<open>\<open>PHOTO_NAME\<close>: \<open>^.+\.(jpg|png|jpeg)$\<close>; a dot of the pattern is no line feed.\<close>

definition photo_name_ok :: "string \<Rightarrow> bool" where
  "photo_name_ok s =
     (case rsplit_dot s of
        None \<Rightarrow> False
      | Some (stem, e) \<Rightarrow> e \<in> {''jpg'', ''png'', ''jpeg''} \<and> stem \<noteq> [] \<and> nl \<notin> set stem)"

definition validate_avatar :: "avatar_request \<Rightarrow> validation_errors" where
  "validate_avatar r =
     length_error ''filename'' 0 100 ''the file name has at most 100 characters'' (av_filename r)
     @ (if photo_name_ok (av_filename r) then []
        else one_error ''filename'' ''regex'' ''malformed file name, the extension is jpg, png, webp, gif, svg or bmp'')
     @ (if 2097152 < sint (av_length r) then one_error ''content_length'' ''range'' ''the picture has at most 2 MB'' else [])"

definition presigned_avatar_url :: "externs \<Rightarrow> string \<Rightarrow> i64 \<Rightarrow> string \<Rightarrow> (world, app_error, string \<times> uuid) prog" where
  "presigned_avatar_url X fname len ctype =
     and_then new_uuid (\<lambda>file_id.
     and_then (unexpected (generate_presigned_url X (build_temp_avatar_key X file_id) ctype len fname)) (\<lambda>url.
     return (url, file_id)))"

definition presigned_avatar_url_handler :: "externs \<Rightarrow> avatar_request \<Rightarrow>
    (world, app_error, (string \<times> uuid) app_response) prog" where
  "presigned_avatar_url_handler X r =
     and_then (require_valid (\<lambda>_. validate_avatar r)) (\<lambda>_.
       let ctype = (case av_type r of
                      Some t \<Rightarrow> if trim t \<noteq> [] then trim t else x_mime_guess X (av_filename r)
                    | None \<Rightarrow> x_mime_guess X (av_filename r))
       in and_then (presigned_avatar_url X (av_filename r) (av_length r) ctype)
            (\<lambda>p. return (resp_created p ''avatar upload URL signed'')))"

section \<open>What users change of their own account\<close>

definition change_user_password :: "externs \<Rightarrow> uuid \<Rightarrow> string \<Rightarrow> (world, app_error, unit) prog" where
  "change_user_password X uid p =
     and_then (unexpected (hash_password X p)) (\<lambda>h.
     and_then (unexpected (sql (update_user uid (\<lambda>u. u\<lparr>u_hash := h\<rparr>)))) (\<lambda>_. return ()))"

definition change_password_handler :: "externs \<Rightarrow> claims \<Rightarrow> string \<Rightarrow> string \<Rightarrow>
    (world, app_error, unit app_response) prog" where
  "change_password_handler X user raw new =
     and_then (require_valid (\<lambda>_. nonempty_error ''raw_password'' ''the password is empty'' raw
                 @ length_error ''new_password'' 6 100 ''the new password has 6 to 100 characters'' new)) (\<lambda>_.
     and_then (map_err (\<lambda>_. PasswordWrong) (validate_user_password X (username user) raw)) (\<lambda>_.
     and_then (change_user_password X (sub user) new) (\<lambda>_.
     return (resp_ok_msg ''password changed''))))"

definition update_user_info :: "uuid \<Rightarrow> string option \<Rightarrow> string option \<Rightarrow> (world, app_error, unit) prog" where
  "update_user_info uid email phone =
     and_then (unexpected (sql (update_user uid
         (\<lambda>u. u\<lparr>u_email := (if email = None then u_email u else email),
                u_phone := (if phone = None then u_phone u else phone)\<rparr>)))) (\<lambda>_. return ())"

definition update_user_info_handler :: "externs \<Rightarrow> claims \<Rightarrow> string option \<Rightarrow> string option \<Rightarrow>
    (world, app_error, unit app_response) prog" where
  "update_user_info_handler X user email phone =
     and_then (require_valid (\<lambda>_. option_errors (email_error X) email @ option_errors phone_error phone)) (\<lambda>_.
     and_then (update_user_info (sub user) email phone) (\<lambda>_.
     return (resp_ok_msg ''user updated'')))"

record user_info =
  ui_name :: string
  ui_nickname :: string
  ui_role :: user_role
  ui_email :: "string option"
  ui_phone :: "string option"
  ui_major :: "string option"
  ui_college :: "string option"
  ui_avatar :: "string option"

definition user_to_info :: "user_row \<Rightarrow> user_info" where
  "user_to_info u = \<lparr>ui_name = u_name u, ui_nickname = u_nickname u, ui_role = role_from (u_role u),
     ui_email = u_email u, ui_phone = u_phone u, ui_major = u_major u, ui_college = u_college u, ui_avatar = u_avatar u\<rparr>"

definition get_user_info_by_id :: "externs \<Rightarrow> uuid \<Rightarrow> (world, app_error, user_info) prog" where
  "get_user_info_by_id X uid =
     and_then (unexpected (fetch_one (\<lambda>d. map_option user_to_info (row_by u_id uid (users d))))) (\<lambda>i.
       case ui_avatar i of
         None \<Rightarrow> return i
       | Some key \<Rightarrow> and_then (parse_avatar_key_to_url X key) (\<lambda>url. return (i\<lparr>ui_avatar := Some url\<rparr>)))"

definition get_user_info_handler :: "externs \<Rightarrow> claims \<Rightarrow> (world, app_error, user_info app_response) prog" where
  "get_user_info_handler X user =
     and_then (get_user_info_by_id X (sub user)) (\<lambda>i. return (resp_success_msg i ''user found''))"

definition get_user_effective_routes_handler :: "externs \<Rightarrow> claims \<Rightarrow>
    (world, app_error, route_info list app_response) prog" where
  "get_user_effective_routes_handler X user =
     and_then (get_user_effective_routes X (sub user)) (\<lambda>rs. return (resp_success_msg rs ''routes found''))"

section \<open>Listing accounts\<close>

record query_user_request =
  qu_user :: "uuid option"
  qu_name :: "string option"
  qu_nickname :: "string option"
  qu_active :: "bool option"
  qu_role :: "user_role option"
  qu_page :: i64
  qu_page_size :: i64

definition user_matches :: "query_user_request \<Rightarrow> user_row \<Rightarrow> bool" where
  "user_matches q u \<longleftrightarrow>
     (case qu_user q of None \<Rightarrow> True | Some i \<Rightarrow> u_id u = i)
     \<and> (case qu_name q of None \<Rightarrow> True | Some s \<Rightarrow> ilike (''%'' @ s @ ''%'') (u_name u))
     \<and> (case qu_nickname q of None \<Rightarrow> True | Some s \<Rightarrow> ilike (''%'' @ s @ ''%'') (u_nickname u))
     \<and> (case qu_active q of None \<Rightarrow> True | Some b \<Rightarrow> u_active u = b)
     \<and> (case qu_role q of None \<Rightarrow> True | Some ro \<Rightarrow> u_role u = role_as_str ro)"

definition user_to_dto :: "user_row \<Rightarrow> user_dto" where
  "user_to_dto u = \<lparr>ud_id = u_id u, ud_name = u_name u, ud_nickname = u_nickname u, ud_active = u_active u,
     ud_role = role_from (u_role u), ud_email = u_email u, ud_phone = u_phone u, ud_major = u_major u,
     ud_college = u_college u, ud_avatar = u_avatar u, ud_created = u_created u\<rparr>"

fun view_avatars :: "externs \<Rightarrow> user_dto list \<Rightarrow> (world, app_error, user_dto list) prog" where
  "view_avatars X [] = return []"
| "view_avatars X (u # us) =
     and_then (case ud_avatar u of
                 None \<Rightarrow> return u
               | Some key \<Rightarrow> and_then (parse_avatar_key_to_url X key) (\<lambda>url. return (u\<lparr>ud_avatar := Some url\<rparr>))) (\<lambda>u'.
     and_then (view_avatars X us) (\<lambda>us'. return (u' # us')))"

definition query_users :: "externs \<Rightarrow> query_user_request \<Rightarrow> (world, app_error, user_dto page_data) prog" where
  "query_users X q =
     and_then (unexpected (select (\<lambda>_ d. word_of_int (int (count_where (user_matches q) (users d))) :: i64))) (\<lambda>cnt.
     and_then (unexpected (sql (page_query (qu_page q) (qu_page_size q) (\<lambda>u. - u_created u) user_to_dto (\<lambda>d.
        filter (user_matches q) (users d))))) (\<lambda>rows.
     and_then (view_avatars X rows) (\<lambda>rows'.
     return (page_data_from rows' cnt (qu_page q) (qu_page_size q)))))"

definition validate_query_users :: "query_user_request \<Rightarrow> validation_errors" where
  "validate_query_users q =
     option_errors (nonempty_error ''username'' ''the user name is empty'') (qu_name q)
     @ option_errors (nonempty_error ''nickname'' ''the nickname is empty'') (qu_nickname q)
     @ validate_page (qu_page q) (qu_page_size q)"

definition query_users_handler :: "externs \<Rightarrow> query_user_request \<Rightarrow>
    (world, app_error, user_dto page_data app_response) prog" where
  "query_users_handler X q =
     and_then (require_valid (\<lambda>_. validate_query_users q)) (\<lambda>_.
     and_then (query_users X q) (\<lambda>pd. return (resp_success_msg pd ''users found'')))"

section \<open>Login and passwords\<close>

lemma require_valid_cases:
  obtains "f (clock w) = []" "require_valid f w = (Ok (), w)"
  | errs where "f (clock w) \<noteq> []" "require_valid f w = (Err (ValidationError errs), w)"
  by (cases "f (clock w)") (auto simp: require_valid_def)

lemma row_by_key: "row_by key k rows = Some r \<Longrightarrow> key r = k"
  by (blast dest: row_by_SomeD)

lemma validate_user_password_cases:
  assumes "validate_user_password X nm p w = (r, w')"
  shows "w' = w\<lparr>faults := faults w'\<rparr> \<and> r \<noteq> Panic
     \<and> (\<forall>uid ro. r = Ok (uid, ro) \<longrightarrow> (\<exists>u\<in>set (users (db w)). u_name u = nm \<and> u_id u = uid
            \<and> role_from (u_role u) = ro \<and> x_verify X (u_hash u) p))"
proof -
  obtain f w1 where nf: "next_fault w = (f, w1)" by (cases "next_fault w")
  have same: "db w1 = db w" using next_fault_fields(1) [of w] nf by simp
  have w1: "w1 = w\<lparr>faults := faults w1\<rparr>" using next_fault_world [OF nf] .
  show ?thesis
  proof (cases "f = NoFault")
    case True
    with assms nf same w1 show ?thesis
      by (cases "row_by u_name nm (users (db w))")
         (auto simp: validate_user_password_def get_stored_credentials_def select_def sql_def and_then_def
            verify_password_def guard_def throw_def return_def Let_def dest!: row_by_SomeD split: if_splits)
  next
    case False
    with assms nf w1 show ?thesis
      by (auto simp: validate_user_password_def get_stored_credentials_def select_def sql_def and_then_def)
  qed
qed


section \<open>References\<close>

text \<open>The keys and foreign keys of the tables.\<close>

definition refers :: "uuid option \<Rightarrow> database \<Rightarrow> bool" where
  "refers by d \<longleftrightarrow> (\<forall>g. by = Some g \<longrightarrow> g \<in> u_id ` set (users d))"

definition refs_ok :: "database \<Rightarrow> bool" where
  "refs_ok d \<longleftrightarrow>
     distinct (map u_id (users d)) \<and> distinct (map u_name (users d))
     \<and> (\<forall>r\<in>set (rules d). r_user r \<in> u_id ` set (users d) \<and> refers (r_granted r) d)
     \<and> (\<forall>t\<in>set (templates d). refers (t_by t) d)
     \<and> (\<forall>a\<in>set (records d). a_template a \<in> t_id ` set (templates d) \<and> refers (a_by a) d)
     \<and> (\<forall>f\<in>set (files d). f_record f \<in> a_id ` set (records d) \<and> refers (f_by f) d)"

lemma update_user_ids:
  assumes "\<And>u. u_id (f u) = u_id u" and "\<And>u. u_name (f u) = u_name u"
  shows "map u_id (update_where p f us) = map u_id us" "map u_name (update_where p f us) = map u_name us"
    "u_id ` set (update_where p f us) = u_id ` set us"
proof -
  show 1: "map u_id (update_where p f us) = map u_id us" "map u_name (update_where p f us) = map u_name us"
    using assms by (intro map_key_update_where; simp)+
  show "u_id ` set (update_where p f us) = u_id ` set us" unfolding list.set_map [symmetric] 1 ..
qed

lemma refs_update_user:
  assumes "refs_ok d" and "\<And>u. u_id (f u) = u_id u" and "\<And>u. u_name (f u) = u_name u"
    and "update_user uid f now d = Inr (n, d')"
  shows "refs_ok d'"
  using assms(1,4) update_user_ids [of f, OF assms(2,3)]
  by (auto simp: update_user_def refs_ok_def refers_def split: if_splits)

lemma refs_insert_user:
  assumes "refs_ok d" and "insert_user fresh r now d = Inr (x, d')"
  shows "refs_ok d'"
proof -
  have "reg_username r \<notin> u_name ` set (users d)" "fresh \<notin> u_id ` set (users d)"
    using assms(2) by (auto simp: insert_user_def new_user_row_def split: if_splits)
  with assms show ?thesis by (auto simp: insert_user_def new_user_row_def refs_ok_def refers_def split: if_splits)
qed

lemma refs_delete_user:
  assumes "refs_ok d" and "delete_user_stmt uid now d = Inr (n, d')"
  shows "refs_ok d'"
proof -
  have ref: "refers (forget_user uid by) d'" if "refers by d" for "by"
    using that assms(2) by (auto simp: delete_user_stmt_def refers_def forget_user_def split: if_splits)
  have u: "u_id ` set (users d) - {uid} \<subseteq> u_id ` set (users d')"
    using assms(2) by (auto simp: delete_user_stmt_def split: if_splits)
  have ids: "t_id ` set (templates d') = t_id ` set (templates d)" "a_id ` set (records d') = a_id ` set (records d)"
    using assms(2) by (auto simp: delete_user_stmt_def image_image split: if_splits)
  show ?thesis
  proof (cases "count_where (\<lambda>u. u_id u = uid) (users d) = 0")
    case True
    with assms show ?thesis by (simp add: delete_user_stmt_def)
  next
    case False
    have d': "rules d' = map (\<lambda>r. r\<lparr>r_granted := forget_user uid (r_granted r)\<rparr>) (delete_where (\<lambda>r. r_user r = uid) (rules d))"
      "templates d' = map (\<lambda>t. t\<lparr>t_by := forget_user uid (t_by t),
                             t_updated := (if t_by t = Some uid then now else t_updated t)\<rparr>) (templates d)"
      "records d' = map (\<lambda>a. a\<lparr>a_by := forget_user uid (a_by a)\<rparr>) (records d)"
      "files d' = map (\<lambda>f. f\<lparr>f_by := forget_user uid (f_by f)\<rparr>) (files d)"
      "users d' = delete_where (\<lambda>u. u_id u = uid) (users d)"
      using assms(2) False by (auto simp: delete_user_stmt_def)
    have "\<forall>r\<in>set (rules d'). r_user r \<in> u_id ` set (users d') \<and> refers (r_granted r) d'"
      using assms(1) u ref by (auto simp: refs_ok_def d'(1))
    moreover have "\<forall>t\<in>set (templates d'). refers (t_by t) d'" using assms(1) ref by (auto simp: refs_ok_def d'(2))
    moreover have "\<forall>a\<in>set (records d'). a_template a \<in> t_id ` set (templates d') \<and> refers (a_by a) d'"
      using assms(1) ref ids(1) by (auto simp: refs_ok_def d'(3))
    moreover have "\<forall>f\<in>set (files d'). f_record f \<in> a_id ` set (records d') \<and> refers (f_by f) d'"
      using assms(1) ref ids(2) by (auto simp: refs_ok_def d'(4))
    moreover have "distinct (map u_id (users d'))" "distinct (map u_name (users d'))"
      using assms(1) by (simp_all add: refs_ok_def d'(5) distinct_delete_where)
    ultimately show ?thesis unfolding refs_ok_def by blast
  qed
qed

text \<open>Invariants of the tables alone.\<close>

lemma keeps_db_sql:
  "(\<And>now d x d'. P d \<Longrightarrow> st now d = Inr (x, d') \<Longrightarrow> P d') \<Longrightarrow> keeps (\<lambda>w. P (db w)) (sql st)"
  by (rule keeps_sql) (auto simp: fault_free_inv_def)

lemma keeps_db_new_uuid [keeps_rules]: "keeps (\<lambda>w. P (db w)) new_uuid"
  by (simp add: keeps_def new_uuid_def)

lemma keeps_db_hash [keeps_rules]: "keeps (\<lambda>w. P (db w)) (hash_password X p)"
  unfolding hash_password_def by (intro keeps_rules)

lemma keeps_db_s3_call [keeps_rules]:
  assumes "\<And>w x w'. f w = (x, w') \<Longrightarrow> db w' = db w"
  shows "keeps (\<lambda>w. P (db w)) (s3_call ctx f)"
proof (rule keepsI)
  fix w :: world assume w: "P (db w)"
  obtain ft w1 where nf: "next_fault w = (ft, w1)" by (cases "next_fault w")
  have "db w1 = db w" using next_fault_fields(1) [of w] nf by simp
  with w nf assms show "P (db (snd (s3_call ctx f w)))"
    by (cases ft; cases "f w1") (simp_all add: s3_call_def)
qed

lemma keeps_db_view_url [keeps_rules]: "keeps (\<lambda>w. P (db w)) (generate_view_url X fname key)"
  unfolding generate_view_url_def by (rule keeps_db_s3_call) simp

lemma keeps_db_delete_object [keeps_rules]: "keeps (\<lambda>w. P (db w)) (delete_object key)"
  unfolding delete_object_def by (rule keeps_db_s3_call) auto

lemma keeps_db_head [keeps_rules]: "keeps (\<lambda>w. P (db w)) (get_head_object_output key)"
proof (rule keepsI)
  fix w :: world assume "P (db w)"
  moreover have "db (snd (get_head_object_output key w)) = db w"
    using next_fault_fields(1) [of w]
    by (auto simp: get_head_object_output_def split: prod.splits fault.splits option.splits simp del: next_fault_fields)
  ultimately show "P (db (snd (get_head_object_output key w)))" by simp
qed

lemma keeps_db_copy [keeps_rules]: "keeps (\<lambda>w. P (db w)) (copy_source_to_dest s t)"
proof (rule keepsI)
  fix w :: world assume "P (db w)"
  moreover have "db (snd (copy_source_to_dest s t w)) = db w"
    using next_fault_fields(1) [of w]
    by (auto simp: copy_source_to_dest_def split: prod.splits fault.splits option.splits simp del: next_fault_fields)
  ultimately show "P (db (snd (copy_source_to_dest s t w)))" by simp
qed

lemma keeps_db_exists [keeps_rules]: "keeps (\<lambda>w. P (db w)) (object_exists key)"
  unfolding object_exists_def
  by (intro keeps_rules) (auto split: sum.splits head_error.splits intro: keeps_rules)

lemma keeps_lift_result [keeps_rules]: "keeps I (lift_result g r)"
  by (simp add: keeps_def lift_result_def split: result.splits)

lemma keeps_update_user [keeps_rules]:
  assumes "\<And>u. u_id (f u) = u_id u" and "\<And>u. u_name (f u) = u_name u"
  shows "keeps (\<lambda>w. refs_ok (db w)) (sql (update_user uid f))"
  by (rule keeps_db_sql) (use assms refs_update_user in blast)

lemma keeps_insert_user: "keeps (\<lambda>w. refs_ok (db w)) (sql (insert_user fresh r))"
  by (rule keeps_db_sql) (rule refs_insert_user)

lemma keeps_delete_user: "keeps (\<lambda>w. refs_ok (db w)) (sql (delete_user_stmt uid))"
  by (rule keeps_db_sql) (rule refs_delete_user)

lemma keeps_store_avatar: "keeps (\<lambda>w. P (db w)) (store_user_avatar X s t)"
  unfolding store_user_avatar_def by (intro keeps_rules)

lemma keeps_parse_avatar: "keeps (\<lambda>w. P (db w)) (parse_avatar_key_to_url X key)"
  unfolding parse_avatar_key_to_url_def Let_def by (intro keeps_rules)

lemma keeps_validate_password: "keeps (\<lambda>w. P (db w)) (validate_user_password X nm p)"
proof (rule keepsI)
  fix w :: world assume "P (db w)"
  moreover obtain r w' where run: "validate_user_password X nm p w = (r, w')" by (cases "validate_user_password X nm p w")
  moreover have "db w' = db w"
    using arg_cong [OF conjunct1 [OF validate_user_password_cases [OF run]], of db] by simp
  ultimately show "P (db (snd (validate_user_password X nm p w)))" by simp
qed

text \<open> The account operations keep all keys and foreign keys of the tables, whatever fails: ids and
  user names stay unique, and no row refers to a user, template or record that is not there.\<close>

theorem account_operations_keep_references:
  assumes "refs_ok (db w)"
  shows "refs_ok (db (snd (create_user_handler X req w)))
     \<and> refs_ok (db (snd (modify_user_status_handler uid act user w)))
     \<and> refs_ok (db (snd (admin_change_user_password_handler X uid p w)))
     \<and> refs_ok (db (snd (admin_delete_user_handler uid user w)))
     \<and> refs_ok (db (snd (change_password_handler X user raw new w)))
     \<and> refs_ok (db (snd (update_user_info_handler X user email phone w)))
     \<and> refs_ok (db (snd (update_avatar_handler X user fid w)))"
proof (intro conjI)
  note K = keepsD [of "\<lambda>w. refs_ok (db w)", OF _ assms]
  show "refs_ok (db (snd (create_user_handler X req w)))"
    unfolding create_user_handler_def store_user_def
    by (rule K) (intro keeps_rules keeps_insert_user)
  show "refs_ok (db (snd (modify_user_status_handler uid act user w)))"
    unfolding modify_user_status_handler_def modify_user_status_def by (rule K) (intro keeps_rules; simp)
  show "refs_ok (db (snd (admin_change_user_password_handler X uid p w)))"
    unfolding admin_change_user_password_handler_def admin_change_user_password_def by (rule K) (intro keeps_rules; simp)
  show "refs_ok (db (snd (admin_delete_user_handler uid user w)))"
    unfolding admin_delete_user_handler_def delete_user_def
    by (rule K) (intro keeps_rules keeps_delete_user)
  show "refs_ok (db (snd (change_password_handler X user raw new w)))"
    unfolding change_password_handler_def change_user_password_def
    by (rule K) (intro keeps_rules keeps_validate_password; simp)
  show "refs_ok (db (snd (update_user_info_handler X user email phone w)))"
    unfolding update_user_info_handler_def update_user_info_def by (rule K) (intro keeps_rules; simp)
  show "refs_ok (db (snd (update_avatar_handler X user fid w)))"
    unfolding update_avatar_handler_def save_user_avatar_into_database_def Let_def
    by (rule K) (intro keeps_rules keeps_store_avatar keeps_parse_avatar; simp)
qed

lemma demo_uuid_str_eq [simp]: "demo_uuid_str u = demo_uuid_str v \<longleftrightarrow> u = v"
  by (simp add: demo_uuid_str_def word_unat_eq_iff)

lemma demo_refs: "refs_ok (db (demo_access [demo_rule 7 1 ''/api/archive/'' ''GET'']))"
  by (simp add: refs_ok_def refers_def demo_access_def demo_rule_def demo_user_def empty_db_def)

theorem account_operations_keep_references_witness:
  "refs_ok (db (snd (admin_delete_user_handler 1 (demo_claims ADMIN 2) (demo_access [demo_rule 7 1 ''/api/archive/'' ''GET'']))))"
  using account_operations_keep_references [OF demo_refs] by blast

lemma filter_update_where:
  "(\<And>x. p x \<Longrightarrow> \<not> Q x \<and> \<not> Q (f x)) \<Longrightarrow> filter Q (update_where p f xs) = filter Q xs"
  by (induction xs) (auto simp: update_where_def)

lemma filter_delete_where: "(\<And>x. p x \<Longrightarrow> \<not> Q x) \<Longrightarrow> filter Q (delete_where p xs) = filter Q xs"
  by (induction xs) (auto simp: delete_where_def)

text \<open>An administrator can neither disable nor delete the account she acts with: her row is the
  same after both operations, whichever account they name and whatever the outcome.\<close>

theorem own_account_is_protected:
  "filter (\<lambda>u. u_id u = sub c) (users (db (snd (modify_user_status_handler uid act c w))))
     = filter (\<lambda>u. u_id u = sub c) (users (db w))
   \<and> filter (\<lambda>u. u_id u = sub c) (users (db (snd (admin_delete_user_handler uid c w))))
     = filter (\<lambda>u. u_id u = sub c) (users (db w))"
proof (cases "sub c = uid")
  case True
  then show ?thesis by (simp add: modify_user_status_handler_def admin_delete_user_handler_def throw_def)
next
  case False
  let ?own = "\<lambda>d. filter (\<lambda>u. u_id u = sub c) (users d)"
  have upd: "?own d' = ?own d" if "update_user uid (\<lambda>u. u\<lparr>u_active := act\<rparr>) now d = Inr (n, d')" for now d n d'
  proof -
    have "users d' = update_where (\<lambda>u. u_id u = uid) (\<lambda>u. u\<lparr>u_active := act\<rparr>) (users d)"
      using that by (auto simp: update_user_def split: if_splits)
    then show ?thesis using False by (simp add: filter_update_where)
  qed
  have del: "?own d' = ?own d" if "delete_user_stmt uid now d = Inr (n, d')" for now d n d'
    using that False by (auto simp: delete_user_stmt_def filter_delete_where split: if_splits)
  have "keeps (\<lambda>v. ?own (db v) = ?own (db w)) (modify_user_status_handler uid act c)"
    unfolding modify_user_status_handler_def modify_user_status_def
    by (intro keeps_rules keeps_db_sql) (simp add: upd)
  moreover have "keeps (\<lambda>v. ?own (db v) = ?own (db w)) (admin_delete_user_handler uid c)"
    unfolding admin_delete_user_handler_def delete_user_def
    by (intro keeps_rules keeps_db_sql) (simp add: del)
  ultimately show ?thesis by (auto dest: keepsD)
qed

lemma delete_user_OkD:
  assumes "admin_delete_user_handler uid c w = (Ok resp, w')"
  shows "\<forall>u\<in>set (users (db w')). u_id u \<noteq> uid" and "\<forall>r\<in>set (rules (db w')). r_user r \<noteq> uid"
proof -
  from assms have "and_then (delete_user uid) (\<lambda>_. return (resp_ok_msg ''user deleted'')) w = (Ok resp, w')"
    by (auto simp: admin_delete_user_handler_def throw_def split: if_splits)
  then obtain x w1 where d: "delete_user uid w = (Ok x, w1)" and "w1 = w'"
    by (rule and_then_OkE) (simp add: return_def)
  from d obtain n w2 where s: "sql (delete_user_stmt uid) w = (Ok n, w2)" and "n \<noteq> 0" "w2 = w1"
    unfolding delete_user_def unexpected_def
    by (elim and_then_OkE) (auto simp: throw_def return_def split: if_splits)
  with sql_OkD [OF s] \<open>w1 = w'\<close> have d': "users (db w') = delete_where (\<lambda>u. u_id u = uid) (users (db w))"
    "rules (db w') = map (\<lambda>r. r\<lparr>r_granted := forget_user uid (r_granted r)\<rparr>) (delete_where (\<lambda>r. r_user r = uid) (rules (db w)))"
    by (auto simp: delete_user_stmt_def split: if_splits)
  show "\<forall>u\<in>set (users (db w')). u_id u \<noteq> uid" by (simp add: d')
  show "\<forall>r\<in>set (rules (db w')). r_user r \<noteq> uid" by (simp add: d')
qed

text \<open> Once an account is deleted, no token of it opens anything any more, and no rule for it is left
  that a new account could inherit.\<close>

theorem deleted_user_is_locked_out:
  assumes "admin_delete_user_handler uid c w = (Ok resp, w')" and "sub c' = uid"
  shows "\<not> admitted X now (db w') req c' \<and> (\<forall>r\<in>set (rules (db w')). r_user r \<noteq> uid)"
  using delete_user_OkD [OF assms(1)] assms(2) by (auto simp: admitted_def)

theorem deleted_user_is_locked_out_witness:
  "\<exists>resp w'. admin_delete_user_handler 1 (demo_claims ADMIN 2) (demo_access [demo_rule 7 1 ''/api/archive/'' ''GET'']) = (Ok resp, w')
     \<and> \<not> admitted demo_externs 0 (db w') (demo_request ''Ua'' ''/api/user/me'' ''GET'') (demo_claims USER 1)"
proof -
  obtain resp w' where run: "admin_delete_user_handler 1 (demo_claims ADMIN 2)
      (demo_access [demo_rule 7 1 ''/api/archive/'' ''GET'']) = (Ok resp, w')"
    by (simp add: admin_delete_user_handler_def demo_claims_def delete_user_def and_then_def unexpected_def map_err_def
        sql_def demo_access_def demo_world_def delete_user_stmt_def count_where_def demo_user_def return_def)
  from deleted_user_is_locked_out [OF run, of "demo_claims USER 1"] run show ?thesis
    by (auto simp: demo_claims_def)
qed

text \<open>C28: Changing one's own password needs the old one, and afterwards exactly the new one opens the
  account. Given that a hash of the new password matches this password and no other, a login check with the user's name and
  the new password succeeds (while the database answers), and as long as the table of accounts is unchanged, a check that opens the
  account, under whatever name and whatever fails, was given the user's name and the new password: the old one is refused
  unless it is the same.\<close>

theorem password_change_takes_effect:
  assumes hash: "\<And>salt h p. x_hash X salt new = Some h \<Longrightarrow> x_verify X h p \<longleftrightarrow> p = new"
    and me: "u0 \<in> set (users (db w))" "u_id u0 = sub c" "u_name u0 = username c"
    and keys: "distinct (map u_id (users (db w)))" "distinct (map u_name (users (db w)))"
    and run: "change_password_handler X c raw new w = (Ok resp, w')"
  shows "x_verify X (u_hash u0) raw
     \<and> (faults w' = [] \<longrightarrow> fst (validate_user_password X (username c) new w') = Ok (sub c, role_from (u_role u0)))
     \<and> (\<forall>nm p v ro. users (db v) = users (db w') \<longrightarrow> fst (validate_user_password X nm p v) = Ok (sub c, ro)
          \<longrightarrow> nm = username c \<and> p = new)"
proof -
  let ?f = "\<lambda>_::int. nonempty_error ''raw_password'' ''the password is empty'' raw
                 @ length_error ''new_password'' 6 100 ''the new password has 6 to 100 characters'' new"
  have "require_valid ?f w = (Ok (), w)"
    using run by (cases rule: require_valid_cases [of ?f w]) (simp_all add: change_password_handler_def and_then_def)
  with run have r0: "and_then (map_err (\<lambda>_. PasswordWrong) (validate_user_password X (username c) raw)) (\<lambda>_.
     and_then (change_user_password X (sub c) new) (\<lambda>_. return (resp_ok_msg ''password changed''))) w = (Ok resp, w')"
    by (simp add: change_password_handler_def and_then_def)
  then obtain a w1 where v: "validate_user_password X (username c) raw w = (Ok a, w1)"
    and r1: "and_then (change_user_password X (sub c) new) (\<lambda>_. return (resp_ok_msg ''password changed'')) w1 = (Ok resp, w')"
    by (rule and_then_OkE) simp
  obtain uid ro where a: "a = (uid, ro)" by (cases a)
  from validate_user_password_cases [OF v] a obtain u where u: "u \<in> set (users (db w))" "u_name u = username c"
    "x_verify X (u_hash u) raw" and w1: "w1 = w\<lparr>faults := faults w1\<rparr>" by blast
  have "u = u0" using keys(2) u(1,2) me by (metis distinct_map inj_onD)
  from r1 obtain x w2 where c: "change_user_password X (sub c) new w1 = (Ok x, w2)" and w2: "w' = w2"
    by (rule and_then_OkE) (simp add: return_def)
  from c obtain h w3 where h: "hash_password X new w1 = (Ok h, w3)"
    and r3: "and_then (unexpected (sql (update_user (sub c) (\<lambda>u. u\<lparr>u_hash := h\<rparr>)))) (\<lambda>_. return ()) w3 = ((Ok x :: (app_error, _) result), w2)"
    unfolding change_user_password_def by (rule and_then_OkE) (simp add: unexpected_def)
  from h have ver: "x_verify X h p \<longleftrightarrow> p = new" and db3: "db w3 = db w" for p
    using hash arg_cong [OF w1, of db]
    by (auto simp: hash_password_def and_then_def new_uuid_def throw_def return_def split: option.splits)
  from r3 obtain n where "sql (update_user (sub c) (\<lambda>u. u\<lparr>u_hash := h\<rparr>)) w3 = (Ok n, w')"
    unfolding unexpected_def w2 by (elim and_then_OkE) (auto simp: return_def)
  from sql_OkD [OF this] db3 have users': "users (db w') = update_where (\<lambda>u. u_id u = sub c) (\<lambda>u. u\<lparr>u_hash := h\<rparr>) (users (db w))"
    by (auto simp: update_user_def split: if_splits)
  let ?u = "u0\<lparr>u_hash := h\<rparr>"
  have "?u \<in> set (users (db w'))" unfolding users' using me by (auto simp: in_update_where)
  note new_row = this
  have "map u_name (users (db w')) = map u_name (users (db w))"
    unfolding users' by (rule map_key_update_where) simp
  then have "distinct (map u_name (users (db w')))" using keys(2) by (simp only:)
  with new_row have "row_by u_name (username c) (users (db w')) = Some ?u"
    using row_by_distinct [of u_name "users (db w')" ?u] me(3) by simp
  then have "faults w' = [] \<longrightarrow> fst (validate_user_password X (username c) new w') = Ok (sub c, role_from (u_role u0))"
    using ver me(2) by (simp add: validate_user_password_def get_stored_credentials_def select_no_fault and_then_def
        verify_password_def guard_def return_def Let_def)
  moreover have "nm = username c \<and> p = new" if users: "users (db v) = users (db w')"
    and opens: "fst (validate_user_password X nm p v) = Ok (sub c, ro)" for nm p v ro
  proof -
    obtain v' where "validate_user_password X nm p v = (Ok (sub c, ro), v')" using opens by (metis prod.collapse)
    from validate_user_password_cases [OF this] users obtain u' where
      u': "u' \<in> set (users (db w'))" "u_name u' = nm" "u_id u' = sub c" "x_verify X (u_hash u') p" by auto
    have "map u_id (users (db w')) = map u_id (users (db w))"
      unfolding users' by (rule map_key_update_where) simp
    then have "distinct (map u_id (users (db w')))" using keys(1) by (simp only:)
    then have "u' = ?u" using u'(1,3) new_row me(2) by (auto simp: distinct_map elim!: inj_onD)
    with u' ver me(3) show ?thesis by simp
  qed
  ultimately show ?thesis using u(3) \<open>u = u0\<close> by blast
qed

lemma demo_change_run:
  "\<exists>resp w'. change_password_handler demo_externs ((demo_claims USER 1)\<lparr>username := ''usera''\<rparr>) ''secret'' ''longer''
     (demo_access []) = (Ok resp, w') \<and> faults w' = []"
  by (simp add: change_password_handler_def and_then_def require_valid_def nonempty_error_def length_error_def
      char_count_def map_err_def validate_user_password_def get_stored_credentials_def select_def sql_def
      demo_access_def demo_world_def row_by_def demo_user_def demo_uuid_str_def verify_password_def guard_def
      demo_externs_def return_def change_user_password_def unexpected_def hash_password_def new_uuid_def
      update_user_def user_fits_def fits_def demo_claims_def Let_def)

theorem password_change_takes_effect_witness:
  "\<exists>resp w'. change_password_handler demo_externs ((demo_claims USER 1)\<lparr>username := ''usera''\<rparr>) ''secret'' ''longer''
     (demo_access []) = (Ok resp, w')
   \<and> fst (validate_user_password demo_externs ''usera'' ''longer'' w') = Ok (1, USER)
   \<and> fst (validate_user_password demo_externs ''usera'' ''secret'' w') \<noteq> Ok (1, USER)"
proof -
  let ?c = "(demo_claims USER 1)\<lparr>username := ''usera''\<rparr>"
  obtain resp w' where run: "change_password_handler demo_externs ?c ''secret'' ''longer'' (demo_access []) = (Ok resp, w')"
    and calm: "faults w' = []" using demo_change_run by blast
  have ver: "x_hash demo_externs salt ''longer'' = Some h \<Longrightarrow> x_verify demo_externs h p \<longleftrightarrow> p = ''longer''" for salt h p
    by (auto simp: demo_externs_def)
  have me: "demo_user 1 \<in> set (users (db (demo_access [])))" "u_id (demo_user 1) = sub ?c"
    "u_name (demo_user 1) = username ?c"
    by (simp_all add: demo_access_def demo_user_def demo_claims_def demo_uuid_str_def)
  have keys: "distinct (map u_id (users (db (demo_access []))))" "distinct (map u_name (users (db (demo_access []))))"
    by (simp_all add: demo_access_def demo_user_def)
  have "role_from (u_role (demo_user 1)) = USER" by (simp add: demo_user_def role_from_def to_uppercase_def upper_char_def is_lower_def)
  moreover have "sub ?c = 1" "username ?c = ''usera''" by (simp_all add: demo_claims_def)
  moreover have "x_verify demo_externs (u_hash (demo_user 1)) ''secret''
     \<and> (faults w' = [] \<longrightarrow> fst (validate_user_password demo_externs (username ?c) ''longer'' w') = Ok (sub ?c, role_from (u_role (demo_user 1))))
     \<and> (\<forall>nm p v ro. users (db v) = users (db w') \<longrightarrow> fst (validate_user_password demo_externs nm p v) = Ok (sub ?c, ro)
          \<longrightarrow> nm = username ?c \<and> p = ''longer'')"
    by (rule password_change_takes_effect [OF ver me keys run])
  ultimately have "fst (validate_user_password demo_externs ''usera'' ''longer'' w') = Ok (1, USER)"
    "fst (validate_user_password demo_externs ''usera'' p w') = Ok (1, USER) \<longrightarrow> p = ''longer''" for p
    using calm by auto
  from this(1) this(2) [of "''secret''"] run show ?thesis by auto
qed

section \<open>Avatar keys\<close>

lemma split_first_prefix: "CHR ''.'' \<notin> set k \<Longrightarrow> split_first (CHR ''.'') (k @ ''.'' @ e) = k"
  using split_first_append [of "CHR ''.''" k e] by simp

text \<open> The avatar key kept in the database determines the stored object and the download name again:
  whatever the (metadata) file name was, if a key can be built from it, the view URL made of
  that key is the URL of the object the picture was copied to, offered as
  \<open><user id>.<extension>\<close>.\<close>

theorem avatar_key_round_trip:
  assumes "uuid_codec X" and "build_avatar_key (build_avatar_dest_key X uid) fname = Inr key"
  shows "\<exists>e. path_extension fname = Some e
     \<and> parse_avatar_key_to_url X key w
         = unexpected (generate_view_url X (x_uuid_str X uid @ ''.'' @ e) (build_avatar_dest_key X uid)) w"
proof -
  from assms(2) obtain e where e: "path_extension fname = Some e" and key: "key = build_avatar_dest_key X uid @ ''.'' @ e"
    by (auto simp: build_avatar_key_def split: option.splits)
  have "CHR ''.'' \<notin> set (build_avatar_dest_key X uid)"
    using assms(1) by (simp add: build_avatar_dest_key_def uuid_codec_def)
  then have obj: "split_first (CHR ''.'') key = build_avatar_dest_key X uid"
    using split_first_prefix key by simp
  have "key = ''avatar/'' @ (x_uuid_str X uid @ ''.'' @ e)" by (simp add: key build_avatar_dest_key_def)
  then have name: "strip_prefix ''avatar/'' key = Some (x_uuid_str X uid @ ''.'' @ e)"
    by (simp only: strip_prefix_append)
  show ?thesis using e obj name by (simp add: parse_avatar_key_to_url_def)
qed

theorem avatar_key_round_trip_witness:
  "\<exists>e. path_extension ''me.png'' = Some e
     \<and> parse_avatar_key_to_url demo_externs ''avatar/a.png'' (demo_world [] [])
         = unexpected (generate_view_url demo_externs (''a.'' @ e) ''avatar/a'') (demo_world [] [])"
proof -
  have d: "build_avatar_dest_key demo_externs 1 = ''avatar/a''" "x_uuid_str demo_externs 1 = ''a''"
    by (simp_all add: build_avatar_dest_key_def demo_externs_def demo_uuid_str_def)
  have "build_avatar_key (build_avatar_dest_key demo_externs 1) ''me.png'' = Inr ''avatar/a.png''"
    by (simp add: d build_avatar_key_def path_extension_def path_file_name_def rsplit_dot_def Let_def)
  from avatar_key_round_trip [OF demo_uuid_codec this, of "demo_world [] []"] show ?thesis by (simp add: d)
qed

end
