(* ===== verification/Templates.thy ===== *)
theory Templates
  imports Users
begin

text \<open>
  \<open>modules/admin/template/\<close> and the template part of \<open>modules/archive/service.rs\<close>: templates
  are created, changed, disabled and deleted by administrators; the compiled schema of a
  template and its file fields are cached in memory until the template is changed.
\<close>

section \<open>Requests and answers\<close>

record create_template_request =
  ct_name :: string
  ct_category :: string
  ct_desc :: "string option"
  ct_schema :: template_schema
  ct_files :: "file_definition list option"

record update_template_request =
  ut_id :: uuid
  ut_name :: "string option"
  ut_category :: "string option"
  ut_desc :: "string option"
  ut_schema :: "template_schema option"
  ut_files :: "file_definition list option"

record template_dto =
  td_id :: uuid
  td_name :: string
  td_category :: string
  td_desc :: "string option"
  td_schema :: json
  td_active :: bool
  td_created :: int
  td_by :: "uuid option"
  td_updated :: int

definition template_to_dto :: "template_row \<Rightarrow> template_dto" where
  "template_to_dto t = \<lparr>td_id = t_id t, td_name = t_name t, td_category = t_category t, td_desc = t_desc t,
     td_schema = t_schema t, td_active = t_active t, td_created = t_created t, td_by = t_by t, td_updated = t_updated t\<rparr>"

definition schema_validation_errors :: "externs \<Rightarrow> template_schema \<Rightarrow> validation_errors" where
  "schema_validation_errors X ts =
     (case template_schema_validate (x_schema_error X) (x_schema_errors X) ts of
        Err e \<Rightarrow> [(''schema'', [e])] | _ \<Rightarrow> [])"

definition validate_create_template :: "externs \<Rightarrow> create_template_request \<Rightarrow> validation_errors" where
  "validate_create_template X r =
     length_error ''name'' 1 100 ''the template name has 1 to 100 characters'' (ct_name r)
     @ length_error ''category'' 1 50 ''the template category has 1 to 50 characters'' (ct_category r)
     @ option_errors (nonempty_error ''description'' ''the template description is empty'') (ct_desc r)
     @ schema_validation_errors X (ct_schema r)"

definition validate_update_template :: "externs \<Rightarrow> update_template_request \<Rightarrow> validation_errors" where
  "validate_update_template X r =
     option_errors (length_error ''name'' 1 100 ''the template name has 1 to 100 characters'') (ut_name r)
     @ option_errors (length_error ''category'' 1 50 ''the template category has 1 to 50 characters'') (ut_category r)
     @ option_errors (nonempty_error ''description'' ''the template description is empty'') (ut_desc r)
     @ option_errors (schema_validation_errors X) (ut_schema r)"

section \<open>Creating\<close>

text \<open>The loop over the file definitions of a request.\<close>

fun define_files :: "file_definition list \<Rightarrow> json \<Rightarrow> ('e, json) result" where
  "define_files [] schema = Ok schema"
| "define_files (f # fs) schema =
     (case into_schema (fd_config f) (fd_field f) schema (fd_title f) of
        Ok schema' \<Rightarrow> define_files fs schema' | Err e \<Rightarrow> Err e | Panic \<Rightarrow> Panic)"

definition insert_template :: "uuid \<Rightarrow> create_template_request \<Rightarrow> json \<Rightarrow> uuid \<Rightarrow> template_row stmt" where
  "insert_template fresh r schema uid now d =
     (let t = \<lparr>t_id = fresh, t_name = ct_name r, t_category = ct_category r, t_desc = ct_desc r,
               t_schema = schema, t_active = True, t_by = Some uid, t_created = now, t_updated = now\<rparr>
      in if 100 < char_count (ct_name r) \<or> 50 < char_count (ct_category r) then Inl ''22001''
         else if fresh \<in> t_id ` set (templates d) then Inl ''23505''
         else if uid \<notin> u_id ` set (users d) then Inl ''23503''
         else Inr (t, d\<lparr>templates := templates d @ [t]\<rparr>))"

definition create_template :: "create_template_request \<Rightarrow> uuid \<Rightarrow> (world, app_error, template_dto) prog" where
  "create_template r uid =
     and_then (lift_result id (case ct_files r of
                  None \<Rightarrow> Ok (schema_def (ct_schema r))
                | Some fs \<Rightarrow> define_files fs (schema_def (ct_schema r)))) (\<lambda>schema.
     and_then new_uuid (\<lambda>fresh.
     and_then (unexpected (sql (insert_template fresh r schema uid))) (\<lambda>t.
     return (template_to_dto t))))"

definition create_template_handler :: "externs \<Rightarrow> create_template_request \<Rightarrow> claims \<Rightarrow>
    (world, app_error, template_dto app_response) prog" where
  "create_template_handler X r user =
     and_then (require_valid (\<lambda>_. validate_create_template X r)) (\<lambda>_.
     and_then (create_template r (sub user)) (\<lambda>dto.
     return (resp_created dto ''template created'')))"

section \<open>Querying\<close>

record query_templates_request =
  qt_id :: "uuid option"
  qt_name :: "string option"
  qt_category :: "string option"
  qt_page :: i64
  qt_page_size :: i64

definition template_matches :: "query_templates_request \<Rightarrow> template_row \<Rightarrow> bool" where
  "template_matches q t \<longleftrightarrow>
     (case qt_id q of None \<Rightarrow> True | Some i \<Rightarrow> t_id t = i)
     \<and> (case qt_name q of None \<Rightarrow> True | Some s \<Rightarrow> ilike (''%'' @ s @ ''%'') (t_name t))
     \<and> (case qt_category q of None \<Rightarrow> True | Some s \<Rightarrow> t_category t = s)"

definition query_templates :: "query_templates_request \<Rightarrow> (world, app_error, template_dto page_data) prog" where
  "query_templates q =
     and_then (unexpected (select (\<lambda>_ d. word_of_int (int (count_where (template_matches q) (templates d))) :: i64))) (\<lambda>cnt.
     and_then (unexpected (sql (page_query (qt_page q) (qt_page_size q) (\<lambda>t. - t_created t) template_to_dto (\<lambda>d.
        filter (template_matches q) (templates d))))) (\<lambda>rows.
     return (page_data_from rows cnt (qt_page q) (qt_page_size q))))"

definition query_templates_handler :: "query_templates_request \<Rightarrow>
    (world, app_error, template_dto page_data app_response) prog" where
  "query_templates_handler q =
     and_then (require_valid (\<lambda>_. validate_page (qt_page q) (qt_page_size q))) (\<lambda>_.
     and_then (query_templates q) (\<lambda>pd. return (resp_success_msg pd ''templates found'')))"

text \<open>\<open>SELECT DISTINCT\<close>; the order of the rows is left open by SQL.\<close>

definition get_all_template_categories :: "(world, app_error, string list app_response) prog" where
  "get_all_template_categories =
     and_then (unexpected (select (\<lambda>_ d. remdups (map t_category (filter t_active (templates d))))))
       (\<lambda>cs. return (resp_success_msg cs ''categories found''))"

section \<open>The cache as an interface\<close>

text \<open>What the code uses of the concurrent map \<open>DashMap\<close>.\<close>

definition dm_get :: "uuid \<Rightarrow> (uuid \<Rightarrow> template_context option) \<Rightarrow> template_context option" where
  "dm_get k c = c k"

definition dm_insert :: "uuid \<Rightarrow> template_context \<Rightarrow> (uuid \<Rightarrow> template_context option) \<Rightarrow>
    (uuid \<Rightarrow> template_context option)" where
  "dm_insert k v c = c(k \<mapsto> v)"

definition dm_remove :: "uuid \<Rightarrow> (uuid \<Rightarrow> template_context option) \<Rightarrow> (uuid \<Rightarrow> template_context option)" where
  "dm_remove k c = c(k := None)"

text \<open>
  A cache in front of a source of truth. It is coherent when whatever it holds is what the
  source says; filling it from the source, and forgetting the key whose truth changed, keep that.
\<close>

locale memo_cache =
  fixes lookup :: "'k \<Rightarrow> 'c \<Rightarrow> 'v option"
    and fill :: "'k \<Rightarrow> 'v \<Rightarrow> 'c \<Rightarrow> 'c"
    and forget :: "'k \<Rightarrow> 'c \<Rightarrow> 'c"
  assumes lookup_fill: "lookup k' (fill k v c) = (if k' = k then Some v else lookup k' c)"
    and lookup_forget: "lookup k' (forget k c) = (if k' = k then None else lookup k' c)"
begin

lemma coherent_fill:
  assumes "\<forall>k v. lookup k c = Some v \<longrightarrow> truth k = Some v" and "truth k = Some v"
  shows "\<forall>k' v'. lookup k' (fill k v c) = Some v' \<longrightarrow> truth k' = Some v'"
  using assms by (simp add: lookup_fill)

lemma coherent_forget:
  assumes "\<forall>k v. lookup k c = Some v \<longrightarrow> truth k = Some v" and "\<And>k'. k' \<noteq> k \<Longrightarrow> truth' k' = truth k'"
  shows "\<forall>k' v'. lookup k' (forget k c) = Some v' \<longrightarrow> truth' k' = Some v'"
  using assms by (simp add: lookup_forget)

lemma coherent_grow:
  assumes "\<forall>k v. lookup k c = Some v \<longrightarrow> truth k = Some v" and "\<And>k v. truth k = Some v \<Longrightarrow> truth' k = Some v"
  shows "\<forall>k v. lookup k c = Some v \<longrightarrow> truth' k = Some v"
  using assms by blast

end

interpretation schemas: memo_cache dm_get dm_insert dm_remove
  by unfold_locales (simp_all add: dm_get_def dm_insert_def dm_remove_def)

section \<open>Changing, disabling, deleting\<close>

definition clear_template_cache :: "uuid \<Rightarrow> (world, 'e, unit) prog" where
  "clear_template_cache tid = modify (\<lambda>w. w\<lparr>schema_cache := dm_remove tid (schema_cache w)\<rparr>)"

definition check_any_record_exists :: "uuid \<Rightarrow> (world, app_error, bool) prog" where
  "check_any_record_exists tid = unexpected (select (\<lambda>_ d. list_ex (\<lambda>a. a_template a = tid) (records d)))"

text \<open>The file definitions of an update need the schema of the request: \<open>unwrap\<close> panics without it.\<close>

definition updated_schema :: "update_template_request \<Rightarrow> ('e, json option) result" where
  "updated_schema r =
     (case ut_files r of
        None \<Rightarrow> Ok (map_option schema_def (ut_schema r))
      | Some [] \<Rightarrow> Ok (map_option schema_def (ut_schema r))
      | Some fs \<Rightarrow>
          (case ut_schema r of
             None \<Rightarrow> Panic
           | Some s \<Rightarrow> (case define_files fs (schema_def s) of
               Ok v \<Rightarrow> Ok (Some v) | Err e \<Rightarrow> Err e | Panic \<Rightarrow> Panic)))"

definition apply_update :: "update_template_request \<Rightarrow> json option \<Rightarrow> int \<Rightarrow> template_row \<Rightarrow> template_row" where
  "apply_update r schema now t =
     t\<lparr>t_name := coalesce (ut_name r) (t_name t), t_category := coalesce (ut_category r) (t_category t),
       t_desc := (if ut_desc r = None then t_desc t else ut_desc r),
       t_schema := coalesce schema (t_schema t), t_updated := now\<rparr>"

text \<open>\<open>UPDATE .. RETURNING ..\<close> of the row with the key.\<close>

definition update_template_row :: "uuid \<Rightarrow> (int \<Rightarrow> template_row \<Rightarrow> template_row) \<Rightarrow> template_row option stmt" where
  "update_template_row tid f now d =
     (case row_by t_id tid (templates d) of
        None \<Rightarrow> Inr (None, d)
      | Some t \<Rightarrow>
          if 100 < char_count (t_name (f now t)) \<or> 50 < char_count (t_category (f now t)) then Inl ''22001''
          else Inr (Some (f now t), d\<lparr>templates := update_where (\<lambda>t. t_id t = tid) (f now) (templates d)\<rparr>))"

definition update_template :: "update_template_request \<Rightarrow> (world, app_error, template_dto) prog" where
  "update_template r =
     and_then (lift_result id (updated_schema r)) (\<lambda>schema.
     and_then (unexpected (sql (update_template_row (ut_id r) (apply_update r schema)))) (\<lambda>row.
       case row of
         None \<Rightarrow> throw (DataNotFound ''template not found'')
       | Some t \<Rightarrow> and_then (clear_template_cache (ut_id r)) (\<lambda>_. return (template_to_dto t))))"

definition update_template_handler :: "externs \<Rightarrow> update_template_request \<Rightarrow>
    (world, app_error, template_dto app_response) prog" where
  "update_template_handler X r =
     and_then (require_valid (\<lambda>_. validate_update_template X r)) (\<lambda>_.
     and_then (check_any_record_exists (ut_id r)) (\<lambda>there.
       if there then throw (DatabaseConflictError ''the template has records and cannot be changed'')
       else and_then (update_template r) (\<lambda>dto. return (resp_success_msg dto ''template updated''))))"

text \<open>\<open>ON DELETE RESTRICT\<close> guards the records of a template.\<close>

definition delete_template_stmt :: "uuid \<Rightarrow> nat stmt" where
  "delete_template_stmt tid now d =
     (if tid \<in> t_id ` set (templates d) \<and> tid \<in> a_template ` set (records d) then Inl ''23503''
      else Inr (count_where (\<lambda>t. t_id t = tid) (templates d),
                d\<lparr>templates := delete_where (\<lambda>t. t_id t = tid) (templates d)\<rparr>))"

definition delete_template :: "uuid \<Rightarrow> (world, app_error, unit) prog" where
  "delete_template tid =
     and_then (unexpected (sql (delete_template_stmt tid))) (\<lambda>n.
       if n = 0 then throw (DataNotFound ''template not found'') else clear_template_cache tid)"

definition delete_template_handler :: "uuid \<Rightarrow> (world, app_error, unit app_response) prog" where
  "delete_template_handler tid =
     and_then (check_any_record_exists tid) (\<lambda>there.
       if there then throw (DatabaseConflictError ''the template has records and cannot be deleted'')
       else and_then (delete_template tid) (\<lambda>_. return (resp_ok_msg ''template deleted'')))"

definition modify_template_status :: "uuid \<Rightarrow> bool \<Rightarrow> (world, app_error, unit) prog" where
  "modify_template_status tid act =
     and_then (unexpected (sql (update_template_row tid (\<lambda>now t. t\<lparr>t_active := act, t_updated := now\<rparr>))))
       (\<lambda>row. if row = None then throw (DataNotFound ''template not found'') else return ())"

definition modify_template_status_handler :: "uuid \<Rightarrow> bool \<Rightarrow> (world, app_error, unit app_response) prog" where
  "modify_template_status_handler tid act =
     and_then (modify_template_status tid act) (\<lambda>_. return (resp_ok_msg ''template status changed''))"

definition check_template_is_enabled :: "uuid \<Rightarrow> (world, app_error, unit) prog" where
  "check_template_is_enabled tid =
     and_then (unexpected (select (\<lambda>_ d. map_option t_active (row_by t_id tid (templates d))))) (\<lambda>row.
       case row of
         None \<Rightarrow> throw (DataNotFound ''the template does not exist'')
       | Some act \<Rightarrow> if \<not> act then throw (Forbidden ''the template is disabled'') else return ())"

section \<open>The cache of schema contexts\<close>

definition context_of :: "json \<Rightarrow> template_context" where
  "context_of schema = \<lparr>validator = schema, file_field_configs = try_from_schema schema\<rparr>"

definition from_database_get_template_context :: "externs \<Rightarrow> uuid \<Rightarrow> (world, app_error, template_context) prog" where
  "from_database_get_template_context X tid =
     and_then (unexpected (select (\<lambda>_ d. map_option t_schema (row_by t_id tid (templates d))))) (\<lambda>row.
       case row of
         None \<Rightarrow> throw (DataNotFound ''the template does not exist'')
       | Some schema \<Rightarrow>
           (case x_schema_error X schema of
              Some e \<Rightarrow> throw (UnexpectedError (Anyhow (''no validator for template '' @ x_uuid_str X tid @ '': '' @ e)))
            | None \<Rightarrow> return (context_of schema)))"

definition cache_insert :: "uuid \<Rightarrow> template_context \<Rightarrow> (world, 'e, unit) prog" where
  "cache_insert tid c = modify (\<lambda>w. w\<lparr>schema_cache := dm_insert tid c (schema_cache w)\<rparr>)"

definition get_or_load_template_context :: "externs \<Rightarrow> uuid \<Rightarrow> (world, app_error, template_context) prog" where
  "get_or_load_template_context X tid =
     and_then (gets (\<lambda>w. dm_get tid (schema_cache w))) (\<lambda>hit.
       case hit of
         Some c \<Rightarrow> return c
       | None \<Rightarrow>
           and_then (from_database_get_template_context X tid) (\<lambda>c.
           and_then (cache_insert tid c) (\<lambda>_. return c)))"

definition validate_instance_by_id :: "externs \<Rightarrow> uuid \<Rightarrow> json \<Rightarrow> (world, app_error, unit) prog" where
  "validate_instance_by_id X tid instance_value =
     and_then (get_or_load_template_context X tid) (\<lambda>c.
       lift_result (\<lambda>e. ValidationError [(''data'', [e])])
         (validate_instance (x_schema_errors X) (validator c) instance_value))"

definition get_template_info_by_id :: "uuid \<Rightarrow> (world, app_error, template_dto) prog" where
  "get_template_info_by_id tid =
     and_then (unexpected (select (\<lambda>_ d. row_by t_id tid (templates d)))) (\<lambda>row.
       case row of None \<Rightarrow> throw (DataNotFound ''template not found'') | Some t \<Rightarrow> return (template_to_dto t))"

definition get_template_info_handler :: "uuid \<Rightarrow> (world, app_error, template_dto app_response) prog" where
  "get_template_info_handler tid =
     and_then (get_template_info_by_id tid) (\<lambda>dto. return (resp_success_msg dto ''template found''))"

section \<open>Statements and their outcomes\<close>

lemma unexpected_sql_cases:
  obtains (err) e fs where "unexpected (sql st) w = (Err e, w\<lparr>faults := fs\<rparr>)"
  | (ok) x d fs where "unexpected (sql st) w = (Ok x, w\<lparr>faults := fs, db := d\<rparr>)" "st (clock w) (db w) = Inr (x, d)"
proof (cases "sql st w")
  case (Pair r w')
  show thesis
  proof (cases r)
    case (Ok x)
    then obtain fs d where "st (clock w) (db w) = Inr (x, d)" "w' = w\<lparr>faults := fs, db := d\<rparr>"
      using sql_OkD [OF Pair [unfolded Ok]] by blast
    with Pair Ok ok show thesis by (simp add: unexpected_def map_err_def)
  next
    case (Err e)
    then obtain fs where "w' = w\<lparr>faults := fs\<rparr>" using sql_ErrD [OF Pair [unfolded Err]] by blast
    with Pair Err err show thesis by (simp add: unexpected_def map_err_def)
  next
    case Panic
    with Pair show thesis by (auto simp: sql_def split: prod.splits if_splits sum.splits)
  qed
qed

lemma unexpected_select_cases:
  obtains (err) e fs where "unexpected (select q) w = (Err e, w\<lparr>faults := fs\<rparr>)"
  | (ok) fs where "unexpected (select q) w = (Ok (q (clock w) (db w)), w\<lparr>faults := fs\<rparr>)"
proof (cases rule: unexpected_sql_cases [of "\<lambda>now d. Inr (q now d, d)" w])
  case (err e fs)
  with that(1) show thesis by (simp add: select_def)
next
  case (ok x d fs)
  from ok(2) have "x = q (clock w) (db w)" "d = db w" by auto
  with ok(1) have "unexpected (select q) w = (Ok (q (clock w) (db w)), w\<lparr>faults := fs, db := db w\<rparr>)"
    by (simp only: select_def)
  moreover have "w\<lparr>faults := fs, db := db w\<rparr> = w\<lparr>faults := fs\<rparr>" by simp
  ultimately show thesis by (intro that(2)) (simp only:)
qed

section \<open>Coherence of the cache\<close>

text \<open>What the cache should hold for a template: the context of its stored schema, if it compiles.\<close>

definition true_context :: "externs \<Rightarrow> database \<Rightarrow> uuid \<Rightarrow> template_context option" where
  "true_context X d tid =
     (case row_by t_id tid (templates d) of
        None \<Rightarrow> None
      | Some t \<Rightarrow> if x_schema_error X (t_schema t) = None then Some (context_of (t_schema t)) else None)"

definition cache_ok :: "externs \<Rightarrow> world \<Rightarrow> bool" where
  "cache_ok X w \<longleftrightarrow> (\<forall>k v. dm_get k (schema_cache w) = Some v \<longrightarrow> true_context X (db w) k = Some v)"

lemma cache_ok_same: "schema_cache w' = schema_cache w \<Longrightarrow> templates (db w') = templates (db w) \<Longrightarrow>
    cache_ok X w \<Longrightarrow> cache_ok X w'"
  by (simp add: cache_ok_def true_context_def)

lemma cache_ok_forget:
  assumes "cache_ok X w" and "schema_cache w' = dm_remove tid (schema_cache w)"
    and "\<And>k. k \<noteq> tid \<Longrightarrow> row_by t_id k (templates (db w')) = row_by t_id k (templates (db w))"
  shows "cache_ok X w'"
  using schemas.coherent_forget [of "schema_cache w" "true_context X (db w)" tid "true_context X (db w')"] assms
  by (simp add: cache_ok_def true_context_def)

lemma fault_free_cache_ok: "fault_free_inv (cache_ok X)"
  by (simp add: fault_free_inv_def cache_ok_def true_context_def)

lemma cache_ok_faults [simp]: "cache_ok X (w\<lparr>faults := fs\<rparr>) = cache_ok X w"
  by (simp add: cache_ok_def true_context_def)

lemma true_context_faults [simp]: "true_context X (db (w\<lparr>faults := fs\<rparr>)) = true_context X (db w)"
  by simp

lemma keeps_cache_select [keeps_rules]: "keeps (cache_ok X) (unexpected (select q))"
  by (intro keeps_unexpected keeps_select fault_free_cache_ok)

lemma keeps_cache_new_uuid [keeps_rules]: "keeps (cache_ok X) new_uuid"
  by (rule keepsI) (auto simp: new_uuid_def elim!: cache_ok_same [rotated 2])

lemma keeps_cache_valid [keeps_rules]: "keeps I (require_valid f)"
proof (rule keepsI)
  fix w assume "I w"
  then show "I (snd (require_valid f w))" by (cases rule: require_valid_cases [of f w]) simp_all
qed

text \<open>A statement that leaves the cached templates' schemas alone.\<close>

lemma keeps_cache_sql:
  assumes "\<And>now d x d' k v. st now d = Inr (x, d') \<Longrightarrow> true_context X d k = Some v \<Longrightarrow> true_context X d' k = Some v"
  shows "keeps (cache_ok X) (unexpected (sql st))"
proof (rule keepsI)
  fix w assume I: "cache_ok X w"
  show "cache_ok X (snd (unexpected (sql st) w))"
  proof (cases rule: unexpected_sql_cases [of st w])
    case (ok x d fs)
    with I assms [OF ok(2)] show ?thesis by (auto simp: cache_ok_def)
  qed (use I in simp)
qed

lemma insert_template_context:
  assumes "insert_template fresh r schema uid now d = Inr (x, d')" and "true_context X d k = Some v"
  shows "true_context X d' k = Some v"
  using assms
  by (auto simp: insert_template_def Let_def true_context_def row_by_append split: if_splits option.splits)

lemma keeps_cache_create: "keeps (cache_ok X) (create_template_handler X r user)"
  unfolding create_template_handler_def create_template_def
  by (intro keeps_rules keeps_lift_result keeps_cache_sql) (rule insert_template_context)

text \<open>An update or deletion of one row, then its key is forgotten.\<close>

lemma update_template_row_other:
  assumes "update_template_row tid f now d = Inr (row, d')" and "\<And>t. t_id (f now t) = t_id t" and "k \<noteq> tid"
  shows "row_by t_id k (templates d') = row_by t_id k (templates d)"
  using assms by (auto simp: update_template_row_def row_by_update_where split: option.splits if_splits)

lemma t_id_apply_update [simp]: "t_id (apply_update r schema now t) = t_id t"
  by (simp add: apply_update_def)

lemma keeps_cache_update: "keeps (cache_ok X) (update_template r)"
proof (rule keepsI)
  fix w assume I: "cache_ok X w"
  show "cache_ok X (snd (update_template r w))"
  proof (cases "updated_schema r :: (app_error, json option) result")
    case (Ok schema)
    let ?st = "update_template_row (ut_id r) (apply_update r schema)"
    show ?thesis
    proof (cases rule: unexpected_sql_cases [of ?st w])
      case (err e fs)
      with I Ok show ?thesis by (simp add: update_template_def and_then_def lift_result_def)
    next
      case (ok row d fs)
      show ?thesis
      proof (cases row)
        case None
        with ok(2) have "d = db w" by (auto simp: update_template_row_def split: option.splits if_splits)
        with I Ok ok None show ?thesis
          by (simp add: update_template_def and_then_def lift_result_def throw_def)
      next
        case (Some t)
        have "cache_ok X (w\<lparr>faults := fs, db := d, schema_cache := dm_remove (ut_id r) (schema_cache w)\<rparr>)"
          using I by (rule cache_ok_forget) (use update_template_row_other [OF ok(2)] in simp_all)
        with Ok ok Some show ?thesis
          by (simp add: update_template_def and_then_def lift_result_def clear_template_cache_def modify_def return_def)
      qed
    qed
  qed (use I in \<open>simp_all add: update_template_def and_then_def lift_result_def\<close>)
qed

lemma keeps_cache_update_handler: "keeps (cache_ok X) (update_template_handler X r)"
  unfolding update_template_handler_def check_any_record_exists_def
  by (intro keeps_rules keeps_cache_update)

lemma keeps_cache_delete: "keeps (cache_ok X) (delete_template tid)"
proof (rule keepsI)
  fix w assume I: "cache_ok X w"
  show "cache_ok X (snd (delete_template tid w))"
  proof (cases rule: unexpected_sql_cases [of "delete_template_stmt tid" w])
    case (err e fs)
    with I show ?thesis by (simp add: delete_template_def and_then_def)
  next
    case (ok n d fs)
    have d: "templates d = delete_where (\<lambda>t. t_id t = tid) (templates (db w))"
      and n: "n = count_where (\<lambda>t. t_id t = tid) (templates (db w))"
      using ok(2) by (auto simp: delete_template_stmt_def split: if_splits)
    show ?thesis
    proof (cases "n = 0")
      case True
      then have "templates d = templates (db w)"
        using n d by (simp add: count_where_0_iff delete_where_def filter_id_conv)
      with I have "cache_ok X (w\<lparr>faults := fs, db := d\<rparr>)" by (simp add: cache_ok_def true_context_def)
      with ok True show ?thesis by (simp add: delete_template_def and_then_def throw_def)
    next
      case False
      have "cache_ok X (w\<lparr>faults := fs, db := d, schema_cache := dm_remove tid (schema_cache w)\<rparr>)"
        using I by (rule cache_ok_forget) (auto simp: d row_by_delete_where)
      with ok False show ?thesis
        by (simp add: delete_template_def and_then_def clear_template_cache_def modify_def)
    qed
  qed
qed

lemma keeps_cache_delete_handler: "keeps (cache_ok X) (delete_template_handler tid)"
  unfolding delete_template_handler_def check_any_record_exists_def
  by (intro keeps_rules keeps_cache_delete)

lemma status_update_context:
  assumes "update_template_row tid (\<lambda>now t. t\<lparr>t_active := act, t_updated := now\<rparr>) now d = Inr (row, d')"
    and "true_context X d k = Some v"
  shows "true_context X d' k = Some v"
  using assms
  by (auto simp: update_template_row_def true_context_def row_by_update_where split: option.splits if_splits)

lemma keeps_cache_status: "keeps (cache_ok X) (modify_template_status_handler tid act)"
  unfolding modify_template_status_handler_def modify_template_status_def
  by (intro keeps_rules keeps_cache_sql) (rule status_update_context)

lemma delete_user_context:
  assumes "delete_user_stmt uid now d = Inr (n, d')" and "true_context X d k = Some v"
  shows "true_context X d' k = Some v"
  using assms
  by (auto simp: delete_user_stmt_def true_context_def row_by_map split: option.splits if_splits)

lemma keeps_cache_delete_user: "keeps (cache_ok X) (admin_delete_user_handler uid user)"
  unfolding admin_delete_user_handler_def delete_user_def
  by (intro keeps_rules keeps_cache_sql) (rule delete_user_context)

lemma load_cases:
  obtains (hit) c where "dm_get tid (schema_cache w) = Some c" "get_or_load_template_context X tid w = (Ok c, w)"
  | (failed) e fs where "get_or_load_template_context X tid w = (Err e, w\<lparr>faults := fs\<rparr>)"
  | (filled) c fs where "true_context X (db w) tid = Some c"
      "get_or_load_template_context X tid w = (Ok c, w\<lparr>faults := fs, schema_cache := dm_insert tid c (schema_cache w)\<rparr>)"
proof (cases "dm_get tid (schema_cache w)")
  case (Some c)
  then show thesis
    by (intro hit [of c]) (simp_all add: get_or_load_template_context_def gets_def and_then_def return_def)
next
  case None
  let ?row = "\<lambda>_ d. map_option t_schema (row_by t_id tid (templates d))"
  note load = get_or_load_template_context_def from_database_get_template_context_def gets_def and_then_def
    throw_def return_def cache_insert_def modify_def
  show thesis
  proof (cases rule: unexpected_select_cases [of ?row w])
    case (err e fs)
    with None show thesis by (intro failed [of e fs]) (simp add: load)
  next
    case (ok fs)
    show thesis
    proof (cases "row_by t_id tid (templates (db w))")
      case None': None
      show thesis by (rule failed) (simp add: load ok None None')
    next
      case (Some t)
      show thesis
      proof (cases "x_schema_error X (t_schema t)")
        case None'': None
        show thesis
          by (rule filled [of "context_of (t_schema t)" fs]) (simp_all add: true_context_def load ok None None'' Some)
      next
        case (Some e)
        show thesis by (rule failed) (simp add: load ok None Some \<open>row_by t_id tid (templates (db w)) = Some t\<close>)
      qed
    qed
  qed
qed

lemma keeps_cache_load [keeps_rules]: "keeps (cache_ok X) (get_or_load_template_context X tid)"
proof (rule keepsI)
  fix w assume I: "cache_ok X w"
  show "cache_ok X (snd (get_or_load_template_context X tid w))"
  proof (cases rule: load_cases [of tid w X])
    case (filled c fs)
    from schemas.coherent_fill [OF I [unfolded cache_ok_def] filled(1)]
    have "cache_ok X (w\<lparr>faults := fs, schema_cache := dm_insert tid c (schema_cache w)\<rparr>)" by (simp add: cache_ok_def)
    then show ?thesis by (simp only: filled(2) snd_conv)
  qed (use I in simp_all)
qed

lemma keeps_cache_validate: "keeps (cache_ok X) (validate_instance_by_id X tid v)"
  unfolding validate_instance_by_id_def by (intro keeps_rules keeps_lift_result)

text \<open>What a load answers when the cache is coherent, and what it leaves of the world.\<close>

lemma load_answer:
  assumes "cache_ok X w" and "get_or_load_template_context X tid w = (Ok c, w')"
  shows "true_context X (db w) tid = Some c \<and> db w' = db w"
proof (cases rule: load_cases [of tid w X])
  case (hit c')
  with assms show ?thesis by (simp add: cache_ok_def)
next
  case (filled c' fs)
  with assms(2) show ?thesis by auto
qed (use assms(2) in simp)

section \<open>Properties\<close>

text \<open>What the routes of a running server do to templates and to the cache, one after the other.\<close>

datatype template_op =
    OpCreate create_template_request claims
  | OpUpdate update_template_request
  | OpDelete uuid
  | OpStatus uuid bool
  | OpValidate uuid json
  | OpLoad uuid
  | OpDeleteUser uuid claims
  | OpOutage "fault list"

fun run_op :: "externs \<Rightarrow> template_op \<Rightarrow> world \<Rightarrow> world" where
  "run_op X (OpCreate r user) w = snd (create_template_handler X r user w)"
| "run_op X (OpUpdate r) w = snd (update_template_handler X r w)"
| "run_op X (OpDelete tid) w = snd (delete_template_handler tid w)"
| "run_op X (OpStatus tid act) w = snd (modify_template_status_handler tid act w)"
| "run_op X (OpValidate tid v) w = snd (validate_instance_by_id X tid v w)"
| "run_op X (OpLoad tid) w = snd (get_or_load_template_context X tid w)"
| "run_op X (OpDeleteUser uid user) w = snd (admin_delete_user_handler uid user w)"
| "run_op X (OpOutage fs) w = w\<lparr>faults := fs\<rparr>"

lemmas keeps_cache = keeps_cache_create keeps_cache_update_handler keeps_cache_delete_handler
  keeps_cache_status keeps_cache_validate keeps_cache_load keeps_cache_delete_user

lemma cache_ok_run: "cache_ok X w \<Longrightarrow> cache_ok X (fold (run_op X) ops w)"
proof (induction ops arbitrary: w)
  case (Cons op ops)
  have "cache_ok X (run_op X op w)" using Cons.prems by (cases op) (simp_all add: keepsD [OF keeps_cache(1)]
      keepsD [OF keeps_cache(2)] keepsD [OF keeps_cache(3)] keepsD [OF keeps_cache(4)] keepsD [OF keeps_cache(5)]
      keepsD [OF keeps_cache(6)] keepsD [OF keeps_cache(7)])
  with Cons.IH show ?case by simp
qed simp

text \<open>C8: A server starts with an empty cache of compiled schemas. Whatever requests it has handled since,
  one after the other and with any pattern of failing database calls, a context it hands out
  for a template is the one of the schema the database holds for that template now: its
  validator and its file fields are never those of an earlier version or of a deleted template.\<close>

theorem handed_out_contexts_are_current:
  assumes "schema_cache w = (\<lambda>_. None)"
    and "get_or_load_template_context X tid (fold (run_op X) ops w) = (Ok c, w')"
  shows "\<exists>t. row_by t_id tid (templates (db w')) = Some t
    \<and> x_schema_error X (t_schema t) = None \<and> c = context_of (t_schema t)"
proof -
  have "cache_ok X w" using assms(1) by (simp add: cache_ok_def dm_get_def)
  then have "cache_ok X (fold (run_op X) ops w)" by (rule cache_ok_run)
  from load_answer [OF this assms(2)] show ?thesis
    by (auto simp: true_context_def split: option.splits if_splits)
qed

definition demo_template :: "uuid \<Rightarrow> json \<Rightarrow> template_row" where
  "demo_template i schema = \<lparr>t_id = i, t_name = ''report'', t_category = ''general'', t_desc = None,
     t_schema = schema, t_active = True, t_by = None, t_created = 0, t_updated = 0\<rparr>"

definition demo_templates :: "template_row list \<Rightarrow> world" where
  "demo_templates ts = (demo_world [] [])\<lparr>db := empty_db\<lparr>users := [demo_user 1], templates := ts\<rparr>\<rparr>"

definition demo_update :: "uuid \<Rightarrow> json \<Rightarrow> update_template_request" where
  "demo_update i schema = \<lparr>ut_id = i, ut_name = None, ut_category = None, ut_desc = None,
     ut_schema = Some \<lparr>schema_def = schema, inst = None\<rparr>, ut_files = None\<rparr>"

lemmas demo_templates_run = demo_templates_def demo_template_def demo_update_def demo_world_def empty_db_def
  demo_externs_def select_no_fault and_then_def unexpected_def map_err_def return_def throw_def gets_def modify_def
  dm_get_def dm_insert_def dm_remove_def lift_result_def require_valid_def sql_def

lemma demo_update_run:
  "snd (update_template_handler demo_externs (demo_update 5 (JObj [])) (demo_templates [demo_template 5 JNull]))
     = demo_templates [demo_template 5 (JObj [])]"
  by (simp add: demo_templates_run update_template_handler_def validate_update_template_def option_errors_def
      schema_validation_errors_def template_schema_validate_def Let_def check_any_record_exists_def update_template_def
      updated_schema_def update_template_row_def apply_update_def coalesce_def char_count_def clear_template_cache_def
      update_where_def)

lemma demo_load_run:
  "get_or_load_template_context demo_externs 5 (demo_templates [demo_template 5 schema]) =
     (Ok (context_of schema), (demo_templates [demo_template 5 schema])\<lparr>schema_cache := dm_insert 5 (context_of schema) (\<lambda>_. None)\<rparr>)"
  by (simp add: demo_templates_run get_or_load_template_context_def from_database_get_template_context_def cache_insert_def)

theorem handed_out_contexts_are_current_witness:
  "\<exists>c w'. get_or_load_template_context demo_externs 5
       (fold (run_op demo_externs) [OpUpdate (demo_update 5 (JObj []))] (demo_templates [demo_template 5 JNull])) = (Ok c, w')
     \<and> (\<exists>t. row_by t_id 5 (templates (db w')) = Some t \<and> c = context_of (t_schema t))"
proof -
  let ?w = "demo_templates [demo_template 5 JNull]"
  obtain c w' where run: "get_or_load_template_context demo_externs 5
      (fold (run_op demo_externs) [OpUpdate (demo_update 5 (JObj []))] ?w) = (Ok c, w')"
    by (simp add: demo_update_run demo_load_run)
  have "schema_cache ?w = (\<lambda>_. None)" by (simp add: demo_templates_def demo_world_def)
  from handed_out_contexts_are_current [OF this run] run show ?thesis by blast
qed

text \<open>What a database answer changes: the tables and the fault script only.\<close>

lemma select_frame: "snd (unexpected (select q) w) = w\<lparr>faults := faults (snd (unexpected (select q) w))\<rparr>"
  by (cases rule: unexpected_select_cases [of q w]) simp_all

lemma require_valid_frame [simp]: "snd (require_valid f w) = w"
  by (cases rule: require_valid_cases [of f w]) simp_all

text \<open> As soon as a record uses a template, the template can neither be changed nor deleted: both
  requests are answered with an error and leave the tables and the cached schema as they are,
  whatever the request and whichever database calls fail.\<close>

theorem templates_in_use_are_frozen:
  assumes "ut_id r \<in> a_template ` set (records (db w))"
  shows "(case update_template_handler X r w of (res, w') \<Rightarrow>
        (\<exists>e. res = Err e) \<and> db w' = db w \<and> schema_cache w' = schema_cache w)
    \<and> (case delete_template_handler (ut_id r) w of (res, w') \<Rightarrow>
        (\<exists>e. res = Err e) \<and> db w' = db w \<and> schema_cache w' = schema_cache w)"
proof -
  have used: "list_ex (\<lambda>a. a_template a = ut_id r) (records (db w))"
    using assms by (auto simp: list_ex_iff)
  let ?q = "\<lambda>_ d. list_ex (\<lambda>a. a_template a = ut_id r) (records d)"
  have step: "\<exists>e fs. and_then (check_any_record_exists (ut_id r)) (\<lambda>b. if b then throw (DatabaseConflictError m) else k) w
      = (Err e, w\<lparr>faults := fs\<rparr>)" for m and k :: "(world, app_error, 'z) prog"
    unfolding check_any_record_exists_def
  proof (cases rule: unexpected_select_cases [of ?q w])
    case (ok fs)
    with used show "\<exists>e fs. and_then (unexpected (select ?q)) (\<lambda>b. if b then throw (DatabaseConflictError m) else k) w
      = (Err e, w\<lparr>faults := fs\<rparr>)" by (intro exI) (simp add: and_then_def throw_def)
  qed (auto simp: and_then_def)
  have upd: "\<exists>e fs. update_template_handler X r w = (Err e, w\<lparr>faults := fs\<rparr>)"
  proof (cases rule: require_valid_cases [of "\<lambda>_. validate_update_template X r" w])
    case 1
    with step show ?thesis by (simp add: update_template_handler_def and_then_def [of "require_valid _"])
  next
    case (2 errs)
    then have "update_template_handler X r w = (Err (ValidationError errs), w\<lparr>faults := faults w\<rparr>)"
      by (simp add: update_template_handler_def and_then_def [of "require_valid _"])
    then show ?thesis by blast
  qed
  have del: "\<exists>e fs. delete_template_handler (ut_id r) w = (Err e, w\<lparr>faults := fs\<rparr>)"
    using step by (simp add: delete_template_handler_def)
  from upd del show ?thesis by auto
qed

definition demo_record :: "uuid \<Rightarrow> uuid \<Rightarrow> json \<Rightarrow> archive_row" where
  "demo_record i t v = \<lparr>a_id = i, a_template = t, a_data = v, a_by = None, a_created = 0\<rparr>"

theorem templates_in_use_are_frozen_witness:
  "let w = (demo_templates [demo_template 5 JNull])\<lparr>db := (db (demo_templates [demo_template 5 JNull]))\<lparr>records := [demo_record 9 5 JNull]\<rparr>\<rparr>
   in \<exists>e. fst (delete_template_handler 5 w) = Err e"
proof -
  let ?w = "(demo_templates [demo_template 5 JNull])\<lparr>db := (db (demo_templates [demo_template 5 JNull]))\<lparr>records := [demo_record 9 5 JNull]\<rparr>\<rparr>"
  have "ut_id (demo_update 5 JNull) \<in> a_template ` set (records (db ?w))"
    by (simp add: demo_update_def demo_record_def)
  from templates_in_use_are_frozen [OF this, of demo_externs] show ?thesis
    by (auto simp: demo_update_def Let_def split: prod.splits)
qed

text \<open>An update that brings file definitions without the schema they belong to is accepted by the
  validation and then panics instead of being answered: the request dies and nothing is changed.\<close>

theorem update_without_schema_panics:
  assumes "ut_schema r = None" and "ut_files r = Some (f # fs)" and "validate_update_template X r = []"
    and "ut_id r \<notin> a_template ` set (records (db w))" and "faults w = []"
  shows "update_template_handler X r w = (Panic, w)"
proof -
  have "\<not> list_ex (\<lambda>a. a_template a = ut_id r) (records (db w))"
    using assms(4) by (force simp: list_ex_iff)
  with assms show ?thesis
    by (simp add: update_template_handler_def and_then_def require_valid_def check_any_record_exists_def
        update_template_def updated_schema_def lift_result_def)
qed

definition demo_file_definition :: file_definition where
  "demo_file_definition = \<lparr>fd_field = ''photo'', fd_title = ''Photo'',
     fd_config = \<lparr>allowed_types = [''.png''], quota = 2, max_size = 2097152, required = True\<rparr>\<rparr>"

theorem update_without_schema_panics_witness:
  "fst (update_template_handler demo_externs
      ((demo_update 5 JNull)\<lparr>ut_schema := None, ut_files := Some [demo_file_definition]\<rparr>)
      (demo_templates [demo_template 5 JNull])) = Panic"
proof -
  let ?r = "(demo_update 5 JNull)\<lparr>ut_schema := None, ut_files := Some [demo_file_definition]\<rparr>"
  let ?w = "demo_templates [demo_template 5 JNull]"
  have "update_template_handler demo_externs ?r ?w = (Panic, ?w)"
    by (rule update_without_schema_panics)
       (simp_all add: demo_update_def validate_update_template_def option_errors_def demo_templates_def demo_world_def empty_db_def)
  then show ?thesis by simp
qed

section \<open>From a file definition to the upload checks\<close>

lemma define_files_config:
  assumes "(define_files fs schema :: ('e, json) result) = Ok schema'" and "schema_ok schema" and "distinct (map fd_field fs)"
  shows "schema_ok schema'
    \<and> (\<forall>g. g \<notin> fd_field ` set fs \<longrightarrow> config_of schema' g = config_of schema g)
    \<and> (\<forall>f\<in>set fs. config_of schema' (fd_field f) = Some ((fd_config f)\<lparr>required :=
          required (fd_config f) \<or> fd_field f \<in> set (required_fields schema)\<rparr>))"
  using assms
proof (induction fs arbitrary: schema)
  case (Cons f fs)
  then obtain s1 where s1: "into_schema (fd_config f) (fd_field f) schema (fd_title f) = (Ok s1 :: ('e, json) result)"
    and rest: "(define_files fs s1 :: ('e, json) result) = Ok schema'" by (auto split: result.splits)
  note one = into_schema_config [OF s1 Cons.prems(2)]
  note IH = Cons.IH [OF rest into_schema_ok [OF s1 Cons.prems(2)]]
  have tail: "schema_ok schema'" "\<And>g. g \<notin> fd_field ` set fs \<Longrightarrow> config_of schema' g = config_of s1 g"
    "\<And>h. h \<in> set fs \<Longrightarrow> config_of schema' (fd_field h) =
        Some ((fd_config h)\<lparr>required := required (fd_config h) \<or> fd_field h \<in> set (required_fields s1)\<rparr>)"
    using IH Cons.prems(3) by simp_all
  have req: "g \<in> set (required_fields s1) \<longleftrightarrow> g \<in> set (required_fields schema)" if "g \<noteq> fd_field f" for g
    using into_schema_required [OF s1] that by auto
  have new: "fd_field f \<notin> fd_field ` set fs" using Cons.prems(3) by simp
  have "config_of schema' (fd_field h) =
      Some ((fd_config h)\<lparr>required := required (fd_config h) \<or> fd_field h \<in> set (required_fields schema)\<rparr>)"
    if "h \<in> set (f # fs)" for h
  proof (cases "h = f")
    case True
    with tail(2) [OF new] one show ?thesis by simp
  next
    case False
    with that have h: "h \<in> set fs" by simp
    with new have "fd_field h \<noteq> fd_field f" by (metis imageI)
    with h tail(3) req show ?thesis by simp
  qed
  with tail(1,2) one show ?case by simp
qed simp

lemma insert_template_row:
  assumes "insert_template fresh r schema uid now d = Inr (t, d')"
  shows "row_by t_id (t_id t) (templates d') = Some t \<and> t_schema t = schema"
proof -
  have "fresh \<notin> t_id ` set (templates d)" using assms by (auto simp: insert_template_def Let_def split: if_splits)
  then have "row_by t_id fresh (templates d) = None" by (simp add: row_by_None_iff)
  with assms show ?thesis by (auto simp: insert_template_def Let_def row_by_append split: if_splits)
qed

lemma create_template_OkD:
  assumes "create_template_handler X r user w = (Ok resp, w1)"
  obtains dto schema fs d where "data resp = Some dto" "td_schema dto = schema"
    and "(case ct_files r of None \<Rightarrow> Ok (schema_def (ct_schema r))
          | Some fs \<Rightarrow> define_files fs (schema_def (ct_schema r))) = (Ok schema :: (app_error, json) result)"
    and "map_option t_schema (row_by t_id (td_id dto) (templates (db w1))) = Some schema"
proof -
  from assms have "and_then (create_template r (sub user)) (\<lambda>dto. return (resp_created dto ''template created'')) w = (Ok resp, w1)"
    by (cases rule: require_valid_cases [of "\<lambda>_. validate_create_template X r" w])
       (simp_all add: create_template_handler_def and_then_def [of "require_valid _"])
  then obtain dto w2 where c: "create_template r (sub user) w = (Ok dto, w2)"
    and "return (resp_created dto ''template created'') w2 = ((Ok resp :: (app_error, _) result), w1)" by (rule and_then_OkE)
  then have resp: "data resp = Some dto" "w2 = w1" by (auto simp: return_def resp_created_def)
  let ?defs = "(case ct_files r of None \<Rightarrow> Ok (schema_def (ct_schema r))
          | Some fs \<Rightarrow> define_files fs (schema_def (ct_schema r))) :: (app_error, json) result"
  from c [unfolded create_template_def] obtain schema w3 where l: "lift_result id ?defs w = (Ok schema, w3)"
    and c': "and_then new_uuid (\<lambda>fresh. and_then (unexpected (sql (insert_template fresh r schema (sub user))))
       (\<lambda>t. return (template_to_dto t))) w3 = (Ok dto, w2)"
    by (rule and_then_OkE)
  from l have s: "?defs = Ok schema" by (simp add: lift_result_def split: result.splits)
  from c' obtain t w4 fresh w5 where q: "unexpected (sql (insert_template fresh r schema (sub user))) w4 = (Ok t, w5)"
    and dto: "return (template_to_dto t) w5 = ((Ok dto :: (app_error, _) result), w2)" by (elim and_then_OkE)
  from q obtain now d where "insert_template fresh r schema (sub user) now d = Inr (t, db w5)"
    by (cases rule: unexpected_sql_cases [of "insert_template fresh r schema (sub user)" w4]) auto
  then have "row_by t_id (t_id t) (templates (db w5)) = Some t" "t_schema t = schema"
    using insert_template_row by blast+
  with resp s dto that [of dto schema] show thesis by (auto simp: return_def template_to_dto_def)
qed

text \<open>C22: What an administrator defines is what uploads are checked against: after a template with file
  definitions for different fields has been created, the context loaded for it has, for every defined field, the
  same file types, quota and size limit, and the field is required when the definition or the
  submitted schema says so.\<close>

theorem created_file_fields_are_enforced:
  assumes "create_template_handler X r user w = (Ok resp, w1)" and "data resp = Some dto" and "cache_ok X w"
    and "ct_files r = Some fs" and "distinct (map fd_field fs)" and "schema_ok (schema_def (ct_schema r))"
    and "get_or_load_template_context X (td_id dto) w1 = (Ok c, w2)" and "f \<in> set fs"
  shows "\<exists>cfgs. file_field_configs c = Some cfgs
    \<and> map_of cfgs (fd_field f) = Some ((fd_config f)\<lparr>required :=
          required (fd_config f) \<or> fd_field f \<in> set (required_fields (schema_def (ct_schema r)))\<rparr>)"
proof -
  from assms(1) obtain schema where
    s: "(define_files fs (schema_def (ct_schema r)) :: (app_error, json) result) = Ok schema"
    and row: "map_option t_schema (row_by t_id (td_id dto) (templates (db w1))) = Some schema"
    by (rule create_template_OkD) (use assms(2,4) in auto)
  have "cache_ok X w1" using keepsE [OF keeps_cache_create assms(1,3)] .
  from load_answer [OF this assms(7)] row have "c = context_of schema"
    by (auto simp: true_context_def split: option.splits if_splits)
  then have "file_field_configs c = try_from_schema schema" by (simp add: context_of_def)
  moreover have "config_of schema (fd_field f) = Some ((fd_config f)\<lparr>required :=
      required (fd_config f) \<or> fd_field f \<in> set (required_fields (schema_def (ct_schema r)))\<rparr>)"
    using define_files_config [OF s assms(6,5)] assms(8) by blast
  ultimately show ?thesis by (auto dest: config_of_SomeD)
qed

definition demo_create :: create_template_request where
  "demo_create = \<lparr>ct_name = ''album'', ct_category = ''general'', ct_desc = None,
     ct_schema = \<lparr>schema_def = JObj [], inst = None\<rparr>, ct_files = Some [demo_file_definition]\<rparr>"

lemma demo_create_run:
  "\<exists>resp dto t. create_template_handler demo_externs demo_create (demo_claims ADMIN 1) (demo_templates []) =
       (Ok resp, (demo_templates [t])\<lparr>drawn := 1\<rparr>) \<and> data resp = Some dto \<and> td_id dto = 0 \<and> t_id t = 0"
  by (simp add: demo_templates_run demo_create_def demo_file_definition_def create_template_handler_def validate_create_template_def
      length_error_def char_count_def option_errors_def schema_validation_errors_def template_schema_validate_def Let_def
      create_template_def into_schema_def file_field_def_def put_def entry_or_def insert_template_def new_uuid_def
      demo_claims_def demo_user_def resp_created_def template_to_dto_def)

theorem created_file_fields_are_enforced_witness:
  "\<exists>resp w1 c w2 cfgs. create_template_handler demo_externs demo_create (demo_claims ADMIN 1) (demo_templates []) = (Ok resp, w1)
     \<and> get_or_load_template_context demo_externs 0 w1 = (Ok c, w2) \<and> file_field_configs c = Some cfgs
     \<and> map_of cfgs ''photo'' = Some (fd_config demo_file_definition)"
proof -
  obtain resp dto t where c: "create_template_handler demo_externs demo_create (demo_claims ADMIN 1) (demo_templates []) =
       (Ok resp, (demo_templates [t])\<lparr>drawn := 1\<rparr>)" "data resp = Some dto" "td_id dto = 0" "t_id t = 0"
    using demo_create_run by blast
  obtain c w2 where l: "get_or_load_template_context demo_externs (td_id dto) ((demo_templates [t])\<lparr>drawn := 1\<rparr>) = (Ok c, w2)"
    by (simp add: c(3,4) demo_templates_run get_or_load_template_context_def from_database_get_template_context_def cache_insert_def)
  have "cache_ok demo_externs (demo_templates [])" by (simp add: cache_ok_def dm_get_def demo_templates_def demo_world_def)
  from created_file_fields_are_enforced [OF c(1,2) this _ _ _ l, of "[demo_file_definition]" demo_file_definition]
  have "\<exists>cfgs. file_field_configs c = Some cfgs \<and> map_of cfgs ''photo'' = Some (fd_config demo_file_definition)"
    by (simp add: demo_create_def demo_file_definition_def schema_ok_def props_of_def)
  with c l show ?thesis by auto
qed

section \<open>A load that races with an update\<close>

lemma update_template_OkD:
  assumes "update_template_handler X r w = (Ok resp, w')" and "ut_files r = None"
  shows "\<exists>t. row_by t_id (ut_id r) (templates (db w')) = Some t
    \<and> (\<forall>ts. ut_schema r = Some ts \<longrightarrow> t_schema t = schema_def ts)"
proof -
  from assms(1) have "and_then (check_any_record_exists (ut_id r)) (\<lambda>there.
       if there then throw (DatabaseConflictError ''the template has records and cannot be changed'')
       else and_then (update_template r) (\<lambda>dto. return (resp_success_msg dto ''template updated''))) w = (Ok resp, w')"
    by (cases rule: require_valid_cases [of "\<lambda>_. validate_update_template X r" w])
       (simp_all add: update_template_handler_def and_then_def [of "require_valid _"])
  then obtain there w1 where "(if there then throw (DatabaseConflictError ''the template has records and cannot be changed'')
       else and_then (update_template r) (\<lambda>dto. return (resp_success_msg dto ''template updated''))) w1
       = ((Ok resp :: (app_error, _) result), w')" by (rule and_then_OkE)
  then have "and_then (update_template r) (\<lambda>dto. return (resp_success_msg dto ''template updated'')) w1 = (Ok resp, w')"
    by (simp add: throw_def split: if_splits)
  then obtain dto w2 where u: "update_template r w1 = (Ok dto, w2)" and w': "w' = w2"
    by (rule and_then_OkE) (simp add: return_def)
  let ?s = "map_option schema_def (ut_schema r)"
  have s: "updated_schema r = (Ok ?s :: (app_error, json option) result)" using assms(2) by (simp add: updated_schema_def)
  show ?thesis
  proof (cases rule: unexpected_sql_cases [of "update_template_row (ut_id r) (apply_update r ?s)" w1])
    case (err e fs)
    with u s show ?thesis by (simp add: update_template_def and_then_def lift_result_def)
  next
    case (ok row d fs)
    with u s obtain t where t: "row = Some t" "db w2 = d"
      by (auto simp: update_template_def and_then_def lift_result_def throw_def clear_template_cache_def modify_def return_def
          split: option.splits)
    obtain t0 where "row_by t_id (ut_id r) (templates (db w1)) = Some t0" "t = apply_update r ?s (clock w1) t0"
      and "templates d = update_where (\<lambda>t. t_id t = ut_id r) (apply_update r ?s (clock w1)) (templates (db w1))"
      using ok(2) t(1) by (auto simp: update_template_row_def split: option.splits if_splits)
    then show ?thesis using t(2) w' by (simp add: row_by_update_where apply_update_def coalesce_def)
  qed
qed

text \<open> The load of a context reads the database first and fills the cache afterwards. When an update of
  the template is carried out between these two steps, its clearing of the cache comes too
  early: from then on every request is validated against the old schema, although the database
  holds the new one.\<close>

theorem racing_load_keeps_the_old_schema:
  assumes "from_database_get_template_context X tid w = (Ok c, w1)"
    and "update_template_handler X r w1 = (Ok resp, w2)" and "cache_insert tid c w2 = (u, w3)"
    and "ut_id r = tid" and "ut_schema r = Some ts" and "ut_files r = None" and "schema_def ts \<noteq> validator c"
  shows "get_or_load_template_context X tid w3 = (Ok c, w3)
    \<and> (\<exists>t. row_by t_id tid (templates (db w3)) = Some t \<and> t_schema t = schema_def ts \<and> validator c \<noteq> t_schema t)"
proof -
  have w3: "w3 = w2\<lparr>schema_cache := dm_insert tid c (schema_cache w2)\<rparr>"
    using assms(3) by (simp add: cache_insert_def modify_def)
  have "dm_get tid (schema_cache w3) = Some c" by (simp add: w3 schemas.lookup_fill)
  then have "get_or_load_template_context X tid w3 = (Ok c, w3)"
    by (simp add: get_or_load_template_context_def gets_def and_then_def return_def)
  moreover have "db w3 = db w2" by (simp add: w3)
  ultimately show ?thesis using update_template_OkD [OF assms(2,6)] assms(4,5,7) by auto
qed

theorem racing_load_keeps_the_old_schema_witness:
  "\<exists>c w1 resp w2 w3. from_database_get_template_context demo_externs 5 (demo_templates [demo_template 5 JNull]) = (Ok c, w1)
     \<and> update_template_handler demo_externs (demo_update 5 (JObj [])) w1 = (Ok resp, w2)
     \<and> snd (cache_insert 5 c w2 :: (unit, unit) result \<times> world) = w3
     \<and> fst (get_or_load_template_context demo_externs 5 w3) = Ok (context_of JNull)"
proof -
  let ?w = "demo_templates [demo_template 5 JNull]"
  have r: "from_database_get_template_context demo_externs 5 ?w = (Ok (context_of JNull), ?w)"
    by (simp add: demo_templates_run from_database_get_template_context_def)
  obtain resp w2 where u: "update_template_handler demo_externs (demo_update 5 (JObj [])) ?w = (Ok resp, w2)"
    by (simp add: demo_templates_run update_template_handler_def validate_update_template_def option_errors_def
      schema_validation_errors_def template_schema_validate_def Let_def check_any_record_exists_def update_template_def
      updated_schema_def update_template_row_def apply_update_def coalesce_def char_count_def clear_template_cache_def)
  obtain v :: "(unit, unit) result" and w3 where i: "cache_insert 5 (context_of JNull) w2 = (v, w3)"
    by (cases "cache_insert 5 (context_of JNull) w2 :: (unit, unit) result \<times> world")
  from racing_load_keeps_the_old_schema [OF r u i, of "\<lparr>schema_def = JObj [], inst = None\<rparr>"]
  have "fst (get_or_load_template_context demo_externs 5 w3) = Ok (context_of JNull)"
    by (simp add: demo_update_def context_of_def)
  with r u i show ?thesis by (intro exI conjI) (assumption | simp)+
qed

end
