(* ===== verification/Uploads.thy ===== *)
theory Uploads
  imports Templates Outbox
begin

text \<open>
  The upload part of \<open>modules/archive/\<close>: an upload session in Redis holds the file fields of a
  template with their quotas; a script takes one from a quota, and the URL for an upload is
  signed when file name and size meet the field's configuration.
\<close>

section \<open>Sessions\<close>

record upload_session =
  us_user :: uuid
  us_configs :: file_configs

text \<open>The serde encoding of a session.\<close>

definition configs_to_json :: "file_configs \<Rightarrow> json" where
  "configs_to_json cfgs = JObj (map (\<lambda>(f, c). (f, config_to_json c)) cfgs)"

definition session_to_json :: "externs \<Rightarrow> upload_session \<Rightarrow> json" where
  "session_to_json X s =
     JObj [(''user_id'', JStr (x_uuid_str X (us_user s))),
           (''schema_file_configs'', JObj [(''configs'', configs_to_json (us_configs s))])]"

definition session_ttl :: int where
  "session_ttl = seconds 1800"

definition init_upload_session :: "externs \<Rightarrow> file_configs \<Rightarrow> uuid \<Rightarrow> (world, app_error, uuid) prog" where
  "init_upload_session X cfgs uid =
     and_then new_uuid (\<lambda>sid.
     and_then (unexpected (redis_set_ex (build_upload_session_key X sid)
                 (session_to_json X \<lparr>us_user = uid, us_configs = cfgs\<rparr>) session_ttl)) (\<lambda>_.
     return sid))"

definition init_upload_session_handler :: "externs \<Rightarrow> claims \<Rightarrow> uuid \<Rightarrow> (world, app_error, uuid app_response) prog" where
  "init_upload_session_handler X user tid =
     and_then (check_template_is_enabled tid) (\<lambda>_.
     and_then (get_or_load_template_context X tid) (\<lambda>c.
       case file_field_configs c of
         None \<Rightarrow> throw (DataNotFound ''the template has no file field, no upload session is needed'')
       | Some cfgs \<Rightarrow>
           and_then (init_upload_session X cfgs (sub user)) (\<lambda>sid.
           return (resp_created sid ''upload session created''))))"

definition check_upload_session_exists :: "externs \<Rightarrow> uuid \<Rightarrow> (world, app_error, unit) prog" where
  "check_upload_session_exists X sid =
     and_then (unexpected (redis_exists (build_upload_session_key X sid))) (\<lambda>there.
       if \<not> there then throw (DataNotFound ''the upload session does not exist or has expired'') else return ())"

definition delete_upload_session :: "externs \<Rightarrow> uuid \<Rightarrow> (world, app_error, unit) prog" where
  "delete_upload_session X sid = unexpected (redis_del (build_upload_session_key X sid))"

section \<open>The quota script\<close>

text \<open>
  \<open>DEDUCT_QUOTA_LUA_SCRIPT\<close>. The script decodes the session, and encodes it again with a
  library that prints numbers with 14 digits and an empty table as \<open>{}\<close>.
\<close>

definition lua_number :: "externs \<Rightarrow> int \<Rightarrow> json" where
  "lua_number X n = (if \<bar>n\<bar> < 10 ^ 14 then JInt n else JFloat (x_float_text X n))"

definition lua_value :: "externs \<Rightarrow> json \<Rightarrow> int option" where
  "lua_value X v = (case v of JInt n \<Rightarrow> Some n | JFloat s \<Rightarrow> Some (x_float_value X s) | _ \<Rightarrow> None)"

primrec lua_encode :: "externs \<Rightarrow> json \<Rightarrow> json" where
  "lua_encode X JNull = JNull"
| "lua_encode X (JBool b) = JBool b"
| "lua_encode X (JInt n) = lua_number X n"
| "lua_encode X (JFloat s) = lua_number X (x_float_value X s)"
| "lua_encode X (JStr s) = JStr s"
| "lua_encode X (JArr xs) = (if xs = [] then JObj [] else JArr (map (lua_encode X) xs))"
| "lua_encode X (JObj m) = JObj (map (map_prod id (lua_encode X)) m)"

text \<open>The two substitutions of the text \<open>"allowed_types":{}\<close> by \<open>"allowed_types":[]\<close>.\<close>

primrec empty_types :: "json \<Rightarrow> json" where
  "empty_types JNull = JNull"
| "empty_types (JBool b) = JBool b"
| "empty_types (JInt n) = JInt n"
| "empty_types (JFloat s) = JFloat s"
| "empty_types (JStr s) = JStr s"
| "empty_types (JArr xs) = JArr (map empty_types xs)"
| "empty_types (JObj m) = JObj (map (\<lambda>(k, v). (k, if k = ''allowed_types'' \<and> v = JObj [] then JArr [] else v))
     (map (map_prod id empty_types) m))"

definition lua_print :: "externs \<Rightarrow> json \<Rightarrow> json" where
  "lua_print X v = empty_types (lua_encode X v)"

text \<open>Indexing a table: the outer \<open>None\<close> is the run-time error on a value that is no table, the inner
  one is \<open>nil\<close> (or \<open>false\<close>, which the script treats alike).\<close>

definition lua_index :: "json \<Rightarrow> string \<Rightarrow> json option option" where
  "lua_index v k =
     (case v of
        JObj m \<Rightarrow> Some (case map_of m k of Some (JBool False) \<Rightarrow> None | r \<Rightarrow> r)
      | JArr _ \<Rightarrow> Some None
      | _ \<Rightarrow> None)"

definition lua_error :: string where
  "lua_error = ''ERR error running script''"

definition set_member :: "string \<Rightarrow> json \<Rightarrow> json \<Rightarrow> json" where
  "set_member k x v = (case v of JObj m \<Rightarrow> JObj (put k x m) | JArr _ \<Rightarrow> JObj [(k, x)] | _ \<Rightarrow> v)"

text \<open>The reply of the script: an error reply, or the printed session and configuration.\<close>

definition take_quota :: "externs \<Rightarrow> string \<Rightarrow> string \<Rightarrow> json \<Rightarrow> string + json \<times> json" where
  "take_quota X user field session =
     (case lua_index session ''user_id'' of
        None \<Rightarrow> Inl lua_error
      | Some owner \<Rightarrow>
          if owner \<noteq> Some (JStr user) then Inl ''FORBIDDEN_USER''
          else (case lua_index session ''schema_file_configs'' of
             Some (Some outer) \<Rightarrow>
               (case lua_index outer ''configs'' of
                  None \<Rightarrow> Inl lua_error
                | Some nested \<Rightarrow>
                    (let cfgs = (case nested of None \<Rightarrow> outer | Some c \<Rightarrow> c)
                     in case lua_index cfgs field of
                          None \<Rightarrow> Inl lua_error
                        | Some None \<Rightarrow> Inl ''FIELD_NOT_FOUND''
                        | Some (Some cfg) \<Rightarrow>
                            (case lua_index cfg ''quota'' of
                               Some (Some q) \<Rightarrow>
                                 (case lua_value X q of
                                    None \<Rightarrow> Inl lua_error
                                  | Some n \<Rightarrow>
                                      if n \<le> 0 then Inl ''QUOTA_EXHAUSTED''
                                      else
                                        (let cfg' = set_member ''quota'' (JInt (n - 1)) cfg;
                                             cfgs' = set_member field cfg' cfgs;
                                             outer' = (if nested = None then cfgs' else set_member ''configs'' cfgs' outer)
                                         in Inr (lua_print X (set_member ''schema_file_configs'' outer' session),
                                                 lua_print X cfg')))
                             | _ \<Rightarrow> Inl lua_error)))
           | _ \<Rightarrow> Inl lua_error))"

definition script_body :: "externs \<Rightarrow> string \<Rightarrow> string \<Rightarrow> string \<Rightarrow> int \<Rightarrow>
    (string \<Rightarrow> (json \<times> int) option) \<Rightarrow> (string + json) \<times> (string \<Rightarrow> (json \<times> int) option)" where
  "script_body X key user field now m =
     (case kv_get key now m of
        None \<Rightarrow> (Inl ''SESSION_NOT_FOUND'', m)
      | Some session \<Rightarrow>
          (case take_quota X user field session of
             Inl e \<Rightarrow> (Inl e, m)
           | Inr (session', cfg) \<Rightarrow> (Inr cfg, kv_set_ex key session' session_ttl now m)))"

definition deduct_quota_script :: "externs \<Rightarrow> string \<Rightarrow> string \<Rightarrow> string \<Rightarrow> (world, anyhow, json) prog" where
  "deduct_quota_script X key user field =
     and_then (redis_call (script_body X key user field))
       (\<lambda>r. case r of Inl e \<Rightarrow> throw (RedisErr (''An error was signalled by the server: '' @ e)) | Inr cfg \<Rightarrow> return cfg)"

definition quota_error :: "anyhow \<Rightarrow> app_error" where
  "quota_error e =
     (let m = any_to_string e in
      if contains_str m ''SESSION_NOT_FOUND'' then DataNotFound ''the upload session does not exist or has expired''
      else if contains_str m ''FORBIDDEN_USER'' then Forbidden ''not allowed to use this upload session''
      else if contains_str m ''FIELD_NOT_FOUND'' then DataNotFound ''the upload field does not exist''
      else if contains_str m ''QUOTA_EXHAUSTED'' then Forbidden ''the quota of the field is used up''
      else UnexpectedError e)"

definition try_to_get_field_quota :: "externs \<Rightarrow> uuid \<Rightarrow> string \<Rightarrow> uuid \<Rightarrow> (world, app_error, file_config) prog" where
  "try_to_get_field_quota X sid field uid =
     and_then (map_err quota_error (deduct_quota_script X (build_upload_session_key X sid) (x_uuid_str X uid) field)) (\<lambda>v.
       case config_from_json v of
         None \<Rightarrow> throw (UnexpectedError (Anyhow ''invalid field configuration''))
       | Some cfg \<Rightarrow> return cfg)"

section \<open>Signing an upload\<close>

definition check_file_validity :: "file_config \<Rightarrow> string \<Rightarrow> i64 \<Rightarrow> (app_error, unit) result" where
  "check_file_validity cfg filename len =
     (if sint (max_size cfg) < sint len then Err (ValidationMessage ''the file is too large'')
      else if allowed_types cfg = [] then Ok ()
      else (case path_extension filename of
          None \<Rightarrow> Err (ValidationMessage ''the file name has no extension'')
        | Some e \<Rightarrow>
            if to_lowercase (''.'' @ e) \<notin> set (allowed_types cfg) then Err (ValidationMessage ''the file type is not supported'')
            else Ok ()))"

record presigned_request =
  pr_session :: uuid
  pr_field :: string
  pr_filename :: string
  pr_length :: i64
  pr_type :: "string option"

text \<open>\<open>VALIDATE_FILE_NAME\<close>: \<open>^.+\.[a-zA-Z0-9]+$\<close>.\<close>

definition file_name_ok :: "string \<Rightarrow> bool" where
  "file_name_ok s =
     (case rsplit_dot s of
        None \<Rightarrow> False
      | Some (stem, e) \<Rightarrow> stem \<noteq> [] \<and> nl \<notin> set stem \<and> e \<noteq> [] \<and> list_all is_alnum e)"

definition validate_presigned :: "presigned_request \<Rightarrow> validation_errors" where
  "validate_presigned r =
     nonempty_error ''field'' ''the field name is empty'' (pr_field r)
     @ (if file_name_ok (pr_filename r) then [] else one_error ''filename'' ''regex'' ''malformed file name'')"

definition presigned_upload_url :: "externs \<Rightarrow> uuid \<Rightarrow> string \<Rightarrow> i64 \<Rightarrow> string \<Rightarrow> (world, app_error, string \<times> uuid) prog" where
  "presigned_upload_url X sid ctype len fname =
     and_then new_uuid (\<lambda>file_id.
     and_then (unexpected (generate_presigned_url X (build_temp_object_key X sid file_id) ctype len fname)) (\<lambda>url.
     return (url, file_id)))"

definition presigned_upload_url_handler :: "externs \<Rightarrow> presigned_request \<Rightarrow> claims \<Rightarrow>
    (world, app_error, (string \<times> uuid) app_response) prog" where
  "presigned_upload_url_handler X r user =
     and_then (require_valid (\<lambda>_. validate_presigned r)) (\<lambda>_.
     and_then (try_to_get_field_quota X (pr_session r) (pr_field r) (sub user)) (\<lambda>cfg.
     and_then (lift_result id (check_file_validity cfg (pr_filename r) (pr_length r))) (\<lambda>_.
       let ctype = (case pr_type r of
                      Some t \<Rightarrow> if trim t \<noteq> [] then trim t else x_mime_guess X (pr_filename r)
                    | None \<Rightarrow> x_mime_guess X (pr_filename r))
       in and_then (presigned_upload_url X (pr_session r) ctype (pr_length r) (pr_filename r))
            (\<lambda>p. return (resp_created p ''upload URL signed'')))))"

section \<open>The script on a session\<close>

text \<open>Numbers the script's JSON library prints as they are.\<close>

definition config_small :: "file_config \<Rightarrow> bool" where
  "config_small c \<longleftrightarrow> uint (quota c) < 10 ^ 14 \<and> \<bar>sint (max_size c)\<bar> < 10 ^ 14"

definition configs_small :: "file_configs \<Rightarrow> bool" where
  "configs_small cfgs \<longleftrightarrow> (\<forall>(f, c)\<in>set cfgs. config_small c)"

definition take_one :: "file_config \<Rightarrow> file_config" where
  "take_one c = c\<lparr>quota := quota c - 1\<rparr>"

lemma quota_pos: "0 < uint (q :: 64 word) \<longleftrightarrow> q \<noteq> 0"
  using uint_ge_0 [of q] by (simp add: order_less_le uint_0_iff)

lemma uint_quota_minus:
  assumes "quota c \<noteq> 0"
  shows "uint (quota c - 1) = uint (quota c) - 1"
proof -
  have "uint (1 :: 64 word) \<le> uint (quota c)" using assms quota_pos [of "quota c"] by simp
  then show ?thesis using uint_sub_lem [of 1 "quota c"] by simp
qed

lemma lua_encode_strings: "lua_encode X (JArr (map JStr ts)) = (if ts = [] then JObj [] else JArr (map JStr ts))"
  by simp

lemma empty_types_strings [simp]: "empty_types (JArr (map JStr ts)) = JArr (map JStr ts)"
  by simp

lemma lua_print_config:
  assumes "config_small c"
  shows "lua_print X (config_to_json c) = config_to_json c"
  using assms by (auto simp: lua_print_def config_to_json_def lua_number_def of_u64_def of_i64_def config_small_def)

lemma config_to_json_object [simp]: "config_to_json c \<noteq> JObj []" "config_to_json c \<noteq> JBool b"
  by (simp_all add: config_to_json_def)

lemma lua_print_configs:
  assumes "configs_small cfgs"
  shows "lua_print X (configs_to_json cfgs) = configs_to_json cfgs"
proof -
  have "lua_print X (config_to_json c) = config_to_json c" if "(f, c) \<in> set cfgs" for f c
    using assms that lua_print_config by (auto simp: configs_small_def)
  then show ?thesis
    by (auto simp: configs_to_json_def lua_print_def)
qed

lemma lua_print_session:
  assumes "configs_small (us_configs s)"
  shows "lua_print X (session_to_json X s) = session_to_json X s"
  using lua_print_configs [OF assms, of X] by (simp add: session_to_json_def lua_print_def)

lemma index_configs: "lua_index (configs_to_json cfgs) f = Some (map_option config_to_json (map_of cfgs f))"
proof -
  have "map_of (map (\<lambda>(f, c). (f, config_to_json c)) cfgs) f = map_option config_to_json (map_of cfgs f)"
    by (simp add: map_of_map)
  then show ?thesis
    by (cases "map_of cfgs f") (auto simp: lua_index_def configs_to_json_def split: json.splits bool.splits)
qed

lemma set_member_configs: "set_member f (config_to_json c) (configs_to_json cfgs) = configs_to_json (AList.update f c cfgs)"
  unfolding configs_to_json_def set_member_def put_def
  by (induction cfgs) auto

lemma set_member_quota:
  "quota c \<noteq> 0 \<Longrightarrow> set_member ''quota'' (JInt (uint (quota c) - 1)) (config_to_json c) = config_to_json (take_one c)"
  by (simp add: set_member_def config_to_json_def take_one_def put_def of_u64_def uint_quota_minus)

lemma take_one_small: "config_small c \<Longrightarrow> quota c \<noteq> 0 \<Longrightarrow> config_small (take_one c)"
  by (simp add: config_small_def take_one_def uint_quota_minus)

lemma update_small: "configs_small cfgs \<Longrightarrow> config_small c \<Longrightarrow> configs_small (AList.update f c cfgs)"
  by (induction cfgs) (auto simp: configs_small_def)

lemma index_session:
  "lua_index (session_to_json X s) ''user_id'' = Some (Some (JStr (x_uuid_str X (us_user s))))"
  "lua_index (session_to_json X s) ''schema_file_configs'' = Some (Some (JObj [(''configs'', configs_to_json (us_configs s))]))"
  "lua_index (JObj [(''configs'', configs_to_json (us_configs s))]) ''configs'' = Some (Some (configs_to_json (us_configs s)))"
  by (simp_all add: lua_index_def session_to_json_def configs_to_json_def)

lemma take_quota_session:
  assumes "configs_small (us_configs s)"
  shows "take_quota X user f (session_to_json X s) =
    (if user \<noteq> x_uuid_str X (us_user s) then Inl ''FORBIDDEN_USER''
     else (case map_of (us_configs s) f of
         None \<Rightarrow> Inl ''FIELD_NOT_FOUND''
       | Some c \<Rightarrow>
           if quota c = 0 then Inl ''QUOTA_EXHAUSTED''
           else Inr (session_to_json X (s\<lparr>us_configs := AList.update f (take_one c) (us_configs s)\<rparr>),
                     config_to_json (take_one c))))"
proof (cases "map_of (us_configs s) f")
  case None
  then show ?thesis
    by (simp add: take_quota_def index_session index_configs Let_def)
next
  case (Some c)
  then have small: "config_small c" using assms by (auto simp: configs_small_def dest: map_of_SomeD)
  have q: "lua_index (config_to_json c) ''quota'' = Some (Some (of_u64 (quota c)))"
    by (simp add: lua_index_def config_to_json_def of_u64_def)
  have zero: "uint (quota c) \<le> 0 \<longleftrightarrow> quota c = 0" using quota_pos [of "quota c"] by linarith
  let ?s = "s\<lparr>us_configs := AList.update f (take_one c) (us_configs s)\<rparr>"
  have "set_member ''schema_file_configs'' (set_member ''configs'' (configs_to_json (us_configs ?s))
      (JObj [(''configs'', configs_to_json (us_configs s))])) (session_to_json X s) = session_to_json X ?s"
    by (simp add: set_member_def session_to_json_def put_def)
  moreover have "lua_print X (session_to_json X ?s) = session_to_json X ?s" if "quota c \<noteq> 0"
    using update_small [OF assms take_one_small [OF small that]] by (simp add: lua_print_session)
  ultimately show ?thesis
    using Some q zero lua_print_config [OF take_one_small [OF small]]
    by (simp add: take_quota_def index_session index_configs lua_value_def of_u64_def Let_def set_member_quota set_member_configs)
qed

section \<open>Runs of upload requests\<close>

text \<open>What clients and the passing of time do to the sessions; a granted URL is logged.\<close>

datatype upload_op =
    OpPresign presigned_request claims
  | OpInit file_configs uuid
  | OpDrop uuid
  | OpWait nat
  | OpFaults "fault list"

record grant =
  gr_session :: uuid
  gr_field :: string
  gr_user :: uuid

fun upload_step :: "externs \<Rightarrow> upload_op \<Rightarrow> world \<Rightarrow> grant list \<times> world" where
  "upload_step X (OpPresign r user) w =
     (case presigned_upload_url_handler X r user w of
        (Ok _, w') \<Rightarrow> ([\<lparr>gr_session = pr_session r, gr_field = pr_field r, gr_user = sub user\<rparr>], w')
      | (_, w') \<Rightarrow> ([], w'))"
| "upload_step X (OpInit cfgs uid) w = ([], snd (init_upload_session X cfgs uid w))"
| "upload_step X (OpDrop sid) w = ([], snd (delete_upload_session X sid w))"
| "upload_step X (OpWait t) w = ([], w\<lparr>clock := clock w + int t\<rparr>)"
| "upload_step X (OpFaults fs) w = ([], w\<lparr>faults := fs\<rparr>)"

fun grants :: "externs \<Rightarrow> upload_op list \<Rightarrow> world \<Rightarrow> grant list" where
  "grants X [] w = []"
| "grants X (op # ops) w = fst (upload_step X op w) @ grants X ops (snd (upload_step X op w))"

text \<open>How much of its quota a field has left.\<close>

definition remaining :: "file_configs \<Rightarrow> string \<Rightarrow> nat" where
  "remaining cfgs f = (case map_of cfgs f of None \<Rightarrow> 0 | Some c \<Rightarrow> unat (quota c))"

text \<open>The session, as long as it exists, is the user's and has at most \<open>n\<close> left; its id is not drawn again.\<close>

definition session_inv :: "externs \<Rightarrow> uuid \<Rightarrow> uuid \<Rightarrow> (string \<Rightarrow> nat) \<Rightarrow> world \<Rightarrow> bool" where
  "session_inv X sid uid n w \<longleftrightarrow>
     (\<forall>j e. redis w (build_upload_session_key X sid) = Some (j, e) \<longrightarrow>
        (\<exists>cfgs. j = session_to_json X \<lparr>us_user = uid, us_configs = cfgs\<rparr> \<and> configs_small cfgs
              \<and> (\<forall>f. remaining cfgs f \<le> n f)))
     \<and> (\<forall>k\<ge>drawn w. fresh_uuids w k \<noteq> sid)"

lemma session_inv_same:
  "session_inv X sid uid n w \<Longrightarrow> redis w' (build_upload_session_key X sid) = redis w (build_upload_session_key X sid) \<Longrightarrow>
    drawn w \<le> drawn w' \<Longrightarrow> fresh_uuids w' = fresh_uuids w \<Longrightarrow> session_inv X sid uid n w'"
  by (simp add: session_inv_def)

lemma session_inv_gone:
  "session_inv X sid uid n w \<Longrightarrow> redis w' (build_upload_session_key X sid) = None \<Longrightarrow>
    drawn w \<le> drawn w' \<Longrightarrow> fresh_uuids w' = fresh_uuids w \<Longrightarrow> session_inv X sid uid n w'"
  by (simp add: session_inv_def)

lemma session_inv_mono:
  assumes "session_inv X sid uid n w" and "\<And>f. n f \<le> n' f"
  shows "session_inv X sid uid n' w"
proof -
  have "(\<forall>f. remaining cfgs f \<le> n f) \<Longrightarrow> (\<forall>f. remaining cfgs f \<le> n' f)" for cfgs
    using assms(2) order_trans by blast
  with assms(1) show ?thesis unfolding session_inv_def by blast
qed

lemma redis_call_cases:
  obtains (err) e fs where "redis_call f w = (Err e, w\<lparr>faults := fs\<rparr>)"
  | (ok) x m fs where "f (clock w) (redis w) = (x, m)" "redis_call f w = (Ok x, w\<lparr>faults := fs, redis := m\<rparr>)"
proof -
  obtain ft w1 where nf: "next_fault w = (ft, w1)" by (cases "next_fault w")
  obtain fs where w1: "w1 = w\<lparr>faults := fs\<rparr>" using next_fault_world [OF nf] by blast
  obtain x m where f: "f (clock w) (redis w) = (x, m)" by (cases "f (clock w) (redis w)")
  show thesis
  proof (cases "ft = NoFault")
    case True
    with nf w1 f show thesis by (intro ok [OF f, of fs]) (simp add: redis_call_def)
  next
    case False
    with nf w1 show thesis by (intro err) (simp add: redis_call_def)
  qed
qed

lemma session_key_inj:
  assumes "uuid_codec X" and "build_upload_session_key X a = build_upload_session_key X b"
  shows "a = b"
  using assms by (metis build_upload_session_key_def same_append_eq uuid_codec_def option.inject)

text \<open>A call of the script fails without effect or stores the session again.\<close>

lemma quota_call_cases:
  obtains (failed) e fs where "try_to_get_field_quota X sid f u w = (Err e, w\<lparr>faults := fs\<rparr>)"
  | (taken) j j' cfg fs where "kv_get (build_upload_session_key X sid) (clock w) (redis w) = Some j"
      and "take_quota X (x_uuid_str X u) f j = Inr (j', cfg)"
      and "try_to_get_field_quota X sid f u w =
        (case config_from_json cfg of None \<Rightarrow> Err (UnexpectedError (Anyhow ''invalid field configuration'')) | Some c \<Rightarrow> Ok c,
         w\<lparr>faults := fs, redis := kv_set_ex (build_upload_session_key X sid) j' session_ttl (clock w) (redis w)\<rparr>)"
proof -
  let ?K = "build_upload_session_key X sid"
  note step = try_to_get_field_quota_def deduct_quota_script_def and_then_def map_err_def throw_def return_def
  show thesis
  proof (cases rule: redis_call_cases [of "script_body X ?K (x_uuid_str X u) f" w])
    case (err e fs)
    then show thesis by (intro failed) (simp add: step)
  next
    case (ok x m fs)
    show thesis
    proof (cases x)
      case (Inl e)
      with ok(1) have "m = redis w" by (auto simp: script_body_def split: option.splits sum.splits prod.splits)
      with ok(2) Inl have "try_to_get_field_quota X sid f u w =
          (Err (quota_error (RedisErr (''An error was signalled by the server: '' @ e))), w\<lparr>faults := fs, redis := redis w\<rparr>)"
        by (simp add: step)
      also have "w\<lparr>faults := fs, redis := redis w\<rparr> = w\<lparr>faults := fs\<rparr>" by simp
      finally show thesis by (rule failed)
    next
      case (Inr cfg)
      with ok(1) obtain j j' where live: "kv_get ?K (clock w) (redis w) = Some j"
        "take_quota X (x_uuid_str X u) f j = Inr (j', cfg)"
        and m: "m = kv_set_ex ?K j' session_ttl (clock w) (redis w)"
        by (auto simp: script_body_def split: option.splits sum.splits prod.splits)
      from ok(2) Inr m show thesis
        by (intro taken [OF live, of fs]) (simp add: step split: option.splits)
    qed
  qed
qed

text \<open>A successful deduction from a session of the service.\<close>

lemma take_quota_InrD:
  assumes "configs_small (us_configs s)" and "take_quota X user f (session_to_json X s) = Inr (j', cfg)"
  obtains c where "user = x_uuid_str X (us_user s)" and "map_of (us_configs s) f = Some c" and "quota c \<noteq> 0"
    and "config_small c" and "cfg = config_to_json (take_one c)"
    and "j' = session_to_json X (s\<lparr>us_configs := AList.update f (take_one c) (us_configs s)\<rparr>)"
proof -
  from assms take_quota_session [OF assms(1), of X user f] obtain c where
    "user = x_uuid_str X (us_user s)" "map_of (us_configs s) f = Some c" "quota c \<noteq> 0" "cfg = config_to_json (take_one c)"
    "j' = session_to_json X (s\<lparr>us_configs := AList.update f (take_one c) (us_configs s)\<rparr>)"
    by (auto split: if_splits option.splits)
  moreover from this(2) assms(1) have "config_small c" by (auto simp: configs_small_def dest: map_of_SomeD)
  ultimately show thesis by (intro that)
qed

text \<open>One call of the script on the session it is about.\<close>

lemma quota_call_session:
  assumes inv: "session_inv X sid uid n w" and codec: "uuid_codec X"
    and call: "try_to_get_field_quota X sid f u w = (r, w')"
  shows "drawn w' = drawn w \<and> fresh_uuids w' = fresh_uuids w \<and> r \<noteq> Panic
    \<and> (case r of Ok c \<Rightarrow> u = uid \<and> 0 < n f \<and> session_inv X sid uid (n(f := n f - 1)) w'
             | _ \<Rightarrow> session_inv X sid uid n w')"
proof (cases rule: quota_call_cases [of X sid f u w])
  case (failed e fs)
  with call have "r = Err e" "w' = w\<lparr>faults := fs\<rparr>" by simp_all
  then show ?thesis using session_inv_same [OF inv, of "w\<lparr>faults := fs\<rparr>"] by simp
next
  case (taken j j' cfg fs)
  let ?K = "build_upload_session_key X sid"
  from taken(1) obtain ex where "redis w ?K = Some (j, ex)" by (auto simp: kv_get_def split: option.splits if_splits)
  then obtain cfgs where j: "j = session_to_json X \<lparr>us_user = uid, us_configs = cfgs\<rparr>"
    and small: "configs_small cfgs" and rem: "\<forall>f. remaining cfgs f \<le> n f" using inv by (auto simp: session_inv_def)
  from take_quota_InrD [of "\<lparr>us_user = uid, us_configs = cfgs\<rparr>", simplified, OF small taken(2) [unfolded j]]
  obtain c where c: "x_uuid_str X u = x_uuid_str X uid" "map_of cfgs f = Some c" "quota c \<noteq> 0" "config_small c"
    "cfg = config_to_json (take_one c)"
    "j' = session_to_json X \<lparr>us_user = uid, us_configs = AList.update f (take_one c) cfgs\<rparr>" by blast
  let ?cfgs = "AList.update f (take_one c) cfgs"
  have u: "u = uid" using codec c(1) by (metis uuid_codec_def option.inject)
  have r: "r = Ok (take_one c)"
    and w': "w' = w\<lparr>faults := fs, redis := kv_set_ex ?K j' session_ttl (clock w) (redis w)\<rparr>"
    using call taken(3) c(5) by simp_all
  have small': "configs_small ?cfgs" using small c(3,4) by (intro update_small take_one_small)
  have one: "unat (quota c - 1) = unat (quota c) - 1" "0 < unat (quota c)"
    using c(3) by (simp_all add: unat_minus_one unat_gt_0)
  have rem': "remaining ?cfgs g \<le> (n(f := n f - 1)) g" for g
    using rem [rule_format, of g] c(2) one by (cases "g = f") (auto simp: remaining_def update_conv' take_one_def)
  have pos: "0 < n f" using rem [rule_format, of f] c(2) one by (simp add: remaining_def)
  have "\<exists>cs. j' = session_to_json X \<lparr>us_user = uid, us_configs = cs\<rparr>
      \<and> configs_small cs \<and> (\<forall>g. remaining cs g \<le> (n(f := n f - 1)) g)" using small' rem' c(6) by blast
  then have "session_inv X sid uid (n(f := n f - 1)) w'"
    using inv by (simp add: session_inv_def w' kv_set_ex_def)
  with r u pos show ?thesis by (simp add: w')
qed

text \<open>A call of the script about another session.\<close>

lemma quota_call_other:
  assumes inv: "session_inv X sid uid n w" and codec: "uuid_codec X" and "sid' \<noteq> sid"
    and call: "try_to_get_field_quota X sid' f u w = (r, w')"
  shows "drawn w' = drawn w \<and> fresh_uuids w' = fresh_uuids w \<and> session_inv X sid uid n w'"
proof (cases rule: quota_call_cases [of X sid' f u w])
  case (failed e fs)
  with call have "w' = w\<lparr>faults := fs\<rparr>" by simp
  then show ?thesis using session_inv_same [OF inv, of "w\<lparr>faults := fs\<rparr>"] by simp
next
  case (taken j j' cfg fs)
  have "build_upload_session_key X sid \<noteq> build_upload_session_key X sid'"
    using session_key_inj [OF codec] assms(3) by blast
  with call taken(3) session_inv_same [OF inv, of w'] show ?thesis by (auto simp: kv_set_ex_def)
qed

text \<open>What follows the script in the handler leaves Redis alone.\<close>

lemma presigned_url_frame:
  "redis (snd (presigned_upload_url X s ct len fn w)) = redis w
    \<and> drawn w \<le> drawn (snd (presigned_upload_url X s ct len fn w))
    \<and> fresh_uuids (snd (presigned_upload_url X s ct len fn w)) = fresh_uuids w"
  using next_fault_fields [of "w\<lparr>drawn := Suc (drawn w)\<rparr>"]
  by (auto simp: presigned_upload_url_def new_uuid_def and_then_def unexpected_def map_err_def
      generate_presigned_url_def s3_call_def return_def split: prod.splits fault.splits simp del: next_fault_fields)

lemma presign_rest_frame:
  assumes "snd (and_then (lift_result id (check_file_validity cfg fn len)) (\<lambda>_.
      and_then (presigned_upload_url X s ct len fn) (\<lambda>p. return (resp_created p msg))) w) = w'"
  shows "redis w' = redis w \<and> drawn w \<le> drawn w' \<and> fresh_uuids w' = fresh_uuids w"
  using assms presigned_url_frame [of X s ct len fn w]
  by (auto simp: and_then_def lift_result_def return_def split: result.splits prod.splits)

lemma presign_step:
  assumes inv: "session_inv X sid uid n w" and codec: "uuid_codec X"
    and run: "upload_step X (OpPresign r user) w = (gs, w')"
  shows "(gs = [] \<or> pr_session r \<noteq> sid) \<and> session_inv X sid uid n w'
    \<or> gs = [\<lparr>gr_session = sid, gr_field = pr_field r, gr_user = uid\<rparr>] \<and> 0 < n (pr_field r)
        \<and> session_inv X sid uid (n(pr_field r := n (pr_field r) - 1)) w'"
proof (cases rule: require_valid_cases [of "\<lambda>_. validate_presigned r" w])
  case (2 errs)
  with run have "gs = []" "w' = w" by (simp_all add: presigned_upload_url_handler_def and_then_def)
  with inv show ?thesis by simp
next
  case 1
  let ?ct = "case pr_type r of Some t \<Rightarrow> if trim t \<noteq> [] then trim t else x_mime_guess X (pr_filename r)
                    | None \<Rightarrow> x_mime_guess X (pr_filename r)"
  let ?rest = "\<lambda>cfg. and_then (lift_result id (check_file_validity cfg (pr_filename r) (pr_length r))) (\<lambda>_.
      and_then (presigned_upload_url X (pr_session r) ?ct (pr_length r) (pr_filename r))
        (\<lambda>p. return (resp_created p ''upload URL signed'')))"
  obtain q w1 where q: "try_to_get_field_quota X (pr_session r) (pr_field r) (sub user) w = (q, w1)"
    by (cases "try_to_get_field_quota X (pr_session r) (pr_field r) (sub user) w")
  have handler: "presigned_upload_url_handler X r user w = and_then (\<lambda>_. (q, w1)) ?rest w"
    using 1(2) q by (simp add: presigned_upload_url_handler_def and_then_def Let_def)
  have w': "w' = (case q of Ok c \<Rightarrow> snd (?rest c w1) | _ \<Rightarrow> w1)"
    and gs: "gs \<noteq> [] \<Longrightarrow> (\<exists>c. q = Ok c) \<and> gs = [\<lparr>gr_session = pr_session r, gr_field = pr_field r, gr_user = sub user\<rparr>]"
    using run by (auto simp: handler and_then_def [of "\<lambda>_. (q, w1)"] split: result.splits prod.splits)
  have frame: "redis w' = redis w1 \<and> drawn w1 \<le> drawn w' \<and> fresh_uuids w' = fresh_uuids w1"
    using presign_rest_frame [OF refl] by (simp add: w' split: result.splits)
  note keep = session_inv_same [OF _ _ _ , of X sid uid _ w1 w']
  show ?thesis
  proof (cases "pr_session r = sid")
    case False
    with quota_call_other [OF inv codec _ q] frame keep show ?thesis by simp
  next
    case True
    note step = quota_call_session [OF inv codec q [unfolded True]]
    show ?thesis
    proof (cases "gs = []")
      case False
      with gs True step frame keep show ?thesis by fastforce
    next
      case True
      have "session_inv X sid uid n w1"
      proof (cases q)
        case (Ok c)
        with step have "session_inv X sid uid (n(pr_field r := n (pr_field r) - 1)) w1" by simp
        then show ?thesis by (rule session_inv_mono) simp
      qed (use step in simp_all)
      with True frame keep show ?thesis by simp
    qed
  qed
qed

lemma init_step:
  assumes inv: "session_inv X sid uid n w" and codec: "uuid_codec X"
  shows "session_inv X sid uid n (snd (init_upload_session X cfgs u w))"
proof -
  let ?new = "fresh_uuids w (drawn w)"
  let ?w = "w\<lparr>drawn := Suc (drawn w)\<rparr>"
  have "?new \<noteq> sid" using inv by (simp add: session_inv_def)
  then have key: "build_upload_session_key X sid \<noteq> build_upload_session_key X ?new"
    using session_key_inj [OF codec] by blast
  let ?F = "\<lambda>now m. ((), kv_set_ex (build_upload_session_key X ?new)
      (session_to_json X \<lparr>us_user = u, us_configs = cfgs\<rparr>) session_ttl now m)"
  show ?thesis
  proof (cases rule: redis_call_cases [of ?F ?w])
    case (err e fs)
    then have "snd (init_upload_session X cfgs u w) = ?w\<lparr>faults := fs\<rparr>"
      by (simp add: init_upload_session_def new_uuid_def and_then_def unexpected_def map_err_def redis_set_ex_def)
    with session_inv_same [OF inv, of "?w\<lparr>faults := fs\<rparr>"] show ?thesis by simp
  next
    case (ok x m fs)
    then have "snd (init_upload_session X cfgs u w) = ?w\<lparr>faults := fs, redis := m\<rparr>"
      by (simp add: init_upload_session_def new_uuid_def and_then_def unexpected_def map_err_def redis_set_ex_def return_def)
    moreover have "m (build_upload_session_key X sid) = redis w (build_upload_session_key X sid)"
      using ok(1) key by (auto simp: kv_set_ex_def)
    ultimately show ?thesis using session_inv_same [OF inv, of "?w\<lparr>faults := fs, redis := m\<rparr>"] by simp
  qed
qed

lemma drop_step:
  assumes inv: "session_inv X sid uid n w"
  shows "session_inv X sid uid n (snd (delete_upload_session X sid' w))"
proof -
  let ?F = "\<lambda>(_::int) m. ((), kv_del (build_upload_session_key X sid') m)"
  show ?thesis
  proof (cases rule: redis_call_cases [of ?F w])
    case (err e fs)
    then have "snd (delete_upload_session X sid' w) = w\<lparr>faults := fs\<rparr>"
      by (simp add: delete_upload_session_def redis_del_def unexpected_def map_err_def)
    with session_inv_same [OF inv, of "w\<lparr>faults := fs\<rparr>"] show ?thesis by simp
  next
    case (ok x m fs)
    then have "snd (delete_upload_session X sid' w) = w\<lparr>faults := fs, redis := m\<rparr>"
      by (simp add: delete_upload_session_def redis_del_def unexpected_def map_err_def)
    moreover have "m = kv_del (build_upload_session_key X sid') (redis w)" using ok(1) by simp
    ultimately show ?thesis
      using session_inv_same [OF inv, of "w\<lparr>faults := fs, redis := m\<rparr>"]
        session_inv_gone [OF inv, of "w\<lparr>faults := fs, redis := m\<rparr>"]
      by (cases "build_upload_session_key X sid' = build_upload_session_key X sid") (simp_all add: kv_del_def)
  qed
qed

text \<open>The grants of a session over a whole run.\<close>

definition session_grants :: "uuid \<Rightarrow> grant list \<Rightarrow> grant list" where
  "session_grants sid gs = filter (\<lambda>g. gr_session g = sid) gs"

lemma grants_bounded:
  assumes "session_inv X sid uid n w" and "uuid_codec X"
  shows "count_where (\<lambda>g. gr_session g = sid \<and> gr_field g = f) (grants X ops w) \<le> n f
    \<and> (\<forall>g\<in>set (grants X ops w). gr_session g = sid \<longrightarrow> gr_user g = uid)"
  using assms(1)
proof (induction ops arbitrary: w n)
  case (Cons op ops)
  let ?n = "\<lambda>gs. count_where (\<lambda>g. gr_session g = sid \<and> gr_field g = f) gs"
  have app: "?n (a @ b) = ?n a + ?n b" for a b by (simp add: count_where_def)
  obtain gs w1 where st: "upload_step X op w = (gs, w1)" by (cases "upload_step X op w")
  have "(\<forall>g\<in>set gs. gr_session g \<noteq> sid) \<and> session_inv X sid uid n w1
    \<or> (\<exists>h. gs = [\<lparr>gr_session = sid, gr_field = h, gr_user = uid\<rparr>] \<and> 0 < n h \<and> session_inv X sid uid (n(h := n h - 1)) w1)"
  proof (cases op)
    case (OpPresign r user)
    with st have s: "upload_step X (OpPresign r user) w = (gs, w1)" by simp
    then have "\<forall>g\<in>set gs. gr_session g = pr_session r" by (auto split: prod.splits result.splits)
    with presign_step [OF Cons.prems assms(2) s] show ?thesis by auto
  next
    case (OpInit cfgs u)
    with st init_step [OF Cons.prems assms(2), of cfgs u] show ?thesis by auto
  next
    case (OpDrop s)
    with st drop_step [OF Cons.prems, of s] show ?thesis by auto
  next
    case (OpWait t)
    with st session_inv_same [OF Cons.prems, of w1] show ?thesis by auto
  next
    case (OpFaults fs)
    with st session_inv_same [OF Cons.prems, of w1] show ?thesis by auto
  qed
  then show ?case
  proof (elim disjE exE conjE)
    assume none: "\<forall>g\<in>set gs. gr_session g \<noteq> sid" and inv: "session_inv X sid uid n w1"
    have "?n gs = 0" using none by (simp add: count_where_0_iff)
    with Cons.IH [OF inv] none st show ?thesis by (auto simp: app)
  next
    fix h assume gs: "gs = [\<lparr>gr_session = sid, gr_field = h, gr_user = uid\<rparr>]" and pos: "0 < n h"
      and inv: "session_inv X sid uid (n(h := n h - 1)) w1"
    have "?n gs = (if h = f then 1 else 0)" by (simp add: gs count_where_def)
    then have "?n (grants X (op # ops) w) = (if h = f then 1 else 0) + ?n (grants X ops w1)"
      using st by (simp only: grants.simps app fst_conv snd_conv)
    moreover have "?n (grants X ops w1) \<le> (n(h := n h - 1)) f" using Cons.IH [OF inv] by blast
    ultimately have "?n (grants X (op # ops) w) \<le> n f" using pos by (auto split: if_splits)
    moreover have "\<forall>g\<in>set (grants X (op # ops) w). gr_session g = sid \<longrightarrow> gr_user g = uid"
      using Cons.IH [OF inv] gs st by simp
    ultimately show ?thesis by blast
  qed
qed (simp add: count_where_def)

lemma contains_str_suffix: "contains_str (p @ s) s"
  by (simp add: contains_str_def)

lemma init_OkD:
  assumes "init_upload_session X cfgs uid w = (Ok sid, w1)"
  shows "sid = fresh_uuids w (drawn w)
    \<and> (\<exists>fs. w1 = w\<lparr>drawn := Suc (drawn w), faults := fs, redis := kv_set_ex (build_upload_session_key X sid)
         (session_to_json X \<lparr>us_user = uid, us_configs = cfgs\<rparr>) session_ttl (clock w) (redis w)\<rparr>)"
proof -
  let ?sid = "fresh_uuids w (drawn w)"
  let ?w = "w\<lparr>drawn := Suc (drawn w)\<rparr>"
  let ?F = "\<lambda>now m. ((), kv_set_ex (build_upload_session_key X ?sid)
      (session_to_json X \<lparr>us_user = uid, us_configs = cfgs\<rparr>) session_ttl now m)"
  note step = init_upload_session_def new_uuid_def and_then_def unexpected_def map_err_def redis_set_ex_def return_def
  show ?thesis
  proof (cases rule: redis_call_cases [of ?F ?w])
    case (err e fs)
    with assms show ?thesis by (simp add: step)
  next
    case (ok x m fs)
    with assms have "sid = ?sid" "w1 = ?w\<lparr>faults := fs, redis := m\<rparr>" by (auto simp: step)
    with ok(1) show ?thesis by auto
  qed
qed

lemma quota_call_OkD:
  assumes call: "try_to_get_field_quota X sid f u w = (Ok cfg, w')"
    and sess: "\<forall>j. kv_get (build_upload_session_key X sid) (clock w) (redis w) = Some j \<longrightarrow> j = session_to_json X s"
    and small: "configs_small (us_configs s)"
  shows "kv_get (build_upload_session_key X sid) (clock w) (redis w) \<noteq> None
    \<and> x_uuid_str X u = x_uuid_str X (us_user s)
    \<and> (\<exists>c. map_of (us_configs s) f = Some c \<and> quota c \<noteq> 0 \<and> cfg = take_one c)"
proof (cases rule: quota_call_cases [of X sid f u w])
  case (failed e fs)
  with call show ?thesis by simp
next
  case (taken j j' cfg' fs)
  with sess have j: "j = session_to_json X s" by blast
  from take_quota_InrD [OF small taken(2) [unfolded j]] obtain c where "x_uuid_str X u = x_uuid_str X (us_user s)"
    "map_of (us_configs s) f = Some c" "quota c \<noteq> 0" "cfg' = config_to_json (take_one c)" .
  with call taken show ?thesis by simp
qed

lemma check_file_validity_OkD:
  "check_file_validity cfg fn len = Ok u \<Longrightarrow> sint len \<le> sint (max_size cfg)
    \<and> (allowed_types cfg = [] \<or> (\<exists>e. path_extension fn = Some e \<and> to_lowercase (''.'' @ e) \<in> set (allowed_types cfg)))"
  by (auto simp: check_file_validity_def split: if_splits option.splits)

lemma presigned_OkD:
  assumes "presigned_upload_url_handler X r user w = (Ok resp, w')"
  obtains cfg w1 where "try_to_get_field_quota X (pr_session r) (pr_field r) (sub user) w = (Ok cfg, w1)"
    and "check_file_validity cfg (pr_filename r) (pr_length r) = Ok ()"
proof (cases rule: require_valid_cases [of "\<lambda>_. validate_presigned r" w])
  case (2 errs)
  with assms show thesis by (simp add: presigned_upload_url_handler_def and_then_def)
next
  case 1
  obtain q w1 where q: "try_to_get_field_quota X (pr_session r) (pr_field r) (sub user) w = (q, w1)"
    by (cases "try_to_get_field_quota X (pr_session r) (pr_field r) (sub user) w")
  show thesis
  proof (cases q)
    case (Ok cfg)
    with assms 1 q have "check_file_validity cfg (pr_filename r) (pr_length r) = Ok ()"
      by (cases "check_file_validity cfg (pr_filename r) (pr_length r)")
         (simp_all add: presigned_upload_url_handler_def and_then_def lift_result_def)
    with q Ok that show thesis by blast
  qed (use assms 1 q in \<open>simp_all add: presigned_upload_url_handler_def and_then_def\<close>)
qed

section \<open>Properties\<close>

text \<open>C6: A session hands out at most as many upload URLs for a field as the template's quota for it says,
  over its whole life and whatever is requested: other users and other sessions, several
  sessions in parallel, failing calls, expiry and renewal in between. All of them go to the
  user who opened the session.\<close>

theorem quota_is_never_exceeded:
  assumes "uuid_codec X" and "init_upload_session X cfgs uid w = (Ok sid, w1)" and "configs_small cfgs"
    and "\<forall>k\<ge>drawn w1. fresh_uuids w1 k \<noteq> sid"
  shows "count_where (\<lambda>g. gr_session g = sid \<and> gr_field g = f) (grants X ops w1) \<le> remaining cfgs f
    \<and> (\<forall>g\<in>set (grants X ops w1). gr_session g = sid \<longrightarrow> gr_user g = uid)"
proof -
  have "session_inv X sid uid (remaining cfgs) w1"
    using init_OkD [OF assms(2)] assms(3,4) by (auto simp: session_inv_def kv_set_ex_def)
  then show ?thesis using assms(1) by (rule grants_bounded)
qed

definition demo_configs :: file_configs where
  "demo_configs = [(''photo'', \<lparr>allowed_types = [''.png''], quota = 1, max_size = 2097152, required = True\<rparr>)]"

definition demo_presign :: presigned_request where
  "demo_presign = \<lparr>pr_session = 0, pr_field = ''photo'', pr_filename = ''a.png'', pr_length = 100, pr_type = None\<rparr>"

theorem quota_is_never_exceeded_witness:
  "let w = (demo_world [] [])\<lparr>fresh_uuids := (\<lambda>k. if k = 0 then 0 else 1)\<rparr>
   in \<exists>w1. init_upload_session demo_externs demo_configs 1 w = (Ok 0, w1)
     \<and> count_where (\<lambda>g. gr_session g = 0 \<and> gr_field g = ''photo'')
         (grants demo_externs [OpPresign demo_presign (demo_claims USER 1), OpPresign demo_presign (demo_claims USER 1)] w1) \<le> 1"
proof -
  let ?w = "(demo_world [] [])\<lparr>fresh_uuids := (\<lambda>k. if k = 0 then 0 else 1)\<rparr>"
  obtain w1 where run: "init_upload_session demo_externs demo_configs 1 ?w = (Ok 0, w1)"
    and w1: "drawn w1 = 1" "fresh_uuids w1 = (\<lambda>k. if k = 0 then 0 else 1)"
    by (simp add: init_upload_session_def new_uuid_def and_then_def unexpected_def map_err_def redis_set_ex_def
        redis_call_def demo_world_def return_def)
  have "configs_small demo_configs" by (simp add: configs_small_def config_small_def demo_configs_def)
  moreover have "\<forall>k\<ge>drawn w1. fresh_uuids w1 k \<noteq> 0" by (simp add: w1)
  ultimately have "count_where (\<lambda>g. gr_session g = 0 \<and> gr_field g = ''photo'')
      (grants demo_externs [OpPresign demo_presign (demo_claims USER 1), OpPresign demo_presign (demo_claims USER 1)] w1)
      \<le> remaining demo_configs ''photo''"
    using quota_is_never_exceeded [OF demo_uuid_codec run] by blast
  with run show ?thesis by (auto simp: Let_def remaining_def demo_configs_def)
qed

text \<open>C19: Nobody gets an upload URL he may not have: when a URL is handed out, the session is the user's
  own and alive, the field belongs to it and has quota left, the announced size is within the
  field's limit, and the extension of the file name, in lower case, is one of the allowed types
  unless the field allows every type.\<close>

theorem granted_uploads_are_allowed:
  assumes "presigned_upload_url_handler X r user w = (Ok resp, w')" and "uuid_codec X"
    and "\<forall>j. kv_get (build_upload_session_key X (pr_session r)) (clock w) (redis w) = Some j \<longrightarrow> j = session_to_json X s"
    and "configs_small (us_configs s)"
  shows "sub user = us_user s
    \<and> kv_get (build_upload_session_key X (pr_session r)) (clock w) (redis w) \<noteq> None
    \<and> (\<exists>c. map_of (us_configs s) (pr_field r) = Some c \<and> quota c \<noteq> 0
        \<and> sint (pr_length r) \<le> sint (max_size c)
        \<and> (allowed_types c = [] \<or> (\<exists>e. path_extension (pr_filename r) = Some e
              \<and> to_lowercase (''.'' @ e) \<in> set (allowed_types c))))"
proof -
  from assms(1) obtain cfg w1 where q: "try_to_get_field_quota X (pr_session r) (pr_field r) (sub user) w = (Ok cfg, w1)"
    and v: "check_file_validity cfg (pr_filename r) (pr_length r) = Ok ()" by (rule presigned_OkD)
  from quota_call_OkD [OF q assms(3,4)] obtain c where c: "map_of (us_configs s) (pr_field r) = Some c" "quota c \<noteq> 0"
    "cfg = take_one c" and live: "kv_get (build_upload_session_key X (pr_session r)) (clock w) (redis w) \<noteq> None"
    and "x_uuid_str X (sub user) = x_uuid_str X (us_user s)" by blast
  then have "sub user = us_user s" using assms(2) by (metis uuid_codec_def option.inject)
  with c live check_file_validity_OkD [OF v] show ?thesis by (auto simp: take_one_def)
qed

definition demo_session_world :: world where
  "demo_session_world = (demo_world [] [])\<lparr>redis := kv_set_ex (build_upload_session_key demo_externs 0)
     (session_to_json demo_externs \<lparr>us_user = 1, us_configs = demo_configs\<rparr>) session_ttl 0 (\<lambda>_. None)\<rparr>"

lemma demo_session_live:
  "kv_get (build_upload_session_key demo_externs 0) (clock demo_session_world) (redis demo_session_world)
     = Some (session_to_json demo_externs \<lparr>us_user = 1, us_configs = demo_configs\<rparr>)"
  by (simp add: demo_session_world_def demo_world_def kv_get_def kv_set_ex_def session_ttl_def seconds_def)

lemma demo_presign_run:
  "\<exists>resp w'. presigned_upload_url_handler demo_externs demo_presign (demo_claims USER 1) demo_session_world = (Ok resp, w')"
proof -
  let ?s = "\<lparr>us_user = 1, us_configs = demo_configs\<rparr>"
  have small: "configs_small (us_configs ?s)" by (simp add: configs_small_def config_small_def demo_configs_def)
  have tq: "take_quota demo_externs (x_uuid_str demo_externs 1) ''photo'' (session_to_json demo_externs ?s)
      = Inr (session_to_json demo_externs (?s\<lparr>us_configs := AList.update ''photo'' (take_one (the (map_of demo_configs ''photo''))) demo_configs\<rparr>),
             config_to_json (take_one (the (map_of demo_configs ''photo''))))"
    by (subst take_quota_session [OF small]) (simp add: demo_configs_def)
  have faults: "faults demo_session_world = []" by (simp add: demo_session_world_def demo_world_def)
  have sub: "sub (demo_claims USER 1) = 1" by (simp add: demo_claims_def)
  have q: "\<exists>w1. try_to_get_field_quota demo_externs 0 ''photo'' 1 demo_session_world
      = (Ok (take_one (the (map_of demo_configs ''photo''))), w1) \<and> faults w1 = []"
    using demo_session_live tq faults
    by (simp add: try_to_get_field_quota_def deduct_quota_script_def script_body_def redis_call_def and_then_def map_err_def return_def)
  then obtain w1 where q: "try_to_get_field_quota demo_externs 0 ''photo'' 1 demo_session_world
      = (Ok (take_one (the (map_of demo_configs ''photo''))), w1)" and f1: "faults w1 = []" by blast
  have v: "check_file_validity (take_one (the (map_of demo_configs ''photo''))) ''a.png'' 100 = Ok ()"
    by (simp add: check_file_validity_def take_one_def demo_configs_def path_extension_def path_file_name_def rsplit_dot_def
        to_lowercase_def lower_char_def is_upper_def)
  have n: "validate_presigned demo_presign = []"
    by (simp add: validate_presigned_def demo_presign_def nonempty_error_def char_count_def file_name_ok_def rsplit_dot_def
        is_alnum_def is_lower_def nl_def)
  show ?thesis using q v n f1 sub
    by (simp add: presigned_upload_url_handler_def require_valid_def and_then_def demo_presign_def Let_def
        lift_result_def presigned_upload_url_def new_uuid_def unexpected_def map_err_def generate_presigned_url_def s3_call_def return_def)
qed

theorem granted_uploads_are_allowed_witness:
  "\<exists>resp w'. presigned_upload_url_handler demo_externs demo_presign (demo_claims USER 1) demo_session_world = (Ok resp, w')
     \<and> sint (pr_length demo_presign) \<le> 2097152"
proof -
  obtain resp w' where run: "presigned_upload_url_handler demo_externs demo_presign (demo_claims USER 1) demo_session_world = (Ok resp, w')"
    using demo_presign_run by blast
  let ?s = "\<lparr>us_user = 1, us_configs = demo_configs\<rparr>"
  have small: "configs_small (us_configs ?s)" by (simp add: configs_small_def config_small_def demo_configs_def)
  have sess: "\<forall>j. kv_get (build_upload_session_key demo_externs (pr_session demo_presign)) (clock demo_session_world)
      (redis demo_session_world) = Some j \<longrightarrow> j = session_to_json demo_externs ?s"
    using demo_session_live by (simp add: demo_presign_def)
  from granted_uploads_are_allowed [OF run demo_uuid_codec sess small] run show ?thesis
    by (auto simp: demo_presign_def demo_configs_def)
qed

text \<open>A session that is not used for half an hour is gone: from then on every request for an upload
  URL is answered with \<open>not found\<close>, and creating a record with it is refused.\<close>

theorem idle_sessions_expire:
  assumes "init_upload_session X cfgs uid w = (Ok sid, w1)" and "session_ttl \<le> t"
    and "faults w1 = []"
  shows "fst (try_to_get_field_quota X sid f u (w1\<lparr>clock := clock w1 + t\<rparr>))
      = Err (DataNotFound ''the upload session does not exist or has expired'')
    \<and> fst (check_upload_session_exists X sid (w1\<lparr>clock := clock w1 + t\<rparr>))
      = Err (DataNotFound ''the upload session does not exist or has expired'')"
proof -
  obtain fs where w1: "w1 = w\<lparr>drawn := Suc (drawn w), faults := fs, redis := kv_set_ex (build_upload_session_key X sid)
         (session_to_json X \<lparr>us_user = uid, us_configs = cfgs\<rparr>) session_ttl (clock w) (redis w)\<rparr>"
    using init_OkD [OF assms(1)] by blast
  have gone: "kv_get (build_upload_session_key X sid) (clock w + t) (redis w1) = None"
    using kv.set_then_gone [of "clock w" session_ttl "clock w + t"] assms(2) by (simp add: w1)
  have clk: "clock w1 = clock w" by (simp add: w1)
  have msg: "quota_error (RedisErr (''An error was signalled by the server: '' @ ''SESSION_NOT_FOUND''))
      = DataNotFound ''the upload session does not exist or has expired''"
    using contains_str_suffix [of "''An error was signalled by the server: ''" "''SESSION_NOT_FOUND''"]
    by (simp add: quota_error_def Let_def)
  show ?thesis using gone clk assms(3) msg
    by (simp add: try_to_get_field_quota_def deduct_quota_script_def script_body_def redis_call_def and_then_def map_err_def throw_def
        check_upload_session_exists_def redis_exists_def unexpected_def)
qed

theorem idle_sessions_expire_witness:
  "\<exists>w1. init_upload_session demo_externs demo_configs 1 (demo_world [] []) = (Ok 0, w1)
     \<and> fst (check_upload_session_exists demo_externs 0 (w1\<lparr>clock := clock w1 + session_ttl\<rparr>))
         = Err (DataNotFound ''the upload session does not exist or has expired'')"
proof -
  obtain w1 where run: "init_upload_session demo_externs demo_configs 1 (demo_world [] []) = (Ok 0, w1)" and "faults w1 = []"
    by (simp add: init_upload_session_def new_uuid_def and_then_def unexpected_def map_err_def redis_set_ex_def
        redis_call_def demo_world_def return_def)
  from idle_sessions_expire [OF run order.refl this(2)] run show ?thesis by blast
qed

end
