(* ===== verification/Archive.thy ===== *)
theory Archive
  imports Uploads Worker
begin

text \<open>
  The records of \<open>modules/archive/\<close>: a record and the rows of its files are written in one
  database transaction while the uploaded objects are copied to their final keys; when that
  fails, the transaction is rolled back and a command that deletes the copies is submitted.
  Records are listed with filters and signed links to their files, and deleted with their objects.
\<close>

section \<open>Transactions\<close>

text \<open>
  Between \<open>begin\<close> and \<open>commit\<close> the statements act on the tables; the tables at the beginning are kept
  and come back when the transaction is rolled back, dropped, or cannot be committed.
\<close>

definition tx_begin :: "(world, anyhow, database) prog" where
  "tx_begin = select (\<lambda>_ d. d)"

definition tx_commit :: "database \<Rightarrow> (world, anyhow, unit) prog" where
  "tx_commit snap w =
     (case next_fault w of
        (f, w') \<Rightarrow> if f \<noteq> NoFault then (Err (DbErr None), w'\<lparr>db := snap\<rparr>) else (Ok (), w'))"

text \<open>A rollback that fails is logged; the server rolls back the lost connection.\<close>

definition tx_rollback :: "database \<Rightarrow> (world, 'e, unit) prog" where
  "tx_rollback snap w = (case next_fault w of (_, w') \<Rightarrow> (Ok (), w'\<lparr>db := snap\<rparr>))"

text \<open>An early return drops the transaction.\<close>

definition or_drop :: "database \<Rightarrow> (world, 'e, 'a) prog \<Rightarrow> (world, 'e, 'a) prog" where
  "or_drop snap m w = (case m w of (Ok x, w') \<Rightarrow> (Ok x, w') | (r, w') \<Rightarrow> (r, w'\<lparr>db := snap\<rparr>))"

section \<open>Requests and records\<close>

record create_record_request =
  cr_data :: json
  cr_session :: "uuid option"

record record_dto =
  rd_id :: uuid
  rd_template :: uuid
  rd_data :: json
  rd_created :: int
  rd_by :: "uuid option"

definition record_to_dto :: "archive_row \<Rightarrow> record_dto" where
  "record_to_dto a = \<lparr>rd_id = a_id a, rd_template = a_template a, rd_data = a_data a, rd_created = a_created a, rd_by = a_by a\<rparr>"

definition insert_record :: "uuid \<Rightarrow> json \<Rightarrow> uuid \<Rightarrow> uuid \<Rightarrow> archive_row stmt" where
  "insert_record fresh v tid uid now d =
     (let a = \<lparr>a_id = fresh, a_template = tid, a_data = v, a_by = Some uid, a_created = now\<rparr>
      in if fresh \<in> a_id ` set (records d) then Inl ''23505''
         else if tid \<notin> t_id ` set (templates d) \<or> uid \<notin> u_id ` set (users d) then Inl ''23503''
         else Inr (a, d\<lparr>records := records d @ [a]\<rparr>))"

definition create_archive_record :: "create_record_request \<Rightarrow> uuid \<Rightarrow> uuid \<Rightarrow> (world, app_error, record_dto) prog" where
  "create_archive_record req tid uid =
     and_then new_uuid (\<lambda>fresh.
     and_then (map_err (\<lambda>e. if e = DbErr (Some ''23503'') then DataNotFound ''the template does not exist'' else UnexpectedError e)
                 (sql (insert_record fresh (cr_data req) tid uid))) (\<lambda>a.
     return (record_to_dto a)))"

section \<open>The files of a record\<close>

definition try_parse_file_id :: "externs \<Rightarrow> json option \<Rightarrow> uuid option" where
  "try_parse_file_id X v = Option.bind (Option.bind v as_str) (x_uuid_parse X)"

text \<open>The ids of the file fields of a record, in the order of the fields; each only once.\<close>

definition field_file_ids :: "externs \<Rightarrow> json \<Rightarrow> string \<Rightarrow> uuid list" where
  "field_file_ids X v f =
     (case get v f of
        Some (JStr s) \<Rightarrow> (case try_parse_file_id X (Some (JStr s)) of None \<Rightarrow> [] | Some i \<Rightarrow> [i])
      | Some (JArr xs) \<Rightarrow> List.map_filter (\<lambda>x. try_parse_file_id X (Some x)) xs
      | _ \<Rightarrow> [])"

fun push_unique :: "uuid list \<Rightarrow> uuid list \<Rightarrow> uuid list" where
  "push_unique seen [] = seen"
| "push_unique seen (i # fids) = push_unique (if i \<in> set seen then seen else seen @ [i]) fids"

definition collect_archive_object_keys_from_data :: "externs \<Rightarrow> uuid \<Rightarrow> file_configs \<Rightarrow> json \<Rightarrow> string list" where
  "collect_archive_object_keys_from_data X rid cfgs v =
     map (build_archive_dest_key X rid) (push_unique [] (concat (map (\<lambda>(f, _). field_file_ids X v f) cfgs)))"

definition get_file_metadata :: "externs \<Rightarrow> string \<Rightarrow> (world, app_error, file_metadata) prog" where
  "get_file_metadata X key =
     attempt (get_head_object_output key) (\<lambda>r. case r of
         Inl HeadNotFound \<Rightarrow> throw (DataNotFound ''there is an invalid file id'')
       | Inl (HeadOther _) \<Rightarrow> throw (UnexpectedError (Anyhow ''reading the file metadata failed''))
       | Inr head \<Rightarrow> lift_result UnexpectedError (try_from_head X head))"

definition move_temp_file_to_save :: "string \<Rightarrow> string \<Rightarrow> (world, app_error, unit) prog" where
  "move_temp_file_to_save source dest = unexpected (copy_source_to_dest source dest)"

definition insert_file :: "uuid \<Rightarrow> uuid \<Rightarrow> string \<Rightarrow> file_metadata \<Rightarrow> uuid \<Rightarrow> unit stmt" where
  "insert_file rid fid key md uid now d =
     (if 255 < char_count (md_filename md) \<or> 255 < char_count key \<or> 100 < char_count (md_mime md) then Inl ''22001''
      else if fid \<in> f_id ` set (files d) then Inl ''23505''
      else if rid \<notin> a_id ` set (records d) \<or> uid \<notin> u_id ` set (users d) then Inl ''23503''
      else Inr ((), d\<lparr>files := files d @ [\<lparr>f_id = fid, f_record = rid, f_name = md_filename md, f_key = key,
              f_size = md_size md, f_mime = md_mime md, f_by = Some uid\<rparr>]\<rparr>))"

definition save_file_metadata :: "uuid \<Rightarrow> uuid \<Rightarrow> string \<Rightarrow> file_metadata \<Rightarrow> uuid \<Rightarrow> (world, app_error, unit) prog" where
  "save_file_metadata rid fid key md uid = unexpected (sql (insert_file rid fid key md uid))"

definition process_single_file :: "externs \<Rightarrow> uuid \<Rightarrow> uuid \<Rightarrow> uuid \<Rightarrow> uuid \<Rightarrow> (world, app_error, unit) prog" where
  "process_single_file X sid uid fid rid =
     (let source = build_temp_object_key X sid fid; dest = build_archive_dest_key X rid fid
      in and_then (get_file_metadata X source) (\<lambda>md.
         and_then (move_temp_file_to_save source dest) (\<lambda>_.
         save_file_metadata rid fid dest md uid)))"

definition check_required :: "uuid option \<Rightarrow> bool \<Rightarrow> string \<Rightarrow> (world, app_error, unit) prog" where
  "check_required fid req f =
     (if req \<and> fid = None then throw (ValidationMessage (f @ '' needs a valid file id'')) else return ())"

text \<open>The ids of an array field; the first entry that is no id is an error.\<close>

fun parse_file_ids :: "externs \<Rightarrow> json list \<Rightarrow> uuid list option" where
  "parse_file_ids X [] = Some []"
| "parse_file_ids X (v # vs) =
     (case try_parse_file_id X (Some v) of
        None \<Rightarrow> None
      | Some i \<Rightarrow> map_option (\<lambda>js. i # js) (parse_file_ids X vs))"

definition create_field_files :: "externs \<Rightarrow> uuid \<Rightarrow> uuid \<Rightarrow> uuid \<Rightarrow> json \<Rightarrow> string \<times> file_config \<Rightarrow> (world, app_error, unit) prog" where
  "create_field_files X rid sid uid v fc =
     (case fc of (f, c) \<Rightarrow>
        if quota c = 1 then
          (case try_parse_file_id X (get v f) of
             None \<Rightarrow> check_required None (required c) f
           | Some fid \<Rightarrow> process_single_file X sid uid fid rid)
        else
          (case get v f of
             Some (JArr arr) \<Rightarrow>
               (case parse_file_ids X arr of
                  None \<Rightarrow> throw (ValidationMessage (''field '' @ f @ '' contains an invalid file id''))
                | Some fids \<Rightarrow>
                    if fids = [] \<and> required c then throw (ValidationMessage (''field '' @ f @ '' must not be empty''))
                    else if \<not> distinct fids then throw (ValidationMessage (''field '' @ f @ '' contains a file id twice''))
                    else for_each (\<lambda>fid. process_single_file X sid uid fid rid) fids)
           | _ \<Rightarrow> check_required None (required c) f))"

definition create_files_record :: "externs \<Rightarrow> uuid \<Rightarrow> file_configs \<Rightarrow> uuid \<Rightarrow> uuid \<Rightarrow> json \<Rightarrow> (world, app_error, unit) prog" where
  "create_files_record X rid cfgs sid uid v = for_each (create_field_files X rid sid uid v) cfgs"

definition check_need_file :: "template_context \<Rightarrow> create_record_request \<Rightarrow> (app_error, unit) result" where
  "check_need_file c req =
     (let need = (case file_field_configs c of None \<Rightarrow> False | Some cfgs \<Rightarrow> 0 < length (filter (\<lambda>(_, fc). required fc) cfgs))
      in if cr_session req = None \<and> need then Err (ValidationMessage ''upload the required files'') else Ok ())"

section \<open>Signed links\<close>

primrec collect_uuids_from_json_value :: "externs \<Rightarrow> json \<Rightarrow> uuid list" where
  "collect_uuids_from_json_value X JNull = []"
| "collect_uuids_from_json_value X (JBool b) = []"
| "collect_uuids_from_json_value X (JInt n) = []"
| "collect_uuids_from_json_value X (JFloat s) = []"
| "collect_uuids_from_json_value X (JStr s) = (case x_uuid_parse X s of None \<Rightarrow> [] | Some u \<Rightarrow> [u])"
| "collect_uuids_from_json_value X (JArr xs) = concat (map (collect_uuids_from_json_value X) xs)"
| "collect_uuids_from_json_value X (JObj m) = []"

primrec replace_uuid_with_url_in_json :: "externs \<Rightarrow> (uuid \<Rightarrow> string option) \<Rightarrow> json \<Rightarrow> json" where
  "replace_uuid_with_url_in_json X urls JNull = JNull"
| "replace_uuid_with_url_in_json X urls (JBool b) = JBool b"
| "replace_uuid_with_url_in_json X urls (JInt n) = JInt n"
| "replace_uuid_with_url_in_json X urls (JFloat s) = JFloat s"
| "replace_uuid_with_url_in_json X urls (JStr s) =
     JStr (case Option.bind (x_uuid_parse X s) urls of None \<Rightarrow> s | Some url \<Rightarrow> url)"
| "replace_uuid_with_url_in_json X urls (JArr xs) = JArr (map (replace_uuid_with_url_in_json X urls) xs)"
| "replace_uuid_with_url_in_json X urls (JObj m) = JObj m"

text \<open>\<open>data.get_mut(field)\<close> with a change of the value there.\<close>

definition change_member :: "(json \<Rightarrow> json) \<Rightarrow> string \<Rightarrow> json \<Rightarrow> json" where
  "change_member g f v =
     (case v of
        JObj m \<Rightarrow> (case map_of m f of None \<Rightarrow> v | Some x \<Rightarrow> JObj (put f (g x) m))
      | _ \<Rightarrow> v)"

definition file_ids_to_fetch :: "externs \<Rightarrow> file_configs \<Rightarrow> record_dto list \<Rightarrow> uuid list" where
  "file_ids_to_fetch X cfgs rs =
     concat (map (\<lambda>r. concat (map (\<lambda>(f, _). case get (rd_data r) f of None \<Rightarrow> [] | Some v \<Rightarrow> collect_uuids_from_json_value X v)
       cfgs)) rs)"

text \<open>A link that cannot be signed is left out.\<close>

fun sign_files :: "externs \<Rightarrow> file_row list \<Rightarrow> (uuid \<Rightarrow> string option) \<Rightarrow> (world, app_error, uuid \<Rightarrow> string option) prog" where
  "sign_files X [] urls = return urls"
| "sign_files X (f # fs) urls =
     attempt (generate_view_url X (f_name f) (f_key f)) (\<lambda>r.
       sign_files X fs (case r of Inr url \<Rightarrow> urls(f_id f \<mapsto> url) | Inl _ \<Rightarrow> urls))"

definition enrich_archive_records_with_urls :: "externs \<Rightarrow> file_configs \<Rightarrow> record_dto list \<Rightarrow> (world, app_error, record_dto list) prog" where
  "enrich_archive_records_with_urls X cfgs rs =
     (let fids = file_ids_to_fetch X cfgs rs
      in if rs = [] \<or> fids = [] then return rs
         else and_then (unexpected (select (\<lambda>_ d. filter (\<lambda>f. f_id f \<in> set fids) (files d)))) (\<lambda>fs.
              and_then (sign_files X fs (\<lambda>_. None)) (\<lambda>urls.
              return (map (\<lambda>r. r\<lparr>rd_data := fold (\<lambda>(f, _). change_member (replace_uuid_with_url_in_json X urls) f) cfgs (rd_data r)\<rparr>) rs))))"

section \<open>Creating a record\<close>

text \<open>
  The work inside the transaction, and what happens when it fails: the transaction is rolled back
  and the deletion of the possible copies is submitted; the one-second limit of the submission is
  a failing call here, and its error is only logged.
\<close>

definition copy_files :: "externs \<Rightarrow> record_dto \<Rightarrow> file_configs \<Rightarrow> uuid \<Rightarrow> uuid \<Rightarrow> json \<Rightarrow> (world, app_error, unit) prog" where
  "copy_files X rd cfgs sid uid v =
     and_then (check_upload_session_exists X sid) (\<lambda>_.
     create_files_record X (rd_id rd) cfgs sid uid v)"

definition submit_cleanup :: "string list \<Rightarrow> (world, app_error, unit) prog" where
  "submit_cleanup ks =
     (if ks = [] then return () else attempt (submit (DeleteArchiveObjects ks)) (\<lambda>_. return ()))"

definition copy_or_roll_back :: "externs \<Rightarrow> database \<Rightarrow> record_dto \<Rightarrow> file_configs \<Rightarrow> uuid \<Rightarrow> uuid \<Rightarrow> json \<Rightarrow>
    (world, app_error, unit) prog" where
  "copy_or_roll_back X snap rd cfgs sid uid v =
     (let expected = collect_archive_object_keys_from_data X (rd_id rd) cfgs v
      in attempt (copy_files X rd cfgs sid uid v) (\<lambda>r. case r of
             Inr _ \<Rightarrow> return ()
           | Inl e \<Rightarrow> and_then (tx_rollback snap) (\<lambda>_. and_then (submit_cleanup expected) (\<lambda>_. throw e))))"

text \<open>From \<open>begin\<close> to \<open>commit\<close>; \<open>fs\<close> holds the file fields and the session when there are files.\<close>

definition create_in_transaction :: "externs \<Rightarrow> create_record_request \<Rightarrow> uuid \<Rightarrow> uuid \<Rightarrow> (file_configs \<times> uuid) option \<Rightarrow>
    (world, app_error, record_dto) prog" where
  "create_in_transaction X req tid uid fs =
     and_then (unexpected tx_begin) (\<lambda>snap.
     and_then (or_drop snap (create_archive_record req tid uid)) (\<lambda>rd.
     and_then (case fs of None \<Rightarrow> return () | Some (cfgs, sid) \<Rightarrow> copy_or_roll_back X snap rd cfgs sid uid (cr_data req)) (\<lambda>_.
     and_then (unexpected (tx_commit snap)) (\<lambda>_. return rd))))"

definition files_of_request :: "template_context \<Rightarrow> create_record_request \<Rightarrow> (file_configs \<times> uuid) option" where
  "files_of_request c req =
     (case (file_field_configs c, cr_session req) of (Some cfgs, Some sid) \<Rightarrow> Some (cfgs, sid) | _ \<Rightarrow> None)"

definition create_archive_record_handler :: "externs \<Rightarrow> uuid \<Rightarrow> create_record_request \<Rightarrow> claims \<Rightarrow>
    (world, app_error, record_dto app_response) prog" where
  "create_archive_record_handler X tid req user =
     and_then (check_template_is_enabled tid) (\<lambda>_.
     and_then (validate_instance_by_id X tid (cr_data req)) (\<lambda>_.
     and_then (get_or_load_template_context X tid) (\<lambda>c.
     and_then (lift_result id (check_need_file c req)) (\<lambda>_.
     and_then (create_in_transaction X req tid (sub user) (files_of_request c req)) (\<lambda>rd.
     and_then (case cr_session req of None \<Rightarrow> return () | Some sid \<Rightarrow> delete_upload_session X sid) (\<lambda>_.
     and_then (case files_of_request c req of
                 None \<Rightarrow> return [rd]
               | Some (cfgs, _) \<Rightarrow> enrich_archive_records_with_urls X cfgs [rd]) (\<lambda>rds.
     return (resp_created (last rds) ''archive record created''))))))))"

section \<open>Deleting a record\<close>

text \<open>The rows of the files go with the record (\<open>ON DELETE CASCADE\<close>).\<close>

definition delete_record_stmt :: "uuid \<Rightarrow> uuid \<Rightarrow> nat stmt" where
  "delete_record_stmt tid rid now d =
     (let hit = (\<lambda>a. a_id a = rid \<and> a_template a = tid); n = count_where hit (records d)
      in Inr (n, if n = 0 then d
                 else d\<lparr>records := delete_where hit (records d), files := delete_where (\<lambda>f. f_record f = rid) (files d)\<rparr>))"

definition delete_archive_record_by_id :: "uuid \<Rightarrow> uuid \<Rightarrow> (world, app_error, string list) prog" where
  "delete_archive_record_by_id tid rid =
     and_then (unexpected (select (\<lambda>_ d. map f_key (filter (\<lambda>f. f_record f = rid) (files d))))) (\<lambda>keys.
     and_then (unexpected (sql (delete_record_stmt tid rid))) (\<lambda>n.
     if n = 0 then throw (DataNotFound ''the archive record does not exist'') else return keys))"

definition delete_files_by_object_keys :: "string list \<Rightarrow> (world, app_error, unit) prog" where
  "delete_files_by_object_keys keys =
     (if keys = [] then return ()
      else attempt (delete_objects keys) (\<lambda>r. case r of
          Inr _ \<Rightarrow> return ()
        | Inl _ \<Rightarrow> attempt (submit (DeleteArchiveObjects keys)) (\<lambda>_. return ())))"

definition delete_archive_record_handler :: "uuid \<Rightarrow> uuid \<Rightarrow> (world, app_error, unit app_response) prog" where
  "delete_archive_record_handler tid rid =
     and_then (unexpected tx_begin) (\<lambda>snap.
     and_then (or_drop snap (delete_archive_record_by_id tid rid)) (\<lambda>keys.
     and_then (unexpected (tx_commit snap)) (\<lambda>_.
     and_then (delete_files_by_object_keys keys) (\<lambda>_.
     return (resp_ok_msg ''archive record deleted'')))))"

section \<open>What the files of a record add\<close>

text \<open>The file ids a field of the data names, as the creation reads them.\<close>

definition field_ids :: "externs \<Rightarrow> json \<Rightarrow> string \<times> file_config \<Rightarrow> uuid list" where
  "field_ids X v fc =
     (case fc of (f, c) \<Rightarrow>
        if quota c = 1 then (case try_parse_file_id X (get v f) of None \<Rightarrow> [] | Some i \<Rightarrow> [i])
        else (case get v f of
                Some (JArr arr) \<Rightarrow> (case parse_file_ids X arr of None \<Rightarrow> [] | Some fids \<Rightarrow> fids)
              | _ \<Rightarrow> []))"

text \<open>The row of a stored file: it belongs to the record and its object is in the bucket.\<close>

definition file_stored :: "externs \<Rightarrow> uuid \<Rightarrow> uuid \<Rightarrow> string set \<Rightarrow> file_row \<Rightarrow> bool" where
  "file_stored X rid uid keys f \<longleftrightarrow>
     f_record f = rid \<and> f_by f = Some uid \<and> f_key f = build_archive_dest_key X rid (f_id f) \<and> f_key f \<in> keys"

lemma file_stored_mono: "file_stored X rid uid ks f \<Longrightarrow> ks \<subseteq> ks' \<Longrightarrow> file_stored X rid uid ks' f"
  by (auto simp: file_stored_def)

text \<open>
  \<open>adds X rid uid fids w r w'\<close>: from \<open>w\<close> to \<open>w'\<close> file rows of the record were appended, all of them for
  the fids \<open>fids\<close> when \<open>r\<close> is no error, and objects were copied to keys of these fids only.
\<close>

definition adds :: "externs \<Rightarrow> uuid \<Rightarrow> uuid \<Rightarrow> uuid list \<Rightarrow> world \<Rightarrow> (app_error, unit) result \<Rightarrow> world \<Rightarrow> bool" where
  "adds X rid uid fids w r w' \<longleftrightarrow>
     (\<exists>fs. db w' = (db w)\<lparr>files := files (db w) @ fs\<rparr>
         \<and> (\<forall>f\<in>set fs. file_stored X rid uid (stored_keys w') f)
         \<and> (\<forall>x. r = Ok x \<longrightarrow> map f_id fs = fids))
     \<and> stored_keys w \<subseteq> stored_keys w'
     \<and> stored_keys w' \<subseteq> stored_keys w \<union> build_archive_dest_key X rid ` set fids
     \<and> (faults w = [] \<longrightarrow> faults w' = [])"

lemma adds_none:
  assumes "db w' = db w" and "bucket w' = bucket w" and "faults w = [] \<longrightarrow> faults w' = []"
    and "\<forall>x. r = Ok x \<longrightarrow> fids = []"
  shows "adds X rid uid fids w r w'"
  unfolding adds_def using assms by (auto simp: stored_keys_def intro: exI [of _ "[]"])

lemma adds_trans:
  assumes "adds X rid uid fids w (Ok ()) w1" and "adds X rid uid fids' w1 r w'"
  shows "adds X rid uid (fids @ fids') w r w'"
proof -
  obtain fs where fs: "db w1 = (db w)\<lparr>files := files (db w) @ fs\<rparr>" "map f_id fs = fids"
    and stored: "\<forall>f\<in>set fs. file_stored X rid uid (stored_keys w1) f"
    using assms(1) by (auto simp: adds_def)
  obtain fs' where fs': "db w' = (db w1)\<lparr>files := files (db w1) @ fs'\<rparr>" "\<forall>x. r = Ok x \<longrightarrow> map f_id fs' = fids'"
    and stored': "\<forall>f\<in>set fs'. file_stored X rid uid (stored_keys w') f"
    using assms(2) by (auto simp: adds_def)
  have "stored_keys w1 \<subseteq> stored_keys w'" using assms(2) by (simp add: adds_def)
  then have "\<forall>f\<in>set (fs @ fs'). file_stored X rid uid (stored_keys w') f"
    using stored stored' by (auto intro: file_stored_mono)
  moreover have "db w' = (db w)\<lparr>files := files (db w) @ (fs @ fs')\<rparr>" using fs(1) fs'(1) by simp
  moreover have "\<forall>x. r = Ok x \<longrightarrow> map f_id (fs @ fs') = fids @ fids'" using fs(2) fs'(2) by simp
  moreover have "stored_keys w \<subseteq> stored_keys w'"
    and "stored_keys w' \<subseteq> stored_keys w \<union> build_archive_dest_key X rid ` set (fids @ fids')"
    and "faults w = [] \<longrightarrow> faults w' = []"
    using assms unfolding adds_def set_append image_Un by blast+
  ultimately show ?thesis unfolding adds_def by blast
qed

lemma adds_stopped: "adds X rid uid fids w (Err e) w' \<Longrightarrow> adds X rid uid (fids @ fids') w (Err e) w'"
  unfolding adds_def set_append image_Un by (simp only: result.distinct simp_thms) blast

lemma adds_for_each:
  assumes "\<And>x w r w'. g x w = (r, w') \<Longrightarrow> r \<noteq> Panic \<and> adds X rid uid (h x) w r w'"
    and "for_each g xs w = (r, w')"
  shows "r \<noteq> Panic \<and> adds X rid uid (concat (map h xs)) w r w'"
  using assms(2)
proof (induction xs arbitrary: w)
  case Nil
  then show ?case by (auto intro: adds_none)
next
  case (Cons x xs)
  obtain r1 w1 where step: "g x w = (r1, w1)" by (cases "g x w")
  from assms(1) [OF step] show ?case
    using Cons step by (cases r1) (auto simp: and_then_def intro: adds_trans adds_stopped)
qed

subsection \<open>One file\<close>

lemma next_fault_cases:
  obtains f fs where "next_fault w = (f, w\<lparr>faults := fs\<rparr>)" and "faults w = [] \<longrightarrow> fs = [] \<and> f = NoFault"
proof -
  obtain f w1 where nf: "next_fault w = (f, w1)" by (cases "next_fault w")
  have "faults w = [] \<longrightarrow> faults w1 = [] \<and> f = NoFault" using nf by (auto simp: next_fault_def split: list.splits)
  with nf next_fault_world [OF nf] show thesis by (intro that [of f "faults w1"]) simp_all
qed

lemma head_cases:
  obtains (err) e fs where "get_head_object_output key w = (Err e, w\<lparr>faults := fs\<rparr>)" "faults w = [] \<longrightarrow> fs = []"
  | (ok) ob fs where "get_head_object_output key w = (Ok ob, w\<lparr>faults := fs\<rparr>)" "faults w = [] \<longrightarrow> fs = []"
      "map_of (bucket w) key = Some ob"
proof -
  obtain f w1 where nf: "next_fault w = (f, w1)" by (cases "next_fault w")
  have w1: "w1 = w\<lparr>faults := faults w1\<rparr>" by (rule next_fault_world [OF nf])
  have none: "faults w = [] \<longrightarrow> faults w1 = []" using nf by (auto simp: next_fault_def split: list.splits)
  have bucket: "bucket w1 = bucket w" using next_fault_fields(3) [of w] nf by simp
  show thesis
  proof (cases "\<exists>ob. get_head_object_output key w = (Ok ob, w1)")
    case True
    then obtain ob where run: "get_head_object_output key w = (Ok ob, w1)" by blast
    then have "map_of (bucket w) key = Some ob"
      using nf bucket by (auto simp: get_head_object_output_def split: fault.splits option.splits)
    with ok [of ob "faults w1"] run none w1 show thesis by metis
  next
    case False
    then have "\<exists>e. get_head_object_output key w = (Err e, w1)"
      using nf by (auto simp: get_head_object_output_def split: fault.splits option.splits)
    then show thesis using err [of _ "faults w1"] none w1 by metis
  qed
qed

lemma copy_cases:
  obtains (err) e fs where "copy_source_to_dest src dest w = (Err e, w\<lparr>faults := fs\<rparr>)" "faults w = [] \<longrightarrow> fs = []"
  | (ok) ob fs where "copy_source_to_dest src dest w = (Ok (), w\<lparr>faults := fs, bucket := AList.update dest ob (bucket w)\<rparr>)"
      "faults w = [] \<longrightarrow> fs = []"
proof -
  obtain f w1 where nf: "next_fault w = (f, w1)" by (cases "next_fault w")
  have w1: "w1 = w\<lparr>faults := faults w1\<rparr>" by (rule next_fault_world [OF nf])
  have none: "faults w = [] \<longrightarrow> faults w1 = []" using nf by (auto simp: next_fault_def split: list.splits)
  have bucket: "bucket w1 = bucket w" using next_fault_fields(3) [of w] nf by simp
  show thesis
  proof (cases "\<exists>ob. copy_source_to_dest src dest w = (Ok (), w1\<lparr>bucket := AList.update dest ob (bucket w)\<rparr>)")
    case True
    then show thesis using ok [of _ "faults w1"] none w1 by (metis world.update_convs(3) world.surjective)
  next
    case False
    then have "\<exists>e. copy_source_to_dest src dest w = (Err e, w1)"
      using nf bucket by (fastforce simp: copy_source_to_dest_def split: fault.splits option.splits)
    then show thesis using err [of _ "faults w1"] none w1 by metis
  qed
qed

lemma sql_cases:
  obtains (err) e fs where "sql st w = (Err e, w\<lparr>faults := fs\<rparr>)" "faults w = [] \<longrightarrow> fs = []"
  | (ok) x d fs where "sql st w = (Ok x, w\<lparr>faults := fs, db := d\<rparr>)" "st (clock w) (db w) = Inr (x, d)"
      "faults w = [] \<longrightarrow> fs = []"
proof -
  obtain ft fs where nf: "next_fault w = (ft, w\<lparr>faults := fs\<rparr>)" and none: "faults w = [] \<longrightarrow> fs = [] \<and> ft = NoFault"
    by (rule next_fault_cases)
  then have none': "faults w = [] \<longrightarrow> fs = []" by blast
  note step = sql_def nf
  show thesis
  proof (cases "ft = NoFault")
    case False
    then have "sql st w = (Err (DbErr None), w\<lparr>faults := fs\<rparr>)" by (simp add: step)
    then show thesis using none' by (rule err)
  next
    case True
    show thesis
    proof (cases "st (clock w) (db w)")
      case (Inl c)
      with True have "sql st w = (Err (DbErr (Some c)), w\<lparr>faults := fs\<rparr>)" by (simp add: step)
      then show thesis using none' by (rule err)
    next
      case (Inr z)
      obtain x d where z: "z = (x, d)" by (cases z)
      with True Inr have "sql st w = (Ok x, w\<lparr>faults := fs, db := d\<rparr>)" by (simp add: step)
      then show thesis using Inr [unfolded z] none' by (rule ok)
    qed
  qed
qed

lemma statement_cases:
  obtains (err) e fs where "unexpected (sql st) w = (Err e, w\<lparr>faults := fs\<rparr>)" "faults w = [] \<longrightarrow> fs = []"
  | (ok) x d fs where "unexpected (sql st) w = (Ok x, w\<lparr>faults := fs, db := d\<rparr>)" "st (clock w) (db w) = Inr (x, d)"
      "faults w = [] \<longrightarrow> fs = []"
proof (cases rule: sql_cases [of st w])
  case (err e fs)
  then show thesis by (intro that(1) [of _ fs]) (simp_all add: unexpected_def map_err_def)
next
  case (ok x d fs)
  then show thesis by (intro that(2) [of x d fs]) (simp_all add: unexpected_def map_err_def)
qed

lemma insert_file_Inr:
  assumes "insert_file rid fid key md uid now d = Inr (x, d')"
  obtains f where "d' = d\<lparr>files := files d @ [f]\<rparr>" "f_id f = fid" "f_record f = rid" "f_key f = key" "f_by f = Some uid"
  using assms by (auto simp: insert_file_def split: if_splits)

lemma adds_copy:
  assumes "db w' = db w" and "bucket w' = AList.update (build_archive_dest_key X rid fid) ob (bucket w)"
    and "faults w = [] \<longrightarrow> faults w' = []"
  shows "adds X rid uid [fid] w (Err e) w'"
proof -
  have "stored_keys w' = insert (build_archive_dest_key X rid fid) (stored_keys w)"
    by (simp add: stored_keys_def assms(2) dom_update)
  with assms show ?thesis by (auto simp: adds_def intro!: exI [of _ "[]"])
qed

lemma adds_file:
  assumes "db w' = (db w)\<lparr>files := files (db w) @ [f]\<rparr>" and "bucket w' = AList.update (f_key f) ob (bucket w)"
    and "f_record f = rid" "f_key f = build_archive_dest_key X rid (f_id f)" "f_by f = Some uid"
    and "faults w = [] \<longrightarrow> faults w' = []"
  shows "adds X rid uid [f_id f] w (Ok ()) w'"
proof -
  have "stored_keys w' = insert (f_key f) (stored_keys w)"
    by (simp add: stored_keys_def assms(2) dom_update)
  moreover from this have "\<forall>g\<in>set [f]. file_stored X rid uid (stored_keys w') g"
    by (simp add: file_stored_def assms(3-5))
  moreover have "\<forall>x. Ok () = Ok x \<longrightarrow> map f_id [f] = [f_id f]" by simp
  ultimately show ?thesis using assms(1,4,6) unfolding adds_def by (intro conjI exI [of _ "[f]"]) auto
qed

lemma process_single_file_adds:
  assumes run: "process_single_file X sid uid fid rid w = (r, w')"
  shows "r \<noteq> Panic \<and> adds X rid uid [fid] w r w'"
proof -
  let ?src = "build_temp_object_key X sid fid" and ?dest = "build_archive_dest_key X rid fid"
  note step = process_single_file_def Let_def get_file_metadata_def attempt_def and_then_def throw_def
    lift_result_def move_temp_file_to_save_def
  show ?thesis
  proof (cases rule: head_cases [of ?src w])
    case (err e fs)
    with run have "\<exists>e'. r = Err e'" and "w' = w\<lparr>faults := fs\<rparr>" by (auto simp: step split: head_error.splits)
    with err(2) show ?thesis by (auto intro!: adds_none)
  next
    case (ok ob fs)
    let ?w1 = "w\<lparr>faults := fs\<rparr>"
    show ?thesis
    proof (cases "try_from_head X ob")
      case Panic
      then show ?thesis by (simp add: try_from_head_def split: option.splits)
    next
      case (Err e)
      with run ok(1) have "r = Err (UnexpectedError e)" and "w' = ?w1" by (simp_all add: step)
      with ok(2) show ?thesis by (auto intro!: adds_none)
    next
      case (Ok md)
      show ?thesis
      proof (cases rule: copy_cases [of ?src ?dest ?w1])
        case (err e fs')
        with run ok(1) Ok have "r = Err (UnexpectedError e)" and "w' = ?w1\<lparr>faults := fs'\<rparr>"
          by (simp_all add: step unexpected_def map_err_def)
        with ok(2) err(2) show ?thesis by (auto intro!: adds_none)
      next
        case copied: (ok ob' fs')
        let ?w2 = "?w1\<lparr>faults := fs', bucket := AList.update ?dest ob' (bucket ?w1)\<rparr>"
        have saved: "save_file_metadata rid fid ?dest md uid ?w2 = (r, w')"
          using run ok(1) Ok copied(1) by (simp add: step unexpected_def map_err_def)
        show ?thesis
        proof (cases rule: statement_cases [of "insert_file rid fid ?dest md uid" ?w2])
          case (err e fs'')
          with saved have "r = Err e" and "w' = ?w2\<lparr>faults := fs''\<rparr>" by (simp_all add: save_file_metadata_def)
          with ok(2) copied(2) err(2) show ?thesis by (auto intro!: adds_copy [where ob = ob'])
        next
          case inserted: (ok x d fs'')
          obtain f where f: "d = (db ?w2)\<lparr>files := files (db ?w2) @ [f]\<rparr>"
            "f_id f = fid" "f_record f = rid" "f_key f = ?dest" "f_by f = Some uid"
            using insert_file_Inr [OF inserted(2)] by metis
          from saved inserted(1) have "r = Ok ()" and w': "w' = ?w2\<lparr>faults := fs'', db := d\<rparr>"
            by (simp_all add: save_file_metadata_def)
          moreover have "adds X rid uid [f_id f] w (Ok ()) w'"
            by (rule adds_file [where ob = ob']) (use f w' ok(2) copied(2) inserted(3) in auto)
          ultimately show ?thesis using f(2) by simp
        qed
      qed
    qed
  qed
qed

lemma create_field_files_adds:
  assumes run: "create_field_files X rid sid uid v fc w = (r, w')"
  shows "r \<noteq> Panic \<and> adds X rid uid (field_ids X v fc) w r w'"
proof -
  obtain f c where fc: "fc = (f, c)" by (cases fc)
  have req: "r \<noteq> Panic \<and> adds X rid uid [] w r w'" if "check_required None (required c) f w = (r, w')"
    using that by (auto simp: check_required_def throw_def return_def intro: adds_none split: if_splits)
  have bad: "r \<noteq> Panic \<and> adds X rid uid g w r w'" if "throw e w = (r, w')" for e g
    using that by (auto simp: throw_def intro: adds_none)
  show ?thesis
  proof (cases "quota c = 1")
    case True
    with run fc req process_single_file_adds show ?thesis
      by (auto simp: create_field_files_def field_ids_def split: option.splits)
  next
    case False
    show ?thesis
    proof (cases "\<exists>arr fids. get v f = Some (JArr arr) \<and> parse_file_ids X arr = Some fids")
      case False
      with \<open>quota c \<noteq> 1\<close> run fc req bad show ?thesis
        by (auto simp: create_field_files_def field_ids_def split: option.splits json.splits)
    next
      case True
      then obtain arr fids where arr: "get v f = Some (JArr arr)" "parse_file_ids X arr = Some fids" by blast
      have each: "r \<noteq> Panic \<and> adds X rid uid fids w r w'"
        if "for_each (\<lambda>fid. process_single_file X sid uid fid rid) fids w = (r, w')"
        using adds_for_each [of _ X rid uid "\<lambda>i. [i]", OF process_single_file_adds that] by simp
      from \<open>quota c \<noteq> 1\<close> run fc arr bad each show ?thesis
        by (auto simp: create_field_files_def field_ids_def split: if_splits)
    qed
  qed
qed

lemma create_files_record_adds:
  "create_files_record X rid cfgs sid uid v w = (r, w') \<Longrightarrow>
     r \<noteq> Panic \<and> adds X rid uid (concat (map (field_ids X v) cfgs)) w r w'"
  unfolding create_files_record_def by (rule adds_for_each [OF create_field_files_adds])

lemma for_each_OkD:
  "for_each g xs w = (Ok u, w') \<Longrightarrow> x \<in> set xs \<Longrightarrow> \<exists>w1 w2. g x w1 = (Ok (), w2)"
proof (induction xs arbitrary: w)
  case (Cons y ys)
  then have "and_then (g y) (\<lambda>_. for_each g ys) w = (Ok u, w')" by simp
  then obtain z w1 where "g y w = (Ok z, w1)" "for_each g ys w1 = (Ok u, w')" by (rule and_then_OkE)
  with Cons show ?case by auto
qed simp

lemma create_field_files_required:
  "create_field_files X rid sid uid v (f, c) w = (Ok u, w') \<Longrightarrow> required c \<Longrightarrow> field_ids X v (f, c) \<noteq> []"
  by (auto simp: create_field_files_def field_ids_def check_required_def throw_def
      split: if_splits option.splits json.splits)

lemma create_files_record_required:
  "create_files_record X rid cfgs sid uid v w = (Ok u, w') \<Longrightarrow> (f, c) \<in> set cfgs \<Longrightarrow> required c \<Longrightarrow>
     field_ids X v (f, c) \<noteq> []"
  unfolding create_files_record_def by (drule for_each_OkD; fastforce dest: create_field_files_required)

text \<open>Every object a creation may copy is among the keys it prepares for deletion.\<close>

lemma set_push_unique: "set (push_unique seen fids) = set seen \<union> set fids"
  by (induction seen fids rule: push_unique.induct) auto

lemma parse_file_ids_filter: "parse_file_ids X vs = Some fids \<Longrightarrow> List.map_filter (\<lambda>x. try_parse_file_id X (Some x)) vs = fids"
  by (induction X vs arbitrary: fids rule: parse_file_ids.induct) (auto split: option.splits)

lemma field_ids_sub: "set (field_ids X v (f, c)) \<subseteq> set (field_file_ids X v f)"
proof (cases "\<exists>arr. get v f = Some (JArr arr)")
  case True
  then obtain arr where arr: "get v f = Some (JArr arr)" by blast
  then have "try_parse_file_id X (get v f) = None" by (simp add: try_parse_file_id_def as_str_def)
  with arr show ?thesis
    by (cases "parse_file_ids X arr") (simp_all add: field_ids_def field_file_ids_def parse_file_ids_filter)
next
  case False
  then have "field_ids X v (f, c) = (if quota c = 1 then case try_parse_file_id X (get v f) of None \<Rightarrow> [] | Some i \<Rightarrow> [i] else [])"
    by (cases "get v f"; cases "the (get v f)") (simp_all add: field_ids_def)
  moreover have "set (case try_parse_file_id X (get v f) of None \<Rightarrow> [] | Some i \<Rightarrow> [i]) \<subseteq> set (field_file_ids X v f)"
  proof (cases "get v f")
    case None
    then show ?thesis by (simp add: try_parse_file_id_def)
  next
    case (Some x)
    show ?thesis
    proof (cases "as_str x")
      case None
      with Some show ?thesis by (simp add: try_parse_file_id_def)
    next
      case str: (Some s)
      then have "x = JStr s" by (cases x) (simp_all add: as_str_def)
      with Some show ?thesis by (simp add: field_file_ids_def)
    qed
  qed
  ultimately show ?thesis by (cases "quota c = 1") (simp_all only: if_True if_False list.set(1) empty_subsetI simp_thms)
qed

lemma copied_keys_expected:
  "build_archive_dest_key X rid ` set (concat (map (field_ids X v) cfgs)) \<subseteq> set (collect_archive_object_keys_from_data X rid cfgs v)"
proof -
  have "set (concat (map (field_ids X v) cfgs)) \<subseteq> set (concat (map (\<lambda>(f, _). field_file_ids X v f) cfgs))"
    using field_ids_sub by (fastforce simp: set_concat)
  then show ?thesis
    unfolding collect_archive_object_keys_from_data_def set_map set_push_unique by (intro image_mono) simp
qed

subsection \<open>The transaction\<close>

text \<open>The tables apart from the outbox are the same.\<close>

definition same_tables :: "database \<Rightarrow> database \<Rightarrow> bool" where
  "same_tables d d' \<longleftrightarrow> users d' = users d \<and> rules d' = rules d \<and> templates d' = templates d
     \<and> records d' = records d \<and> files d' = files d"

lemma same_tables_refl [simp]: "same_tables d d"
  by (simp add: same_tables_def)

lemma same_tables_stable: "db_stable (same_tables d)"
  by (auto simp: db_stable_def same_tables_def insert_outbox_def)

lemma submit_bucket: "bucket (snd (submit c w)) = bucket w"
proof (cases rule: sql_cases [of "insert_outbox c" w])
  case (err e fs)
  then show ?thesis by (simp add: submit_def and_then_def)
next
  case (ok i d fs)
  let ?w1 = "w\<lparr>faults := fs, db := d\<rparr>"
  obtain r w' where run: "try_enqueue_outbox_task i c ?w1 = ((r :: (anyhow, unit) result), w')" by (metis surj_pair)
  have I: "frame_inv (\<lambda>v. bucket v = bucket w)" by (auto simp: frame_inv_def fault_free_inv_def)
  from run have "bucket w' = bucket w"
  proof (cases rule: try_enqueue_cases)
    case (full a b)
    then show ?thesis by simp
  next
    case (unclaimed r1)
    show ?thesis using keepsE [OF frame_mark_running [OF I] unclaimed(1)] by simp
  next
    case (sent w1)
    show ?thesis using keepsE [OF frame_mark_running [OF I] sent(1)] sent(2) by simp
  qed
  with ok run show ?thesis by (simp add: submit_def and_then_def)
qed

lemma sql_no_panic: "sql st w \<noteq> (Panic, w')"
  by (cases rule: sql_cases [of st w]) simp_all

lemma submit_no_panic: "submit c w \<noteq> (Panic, w')"
proof -
  have "try_enqueue_outbox_task i c v \<noteq> ((Panic :: (anyhow, unit) result), w')" for i v
    using sql_no_panic [of _ v w']
    by (auto simp: try_enqueue_outbox_task_def attempt_def try_reserve_slot_def modify_def permit_send_def return_def
        mark_running_def split: result.splits prod.splits if_splits)
  then show ?thesis
    using sql_no_panic [of _ w w'] by (auto simp: submit_def and_then_def split: result.splits prod.splits)
qed

lemma submit_tables: "same_tables d (db w) \<Longrightarrow> same_tables d (db (snd (submit c w)))"
  using keepsD [OF stable_submit [OF same_tables_stable]] .

text \<open>How many of the coming calls fail.\<close>

definition bad_calls :: "world \<Rightarrow> nat" where
  "bad_calls w = length (filter (\<lambda>f. f \<noteq> NoFault) (faults w))"

lemma bad_calls_next: "next_fault w = (f, w') \<Longrightarrow> bad_calls w = bad_calls w' + (if f = NoFault then 0 else 1)"
  by (auto simp: next_fault_def bad_calls_def split: list.splits)

lemma bad_calls_db [simp]: "bad_calls (w\<lparr>db := d\<rparr>) = bad_calls w" "bad_calls (w\<lparr>bucket := b\<rparr>) = bad_calls w"
  by (simp_all add: bad_calls_def)

lemma submit_stored:
  assumes "bad_calls w = 0"
  shows "\<exists>i. stored_command i c (db (snd (submit c w)))"
proof -
  obtain ft fs where nf: "next_fault w = (ft, w\<lparr>faults := fs\<rparr>)" by (rule next_fault_cases)
  from bad_calls_next [OF nf] assms have "ft = NoFault" by (simp split: if_splits)
  then have ins: "sql (insert_outbox c) w =
      (Ok (next_outbox_id (db w)), w\<lparr>faults := fs, db := snd (projr (insert_outbox c (clock w) (db w)))\<rparr>)"
    using nf by (simp add: sql_def insert_outbox_def)
  let ?w1 = "w\<lparr>faults := fs, db := snd (projr (insert_outbox c (clock w) (db w)))\<rparr>" and ?i = "next_outbox_id (db w)"
  have "stored_command ?i c (db ?w1)"
    by (simp add: insert_outbox_def stored_command_def)
  then have "stored_command ?i c (db (snd ((try_enqueue_outbox_task ?i c :: (world, anyhow, unit) prog) ?w1)))"
    by (rule keepsD [OF stable_try_enqueue [OF stored_stable]])
  then show ?thesis by (auto simp: submit_def and_then_def ins)
qed

lemma session_check_frame:
  assumes "check_upload_session_exists X sid w = (r, w')"
  shows "r \<noteq> Panic \<and> db w' = db w \<and> bucket w' = bucket w \<and> (faults w = [] \<longrightarrow> faults w' = [])"
proof -
  obtain ft fs where nf: "next_fault w = (ft, w\<lparr>faults := fs\<rparr>)" and none: "faults w = [] \<longrightarrow> fs = [] \<and> ft = NoFault"
    by (rule next_fault_cases)
  show ?thesis
    using assms none
    by (auto simp: check_upload_session_exists_def redis_exists_def redis_call_def nf unexpected_def map_err_def
        and_then_def throw_def return_def split: if_splits)
qed

lemma copy_files_adds:
  assumes run: "copy_files X rd cfgs sid uid v w = (r, w')"
  shows "r \<noteq> Panic \<and> adds X (rd_id rd) uid (concat (map (field_ids X v) cfgs)) w r w'
    \<and> (r = Ok () \<longrightarrow> (\<forall>(f, c)\<in>set cfgs. required c \<longrightarrow> field_ids X v (f, c) \<noteq> []))"
proof -
  obtain r1 w1 where check: "check_upload_session_exists X sid w = (r1, w1)" by (metis surj_pair)
  note frame = session_check_frame [OF check]
  show ?thesis
  proof (cases r1)
    case (Ok u)
    with run check have files: "create_files_record X (rd_id rd) cfgs sid uid v w1 = (r, w')"
      by (simp add: copy_files_def and_then_def)
    have "adds X (rd_id rd) uid [] w (Ok ()) w1" by (rule adds_none) (use frame in simp_all)
    from adds_trans [OF this] create_files_record_adds [OF files] create_files_record_required [of X "rd_id rd" cfgs sid uid v w1]
      files show ?thesis by fastforce
  next
    case (Err e)
    with run check frame show ?thesis by (auto simp: copy_files_def and_then_def intro!: adds_none)
  next
    case Panic
    with frame show ?thesis by simp
  qed
qed

definition cleanup_stored :: "string set \<Rightarrow> database \<Rightarrow> bool" where
  "cleanup_stored new d \<longleftrightarrow> new = {} \<or> (\<exists>i ks. stored_command i (DeleteArchiveObjects ks) d \<and> new \<subseteq> set ks)"

lemma submit_cleanup_frame:
  assumes "submit_cleanup ks w = (r, w')"
  shows "r = Ok ()" and "bucket w' = bucket w" and "same_tables d (db w) \<Longrightarrow> same_tables d (db w')"
    and "faults w = [] \<Longrightarrow> new \<subseteq> set ks \<Longrightarrow> cleanup_stored new (db w')"
proof -
  have w': "w' = (if ks = [] then w else snd (submit (DeleteArchiveObjects ks) w))"
    using assms by (auto simp: submit_cleanup_def attempt_def return_def split: prod.splits result.splits if_splits)
  show "r = Ok ()"
    using assms submit_no_panic by (auto simp: submit_cleanup_def attempt_def return_def split: prod.splits result.splits if_splits)
  show "bucket w' = bucket w" by (simp add: w' submit_bucket)
  show "same_tables d (db w')" if "same_tables d (db w)" using that by (simp add: w' submit_tables)
  show "cleanup_stored new (db w')" if "faults w = []" and "new \<subseteq> set ks"
    using submit_stored [of w "DeleteArchiveObjects ks"] that by (auto simp: w' cleanup_stored_def bad_calls_def)
qed

lemma copy_or_roll_back_result:
  assumes run: "copy_or_roll_back X snap rd cfgs sid uid v w = (r, w')"
  shows "(r = Ok () \<and> adds X (rd_id rd) uid (concat (map (field_ids X v) cfgs)) w r w'
          \<and> (\<forall>(f, c)\<in>set cfgs. required c \<longrightarrow> field_ids X v (f, c) \<noteq> []))
    \<or> (r \<noteq> Ok () \<and> same_tables snap (db w') \<and> stored_keys w \<subseteq> stored_keys w'
          \<and> (faults w = [] \<longrightarrow> cleanup_stored (stored_keys w' - stored_keys w) (db w')))"
proof -
  let ?expected = "collect_archive_object_keys_from_data X (rd_id rd) cfgs v"
  obtain r1 w1 where copy: "copy_files X rd cfgs sid uid v w = (r1, w1)" by (metis surj_pair)
  note added = copy_files_adds [OF copy]
  show ?thesis
  proof (cases r1)
    case (Ok u)
    with run copy have "r = Ok ()" "w' = w1" by (simp_all add: copy_or_roll_back_def attempt_def return_def)
    with added Ok show ?thesis by simp
  next
    case Panic
    with added show ?thesis by simp
  next
    case (Err e)
    obtain ft fs where nf: "next_fault w1 = (ft, w1\<lparr>faults := fs\<rparr>)" and none: "faults w1 = [] \<longrightarrow> fs = [] \<and> ft = NoFault"
      by (rule next_fault_cases)
    let ?w2 = "w1\<lparr>faults := fs, db := snap\<rparr>"
    obtain r3 w3 where clean: "submit_cleanup ?expected ?w2 = (r3, w3)" by (metis surj_pair)
    note C = submit_cleanup_frame [OF clean]
    have "w' = w3" and "r \<noteq> Ok ()"
      using run copy Err nf clean C(1)
      by (auto simp: copy_or_roll_back_def Let_def attempt_def tx_rollback_def and_then_def throw_def)
    moreover have "stored_keys w3 = stored_keys w1" using C(2) by (simp add: stored_keys_def)
    moreover have "same_tables snap (db w3)" using C(3) by simp
    moreover have sub: "stored_keys w1 - stored_keys w \<subseteq> set ?expected" and "stored_keys w \<subseteq> stored_keys w1"
      using added copied_keys_expected [of X "rd_id rd" v cfgs] unfolding adds_def by blast+
    moreover have "cleanup_stored (stored_keys w1 - stored_keys w) (db w3)" if "faults w = []"
    proof (rule C(4))
      from that added have "faults w1 = []" by (simp add: adds_def)
      with none show "faults ?w2 = []" by simp
    qed (rule sub)
    ultimately show ?thesis by simp
  qed
qed

text \<open>What a record and its files look like once they are stored.\<close>

definition record_created :: "externs \<Rightarrow> create_record_request \<Rightarrow> uuid \<Rightarrow> uuid \<Rightarrow> (file_configs \<times> uuid) option \<Rightarrow>
    world \<Rightarrow> world \<Rightarrow> archive_row \<Rightarrow> bool" where
  "record_created X req tid uid fs w w' a \<longleftrightarrow>
     (\<exists>fls. db w' = (db w)\<lparr>records := records (db w) @ [a], files := files (db w) @ fls\<rparr>
        \<and> (\<forall>f\<in>set fls. file_stored X (a_id a) uid (stored_keys w') f)
        \<and> stored_keys w' \<subseteq> stored_keys w \<union> f_key ` set fls
        \<and> map f_id fls = (case fs of None \<Rightarrow> [] | Some (cfgs, _) \<Rightarrow> concat (map (field_ids X (cr_data req)) cfgs)))
     \<and> a_template a = tid \<and> a_data a = cr_data req \<and> a_by a = Some uid
     \<and> (case fs of None \<Rightarrow> True | Some (cfgs, _) \<Rightarrow>
          (\<forall>(f, c)\<in>set cfgs. required c \<longrightarrow> field_ids X (cr_data req) (f, c) \<noteq> []))"

lemma insert_record_Inr:
  assumes "insert_record fresh v tid uid now d = Inr (a, d')"
  shows "d' = d\<lparr>records := records d @ [a]\<rparr> \<and> a_template a = tid \<and> a_data a = v \<and> a_by a = Some uid"
  using assms by (auto simp: insert_record_def Let_def split: if_splits)

lemma create_archive_record_cases:
  obtains (err) e w1 where "create_archive_record req tid uid w = (Err e, w1)" "db w1 = db w" "bucket w1 = bucket w"
  | (ok) a w1 where "create_archive_record req tid uid w = (Ok (record_to_dto a), w1)"
      "db w1 = (db w)\<lparr>records := records (db w) @ [a]\<rparr>" "bucket w1 = bucket w" "faults w = [] \<longrightarrow> faults w1 = []"
      "a_template a = tid" "a_data a = cr_data req" "a_by a = Some uid"
proof -
  let ?w0 = "w\<lparr>drawn := Suc (drawn w)\<rparr>"
  note step = create_archive_record_def new_uuid_def and_then_def map_err_def return_def
  show thesis
  proof (cases rule: sql_cases [of "insert_record (fresh_uuids w (drawn w)) (cr_data req) tid uid" ?w0])
    case e: (err e fs)
    then show thesis by (intro err [of _ "?w0\<lparr>faults := fs\<rparr>"]) (simp_all add: step)
  next
    case o: (ok a d fs)
    note row = insert_record_Inr [OF o(2)]
    with o show thesis by (intro ok [of a "?w0\<lparr>faults := fs, db := d\<rparr>"]) (simp_all add: step)
  qed
qed

text \<open>An answer is no success, or a stored record; in both cases no object is lost.\<close>

definition creation_outcome :: "externs \<Rightarrow> create_record_request \<Rightarrow> uuid \<Rightarrow> uuid \<Rightarrow> (file_configs \<times> uuid) option \<Rightarrow>
    world \<Rightarrow> (app_error, record_dto) result \<Rightarrow> world \<Rightarrow> bool" where
  "creation_outcome X req tid uid fs w r w' \<longleftrightarrow> stored_keys w \<subseteq> stored_keys w'
     \<and> ((\<exists>a. r = Ok (record_to_dto a) \<and> record_created X req tid uid fs w w' a)
        \<or> (\<forall>x. r \<noteq> Ok x) \<and> same_tables (db w) (db w')
             \<and> (faults w = [] \<longrightarrow> cleanup_stored (stored_keys w' - stored_keys w) (db w')))"

lemma creation_failed:
  assumes "\<forall>x. r \<noteq> Ok x" and "db w' = db w" and "bucket w' = bucket w"
  shows "creation_outcome X req tid uid fs w r w'"
  using assms by (simp add: creation_outcome_def stored_keys_def cleanup_stored_def)

lemma commit_result:
  assumes run: "and_then (unexpected (tx_commit snap)) (\<lambda>_. return rd) w = (r, w')"
  shows "bucket w' = bucket w \<and> (r = Ok rd \<and> db w' = db w \<or> (\<exists>e. r = Err e) \<and> db w' = snap \<and> faults w \<noteq> [])"
proof -
  obtain ft fs where nf: "next_fault w = (ft, w\<lparr>faults := fs\<rparr>)" and none: "faults w = [] \<longrightarrow> fs = [] \<and> ft = NoFault"
    by (rule next_fault_cases)
  then show ?thesis
    using run by (auto simp: tx_commit_def unexpected_def map_err_def and_then_def return_def split: if_splits)
qed

lemma create_in_transaction_outcome:
  assumes run: "create_in_transaction X req tid uid fs w = (r, w')"
  shows "creation_outcome X req tid uid fs w r w'"
proof (cases rule: statement_cases [of "\<lambda>_ d. Inr (d, d)" w])
  case (err e fs1)
  with run have "r = Err e" and "w' = w\<lparr>faults := fs1\<rparr>"
    by (simp_all add: create_in_transaction_def tx_begin_def select_def and_then_def)
  then show ?thesis by (intro creation_failed) simp_all
next
  case begun: (ok snap d fs1)
  let ?w1 = "w\<lparr>faults := fs1\<rparr>"
  have snap: "snap = db w" "d = db w" using begun(2) by auto
  have start: "unexpected tx_begin w = ((Ok (db w), ?w1) :: (app_error, database) result \<times> world)"
    using begun(1) by (simp add: tx_begin_def select_def snap)
  let ?files = "\<lambda>rd. case fs of None \<Rightarrow> return () | Some (cfgs, sid) \<Rightarrow> copy_or_roll_back X (db w) rd cfgs sid uid (cr_data req)"
  let ?finish = "\<lambda>rd. and_then (unexpected (tx_commit (db w))) (\<lambda>_. return rd)"
  note step = create_in_transaction_def and_then_def [of "unexpected tx_begin"] start
  show ?thesis
  proof (cases rule: create_archive_record_cases [of req tid uid ?w1])
    case (err e w2)
    with run have "r = Err e" and "w' = w2\<lparr>db := db w\<rparr>"
      by (simp_all add: step or_drop_def and_then_def [of "or_drop _ _"])
    with err show ?thesis by (intro creation_failed) simp_all
  next
    case (ok a w2)
    let ?rd = "record_to_dto a"
    have rest: "and_then (?files ?rd) (\<lambda>_. ?finish ?rd) w2 = (r, w')"
      using run ok(1) by (simp add: step or_drop_def and_then_def [of "or_drop _ _"])
    obtain r3 w3 where files: "?files ?rd w2 = (r3, w3)" by (metis surj_pair)
    have fl2: "faults w = [] \<longrightarrow> faults w2 = []" using begun(3) ok(4) by simp
    have keys2: "stored_keys w2 = stored_keys w" using ok(3) by (simp add: stored_keys_def)
    show ?thesis
    proof (cases "r3 = Ok ()")
      case False
      have rolled: "same_tables (db w) (db w3) \<and> stored_keys w2 \<subseteq> stored_keys w3
          \<and> (faults w2 = [] \<longrightarrow> cleanup_stored (stored_keys w3 - stored_keys w2) (db w3))"
        using False files copy_or_roll_back_result [of X "db w" ?rd _ _ uid "cr_data req" w2 r3 w3]
        by (cases fs) (auto simp: return_def)
      have "w' = w3" and "\<forall>x. r \<noteq> Ok x" using rest files False by (auto simp: and_then_def split: result.splits)
      with rolled fl2 keys2 show ?thesis by (auto simp: creation_outcome_def)
    next
      case True
      with rest files have commit: "?finish ?rd w3 = (r, w')" by (simp add: and_then_def [of "?files ?rd"])
      have "adds X (a_id a) uid (case fs of None \<Rightarrow> [] | Some (cfgs, _) \<Rightarrow> concat (map (field_ids X (cr_data req)) cfgs)) w2 (Ok ()) w3
          \<and> (case fs of None \<Rightarrow> True | Some (cfgs, _) \<Rightarrow>
              (\<forall>(f, c)\<in>set cfgs. required c \<longrightarrow> field_ids X (cr_data req) (f, c) \<noteq> []))"
      proof (cases fs)
        case None
        with files have "w3 = w2" by (simp add: return_def)
        with None show ?thesis by (simp add: adds_none)
      next
        case (Some p)
        obtain cfgs sid where p: "p = (cfgs, sid)" by (cases p)
        with Some files True have "copy_or_roll_back X (db w) ?rd cfgs sid uid (cr_data req) w2 = (Ok (), w3)" by simp
        from copy_or_roll_back_result [OF this] Some p show ?thesis
          by (simp add: record_to_dto_def)
      qed
      then obtain fls where fls: "db w3 = (db w2)\<lparr>files := files (db w2) @ fls\<rparr>"
        "\<forall>f\<in>set fls. file_stored X (a_id a) uid (stored_keys w3) f"
        "map f_id fls = (case fs of None \<Rightarrow> [] | Some (cfgs, _) \<Rightarrow> concat (map (field_ids X (cr_data req)) cfgs))"
        and keys: "stored_keys w2 \<subseteq> stored_keys w3" and fl3: "faults w2 = [] \<longrightarrow> faults w3 = []"
        and new: "stored_keys w3 \<subseteq> stored_keys w2 \<union> build_archive_dest_key X (a_id a) `
            set (case fs of None \<Rightarrow> [] | Some (cfgs, _) \<Rightarrow> concat (map (field_ids X (cr_data req)) cfgs))"
        and req: "case fs of None \<Rightarrow> True | Some (cfgs, _) \<Rightarrow>
              (\<forall>(f, c)\<in>set cfgs. required c \<longrightarrow> field_ids X (cr_data req) (f, c) \<noteq> [])"
        unfolding adds_def by blast
      have eq: "set (case fs of None \<Rightarrow> [] | Some (cfgs, _) \<Rightarrow> concat (map (field_ids X (cr_data req)) cfgs)) = f_id ` set fls"
        by (simp only: fls(3) [symmetric] set_map)
      have "build_archive_dest_key X (a_id a) ` f_id ` set fls \<subseteq> f_key ` set fls"
        using fls(2) by (force simp: file_stored_def)
      then have "stored_keys w \<union> build_archive_dest_key X (a_id a) ` f_id ` set fls \<subseteq> stored_keys w \<union> f_key ` set fls"
        by (rule Un_mono [OF subset_refl])
      with new [unfolded keys2 eq] have new': "stored_keys w3 \<subseteq> stored_keys w \<union> f_key ` set fls" by (rule order_trans)
      have same: "stored_keys w' = stored_keys w3" using commit_result [OF commit] by (simp add: stored_keys_def)
      from commit_result [OF commit] show ?thesis
      proof (elim conjE disjE)
        assume "r = Ok ?rd" and "db w' = db w3"
        moreover have "record_created X req tid uid fs w w' a"
          unfolding record_created_def
        proof (intro conjI exI [of _ fls])
          show "db w' = (db w)\<lparr>records := records (db w) @ [a], files := files (db w) @ fls\<rparr>"
            by (simp add: \<open>db w' = db w3\<close> fls(1) ok(2))
          show "stored_keys w' \<subseteq> stored_keys w \<union> f_key ` set fls" unfolding same by (rule new')
          show "\<forall>f\<in>set fls. file_stored X (a_id a) uid (stored_keys w') f" unfolding same by (rule fls(2))
        qed (rule fls(3) req ok(5-7))+
        ultimately show ?thesis using keys keys2 same by (auto simp: creation_outcome_def)
      next
        assume "\<exists>e. r = Err e" and "db w' = db w" and "faults w3 \<noteq> []"
        then show ?thesis using keys keys2 same fl2 fl3 by (auto simp: creation_outcome_def)
      qed
    qed
  qed
qed

section \<open>Steps that leave tables and objects alone\<close>

definition quiet :: "database \<Rightarrow> (string \<times> s3_object) list \<Rightarrow> bool \<Rightarrow> world \<Rightarrow> bool" where
  "quiet d b healthy w \<longleftrightarrow> db w = d \<and> bucket w = b \<and> (healthy \<longrightarrow> faults w = [])"

named_theorems quiet_rules \<open>programs that leave tables and objects alone\<close>

lemma quiet_select [quiet_rules]: "keeps (quiet d b h) (unexpected (select q))"
proof (rule keepsI)
  fix w assume I: "quiet d b h w"
  show "quiet d b h (snd (unexpected (select q) w))"
  proof (cases rule: statement_cases [of "\<lambda>now d. Inr (q now d, d)" w])
    case (err e fs)
    with I show ?thesis by (simp add: select_def quiet_def)
  next
    case (ok x d' fs)
    from ok(2) have "d' = db w" by simp
    with I ok show ?thesis by (simp add: select_def quiet_def)
  qed
qed

lemma quiet_redis [quiet_rules]: "keeps (quiet d b h) (unexpected (redis_call f))"
proof (rule keepsI)
  fix w assume I: "quiet d b h w"
  obtain ft fs where nf: "next_fault w = (ft, w\<lparr>faults := fs\<rparr>)" and none: "faults w = [] \<longrightarrow> fs = [] \<and> ft = NoFault"
    by (rule next_fault_cases)
  then show "quiet d b h (snd (unexpected (redis_call f) w))"
    using I by (cases "f (clock w) (redis w)") (auto simp: redis_call_def unexpected_def map_err_def quiet_def)
qed

lemma quiet_cache_insert [quiet_rules]: "keeps (quiet d b h) (cache_insert tid c)"
  by (auto simp: keeps_def cache_insert_def modify_def quiet_def)

lemma quiet_view_url [quiet_rules]: "keeps (quiet d b h) (generate_view_url X n k)"
proof (rule keepsI)
  fix w assume I: "quiet d b h w"
  obtain ft fs where nf: "next_fault w = (ft, w\<lparr>faults := fs\<rparr>)" and none: "faults w = [] \<longrightarrow> fs = [] \<and> ft = NoFault"
    by (rule next_fault_cases)
  then show "quiet d b h (snd (generate_view_url X n k w))"
    using I by (cases ft) (auto simp: generate_view_url_def s3_call_def quiet_def)
qed

lemma quiet_check_template [quiet_rules]: "keeps (quiet d b h) (check_template_is_enabled tid)"
  unfolding check_template_is_enabled_def by (intro keeps_rules quiet_rules)

lemma quiet_load [quiet_rules]: "keeps (quiet d b h) (get_or_load_template_context X tid)"
  unfolding get_or_load_template_context_def from_database_get_template_context_def
  by (intro keeps_rules quiet_rules)

lemma quiet_validate [quiet_rules]: "keeps (quiet d b h) (validate_instance_by_id X tid v)"
  unfolding validate_instance_by_id_def by (intro keeps_rules quiet_rules keeps_lift_result)

lemma quiet_delete_session [quiet_rules]: "keeps (quiet d b h) (delete_upload_session X sid)"
  unfolding delete_upload_session_def redis_del_def by (rule quiet_redis)

lemma quiet_sign [quiet_rules]: "keeps (quiet d b h) (sign_files X fs urls)"
  by (induction fs arbitrary: urls) (auto intro!: keeps_rules quiet_rules)

lemma quiet_enrich [quiet_rules]: "keeps (quiet d b h) (enrich_archive_records_with_urls X cfgs rs)"
  unfolding enrich_archive_records_with_urls_def Let_def by (intro keeps_rules quiet_rules)

lemma quietE:
  assumes "\<And>d b h. keeps (quiet d b h) m" and "m w = (r, w')"
  shows "db w' = db w \<and> stored_keys w' = stored_keys w \<and> (faults w = [] \<longrightarrow> faults w' = [])"
  using keepsE [OF assms(1) assms(2), of "db w" "bucket w" "faults w = []"] by (simp add: quiet_def stored_keys_def)

section \<open>Properties of the creation\<close>

text \<open>What precedes the transaction of a creation, and what follows it.\<close>

definition before_creation :: "externs \<Rightarrow> uuid \<Rightarrow> create_record_request \<Rightarrow> (world, app_error, template_context) prog" where
  "before_creation X tid req =
     and_then (check_template_is_enabled tid) (\<lambda>_.
     and_then (validate_instance_by_id X tid (cr_data req)) (\<lambda>_.
     and_then (get_or_load_template_context X tid) (\<lambda>c.
     and_then (lift_result id (check_need_file c req)) (\<lambda>_. return c))))"

definition after_creation :: "externs \<Rightarrow> create_record_request \<Rightarrow> template_context \<Rightarrow> record_dto \<Rightarrow>
    (world, app_error, record_dto app_response) prog" where
  "after_creation X req c rd =
     and_then (case cr_session req of None \<Rightarrow> return () | Some sid \<Rightarrow> delete_upload_session X sid) (\<lambda>_.
     and_then (case files_of_request c req of
                 None \<Rightarrow> return [rd]
               | Some (cfgs, _) \<Rightarrow> enrich_archive_records_with_urls X cfgs [rd]) (\<lambda>rds.
     return (resp_created (last rds) ''archive record created'')))"

lemma creation_stages:
  "create_archive_record_handler X tid req user =
     and_then (before_creation X tid req) (\<lambda>c.
     and_then (create_in_transaction X req tid (sub user) (files_of_request c req)) (after_creation X req c))"
  unfolding create_archive_record_handler_def before_creation_def
  by (simp add: and_then_assoc after_creation_def [abs_def])

lemma quiet_before: "keeps (quiet d b h) (before_creation X tid req)"
  unfolding before_creation_def by (intro keeps_rules quiet_rules keeps_lift_result)

lemma quiet_after: "keeps (quiet d b h) (after_creation X req c rd)"
  unfolding after_creation_def by (intro keeps_rules quiet_rules)

lemma creation_handler_outcome:
  assumes run: "create_archive_record_handler X tid req user w = (r, w')"
  shows "stored_keys w \<subseteq> stored_keys w' \<and>
    ((\<forall>x. r \<noteq> Ok x) \<and> same_tables (db w) (db w')
        \<and> (faults w = [] \<longrightarrow> cleanup_stored (stored_keys w' - stored_keys w) (db w'))
     \<or> (\<exists>c a w1. before_creation X tid req w = (Ok c, w1)
          \<and> record_created X req tid (sub user) (files_of_request c req) w w' a))"
proof -
  obtain r1 w1 where before: "before_creation X tid req w = (r1, w1)" by (metis surj_pair)
  note same1 = quietE [OF quiet_before before]
  show ?thesis
  proof (cases "\<exists>c. r1 = Ok c")
    case False
    with run before have "w' = w1" and "\<forall>x. r \<noteq> Ok x"
      by (auto simp: creation_stages and_then_def split: result.splits)
    with same1 show ?thesis by (simp add: cleanup_stored_def)
  next
    case True
    then obtain c where c: "r1 = Ok c" by blast
    obtain r2 w2 where tx: "create_in_transaction X req tid (sub user) (files_of_request c req) w1 = (r2, w2)" by (metis surj_pair)
    note outcome = create_in_transaction_outcome [OF tx]
    have rest: "(case r2 of Ok rd \<Rightarrow> after_creation X req c rd w2 | Err e \<Rightarrow> (Err e, w2) | Panic \<Rightarrow> (Panic, w2)) = (r, w')"
      using run before c tx by (simp add: creation_stages and_then_def)
    show ?thesis
    proof (cases "\<exists>rd. r2 = Ok rd")
      case False
      with rest have "w' = w2" and "\<forall>x. r \<noteq> Ok x" by (auto split: result.splits)
      with outcome False same1 show ?thesis by (auto simp: creation_outcome_def)
    next
      case True
      then obtain rd where rd: "r2 = Ok rd" by blast
      with outcome obtain a where a: "record_created X req tid (sub user) (files_of_request c req) w1 w2 a"
        by (auto simp: creation_outcome_def)
      from rest rd have "after_creation X req c rd w2 = (r, w')" by simp
      note same2 = quietE [OF quiet_after this]
      have "record_created X req tid (sub user) (files_of_request c req) w w' a"
        using a same1 same2 unfolding record_created_def by simp
      moreover have "stored_keys w \<subseteq> stored_keys w'" using outcome same1 same2 by (simp add: creation_outcome_def)
      ultimately show ?thesis using before c by blast
    qed
  qed
qed


text \<open>What is known when the preparation of a creation succeeds.\<close>

lemma before_creation_OkD:
  assumes "cache_ok X w" and before: "before_creation X tid req w = (Ok c, w1)"
  obtains t where "row_by t_id tid (templates (db w)) = Some t" "t_active t" "c = context_of (t_schema t)"
    "x_schema_errors X (t_schema t) (cr_data req) = []" "check_need_file c req = (Ok () :: (app_error, unit) result)"
proof -
  from before [unfolded before_creation_def]
  obtain u1 v1 where s1: "check_template_is_enabled tid w = ((Ok u1 :: (app_error, unit) result), v1)"
    and r1: "and_then (validate_instance_by_id X tid (cr_data req)) (\<lambda>_. and_then (get_or_load_template_context X tid)
      (\<lambda>c. and_then (lift_result id (check_need_file c req)) (\<lambda>_. return c))) v1 = ((Ok c :: (app_error, template_context) result), w1)"
    by (rule and_then_OkE)
  from r1 obtain u2 v2 where s2: "validate_instance_by_id X tid (cr_data req) v1 = (Ok u2, v2)"
    and r2: "and_then (get_or_load_template_context X tid) (\<lambda>c. and_then (lift_result id (check_need_file c req)) (\<lambda>_. return c)) v2
      = ((Ok c :: (app_error, template_context) result), w1)"
    by (rule and_then_OkE)
  from r2 obtain c' v3 where s3: "get_or_load_template_context X tid v2 = (Ok c', v3)"
    and r3: "and_then (lift_result id (check_need_file c' req)) (\<lambda>_. return c') v3 = ((Ok c :: (app_error, template_context) result), w1)"
    by (rule and_then_OkE)
  from r3 have c': "c' = c" and need: "check_need_file c req = Ok ()"
    by (auto simp: lift_result_def and_then_def return_def split: result.splits)
  have ok1: "cache_ok X v1"
    by (rule keepsE [of "cache_ok X" "check_template_is_enabled tid", OF _ s1 assms(1)]) (unfold check_template_is_enabled_def, intro keeps_rules)
  have ok2: "cache_ok X v2" by (rule keepsE [OF keeps_cache_validate s2 ok1])
  note d1 = quietE [OF quiet_check_template s1] and d2 = quietE [OF quiet_validate s2]
  from load_answer [OF ok2 s3] d1 d2 c' have c: "true_context X (db w) tid = Some c" by simp
  then obtain t where t: "row_by t_id tid (templates (db w)) = Some t" "c = context_of (t_schema t)"
    by (auto simp: true_context_def split: option.splits if_splits)
  have active: "t_active t"
    using s1 t(1) by (cases rule: unexpected_select_cases [of "\<lambda>_ d. map_option t_active (row_by t_id tid (templates d))" w])
      (auto simp: check_template_is_enabled_def and_then_def throw_def split: if_splits)
  from s2 [unfolded validate_instance_by_id_def] obtain c2 v4 where
    l: "get_or_load_template_context X tid v1 = (Ok c2, v4)"
    and i: "validate_instance (x_schema_errors X) (validator c2) (cr_data req) = Ok ()"
    by (rule and_then_OkE) (auto simp: lift_result_def split: result.splits)
  from load_answer [OF ok1 l] d1 c have "c2 = c" by simp
  with i t(2) have valid: "x_schema_errors X (t_schema t) (cr_data req) = []"
    by (simp add: validate_instance_def context_of_def Let_def split: if_splits)
  from t(1) active t(2) valid need show thesis by (rule that)
qed


text \<open>C21: When no call fails, a creation leaves no copied object unaccounted for, whatever its outcome:
  every object that is new in the storage belongs to a stored file row or is named in a stored
  command that deletes it.\<close>

theorem copied_objects_are_accounted_for:
  assumes "faults w = []" and "create_archive_record_handler X tid req user w = (r, w')"
    and "k \<in> stored_keys w'" and "k \<notin> stored_keys w"
  shows "k \<in> f_key ` set (files (db w'))
    \<or> (\<exists>i ks. stored_command i (DeleteArchiveObjects ks) (db w') \<and> k \<in> set ks)"
proof -
  consider "cleanup_stored (stored_keys w' - stored_keys w) (db w')"
    | fs a where "record_created X req tid (sub user) fs w w' a"
    using creation_handler_outcome [OF assms(2)] assms(1) by blast
  then show ?thesis
  proof cases
    case 1
    with assms(3,4) show ?thesis by (fastforce simp: cleanup_stored_def)
  next
    case 2
    then obtain fls where "db w' = (db w)\<lparr>records := records (db w) @ [a], files := files (db w) @ fls\<rparr>"
      and "stored_keys w' \<subseteq> stored_keys w \<union> f_key ` set fls" unfolding record_created_def by blast
    with assms(3,4) show ?thesis by auto
  qed
qed

section \<open>Properties of the deletion\<close>

lemma delete_request_bad:
  "delete_request chunk w = (r, w') \<Longrightarrow> r \<noteq> Panic \<and> bad_calls w' \<le> bad_calls w
     \<and> (\<forall>del. r \<noteq> Ok (del, []) \<longrightarrow> bad_calls w' < bad_calls w \<or> (\<exists>d. r = Ok (d, [])))"
proof -
  assume run: "delete_request chunk w = (r, w')"
  obtain f w1 where nf: "next_fault w = (f, w1)" by (cases "next_fault w")
  show ?thesis
    using run nf bad_calls_next [OF nf] by (cases f) (auto simp: delete_request_def Let_def)
qed

lemma delete_chunks_bad:
  "delete_chunks cs rep w = (r, w') \<Longrightarrow> r \<noteq> Panic \<and> bad_calls w' \<le> bad_calls w
     \<and> ((\<exists>rep'. r = Ok rep' \<and> failed rep' = failed rep) \<or> bad_calls w' < bad_calls w)"
proof (induction cs arbitrary: rep w)
  case Nil
  then show ?case by (auto simp: return_def)
next
  case (Cons c cs)
  obtain r1 w1 where req: "delete_request c w = (r1, w1)" by (metis surj_pair)
  note bad = delete_request_bad [OF req]
  show ?case
  proof (cases r1)
    case (Ok p)
    obtain del errs where p: "p = (del, errs)" by (cases p)
    from Cons.prems req Ok p obtain rep1 where rest: "delete_chunks cs rep1 w1 = (r, w')"
      and rep1: "errs = [] \<longrightarrow> failed rep1 = failed rep" by (simp add: and_then_def)
    from Cons.IH [OF rest] bad Ok p rep1 show ?thesis by fastforce
  next
    case (Err e)
    with Cons.prems req bad show ?thesis by (auto simp: and_then_def)
  next
    case Panic
    with bad show ?thesis by simp
  qed
qed

text \<open>A batch deletion goes through, or a call failed.\<close>

lemma delete_objects_outcome:
  assumes run: "delete_objects keys w = (r, w')"
  shows "db w' = db w \<and> stored_keys w' \<subseteq> stored_keys w \<and> stored_keys w - set keys \<subseteq> stored_keys w'
    \<and> (r = Ok () \<and> set keys \<inter> stored_keys w' = {} \<or> (\<exists>e. r = Err e) \<and> bad_calls w' < bad_calls w)"
proof -
  obtain r1 w1 where rep: "delete_objects_with_report keys w = (r1, w1)" by (metis surj_pair)
  note sub = delete_report_sub [OF rep]
  have bad: "r1 \<noteq> Panic \<and> ((\<exists>rep'. r1 = Ok rep' \<and> failed rep' = []) \<or> bad_calls w1 < bad_calls w)"
    using rep delete_chunks_bad [of "chunks max_delete_per_request keys" empty_report w r1 w1]
    by (auto simp: delete_objects_with_report_def return_def empty_report_def split: if_splits)
  show ?thesis
  proof (cases r1)
    case (Ok rp)
    note D = delete_report_Ok(1) [OF rep [unfolded Ok]]
    from run rep Ok have "w' = w1" and "r = (if failed rp = [] then Ok () else r)" and "failed rp \<noteq> [] \<longrightarrow> (\<exists>e. r = Err e)"
      by (auto simp: delete_objects_def and_then_def return_def throw_def split: if_splits)
    with sub bad Ok D show ?thesis by (cases "failed rp = []") auto
  next
    case (Err e)
    with run rep have "r = Err e" "w' = w1" by (simp_all add: delete_objects_def and_then_def)
    with sub bad Err show ?thesis by simp
  next
    case Panic
    with bad show ?thesis by simp
  qed
qed

lemma delete_files_outcome:
  assumes run: "delete_files_by_object_keys keys w = (r, w')" and few: "bad_calls w \<le> 1"
  shows "r = Ok () \<and> same_tables (db w) (db w') \<and> stored_keys w' \<subseteq> stored_keys w
    \<and> stored_keys w - set keys \<subseteq> stored_keys w' \<and> cleanup_stored (set keys \<inter> stored_keys w') (db w')"
proof (cases "keys = []")
  case True
  with run show ?thesis by (simp add: delete_files_by_object_keys_def return_def cleanup_stored_def)
next
  case False
  obtain r1 w1 where del: "delete_objects keys w = (r1, w1)" by (metis surj_pair)
  note D = delete_objects_outcome [OF del]
  then consider "r1 = Ok ()" "set keys \<inter> stored_keys w1 = {}" | e where "r1 = Err e" "bad_calls w1 < bad_calls w" by blast
  then show ?thesis
  proof cases
    case 1
    with run del False have "r = Ok ()" "w' = w1"
      by (simp_all add: delete_files_by_object_keys_def attempt_def return_def)
    with D 1 show ?thesis by (simp add: cleanup_stored_def)
  next
    case 2
    with few have none: "bad_calls w1 = 0" by simp
    let ?s = "submit (DeleteArchiveObjects keys)"
    have "w' = snd (?s w1)" and r: "r = Ok ()"
      using run del False 2 submit_no_panic by (auto simp: delete_files_by_object_keys_def attempt_def return_def
          split: result.splits prod.splits)
    moreover have "bucket (snd (?s w1)) = bucket w1" by (rule submit_bucket)
    moreover have "same_tables (db w1) (db (snd (?s w1)))" by (rule submit_tables) simp
    moreover obtain i where "stored_command i (DeleteArchiveObjects keys) (db (snd (?s w1)))"
      using submit_stored [OF none] by blast
    ultimately show ?thesis using D by (auto simp: stored_keys_def cleanup_stored_def)
  qed
qed

lemma statement_bad:
  assumes "unexpected (sql st) w = (r, w')"
  shows "bad_calls w' \<le> bad_calls w"
proof -
  obtain f w1 where nf: "next_fault w = (f, w1)" by (cases "next_fault w")
  from bad_calls_next [OF nf] have "bad_calls w1 \<le> bad_calls w" by simp
  with assms nf show ?thesis
    by (auto simp: unexpected_def map_err_def sql_def split: if_splits sum.splits prod.splits)
qed

text \<open>Both statements of the deletion of a record, inside the transaction.\<close>

definition of_record :: "uuid \<Rightarrow> database \<Rightarrow> string list" where
  "of_record rid d = map f_key (filter (\<lambda>f. f_record f = rid) (files d))"

lemma delete_by_id_cases:
  assumes run: "delete_archive_record_by_id tid rid w = (r, w')"
  shows "bucket w' = bucket w \<and> bad_calls w' \<le> bad_calls w \<and>
    ((\<exists>e. r = Err e)
     \<or> r = Ok (of_record rid (db w)) \<and> (\<exists>a\<in>set (records (db w)). a_id a = rid \<and> a_template a = tid)
       \<and> db w' = (db w)\<lparr>records := delete_where (\<lambda>a. a_id a = rid \<and> a_template a = tid) (records (db w)),
              files := delete_where (\<lambda>f. f_record f = rid) (files (db w))\<rparr>)"
proof (cases rule: statement_cases [of "\<lambda>_ d. Inr (of_record rid d, d)" w])
  case (err e fs)
  then have "unexpected (select (\<lambda>_ d. map f_key (filter (\<lambda>f. f_record f = rid) (files d)))) w = (Err e, w\<lparr>faults := fs\<rparr>)"
    by (simp add: select_def of_record_def)
  with run have "r = Err e" "w' = w\<lparr>faults := fs\<rparr>" by (simp_all add: delete_archive_record_by_id_def and_then_def)
  with statement_bad [OF err(1)] show ?thesis by simp
next
  case (ok keys d fs)
  let ?w1 = "w\<lparr>faults := fs\<rparr>"
  have d: "d = db w" "keys = of_record rid (db w)" using ok(2) by auto
  then have sel: "unexpected (select (\<lambda>_ d. map f_key (filter (\<lambda>f. f_record f = rid) (files d)))) w = (Ok (of_record rid (db w)), ?w1)"
    using ok(1) by (simp add: select_def of_record_def)
  have bad1: "bad_calls ?w1 \<le> bad_calls w" using statement_bad [OF ok(1)] d by (simp add: bad_calls_def)
  note step = delete_archive_record_by_id_def and_then_def sel
  show ?thesis
  proof (cases rule: statement_cases [of "delete_record_stmt tid rid" ?w1])
    case (err e fs')
    with run have "r = Err e" "w' = ?w1\<lparr>faults := fs'\<rparr>" by (simp_all add: step)
    with statement_bad [OF err(1)] bad1 show ?thesis by simp
  next
    case hit: (ok n d' fs')
    from hit(1) run have w': "w' = ?w1\<lparr>faults := fs', db := d'\<rparr>" and r: "r = (if n = 0
        then Err (DataNotFound ''the archive record does not exist'') else Ok (of_record rid (db w)))"
      by (auto simp: step throw_def return_def split: if_splits)
    have "bad_calls w' \<le> bad_calls w" using statement_bad [OF hit(1)] bad1 w' by simp
    moreover from hit(2) have "n = count_where (\<lambda>a. a_id a = rid \<and> a_template a = tid) (records (db w))"
      and "n \<noteq> 0 \<longrightarrow> d' = (db w)\<lparr>records := delete_where (\<lambda>a. a_id a = rid \<and> a_template a = tid) (records (db w)),
              files := delete_where (\<lambda>f. f_record f = rid) (files (db w))\<rparr>"
      by (auto simp: delete_record_stmt_def Let_def)
    moreover have "bucket w' = bucket w" by (simp add: w')
    moreover have "\<exists>a\<in>set (records (db w)). a_id a = rid \<and> a_template a = tid" if "n \<noteq> 0"
      using that \<open>n = _\<close> by (auto simp: count_where_0_iff)
    moreover have "db w' = d'" by (simp add: w')
    ultimately show ?thesis using r by (cases "n = 0") simp_all
  qed
qed

lemma record_deletion_outcome:
  assumes "bad_calls w \<le> 1" and "delete_archive_record_handler tid rid w = (r, w')"
  shows "stored_keys w' \<subseteq> stored_keys w \<and> stored_keys w - set (of_record rid (db w)) \<subseteq> stored_keys w'
    \<and> (if r = Ok (resp_ok_msg ''archive record deleted'')
       then (\<exists>a\<in>set (records (db w)). a_id a = rid \<and> a_template a = tid)
          \<and> records (db w') = delete_where (\<lambda>a. a_id a = rid \<and> a_template a = tid) (records (db w))
          \<and> files (db w') = delete_where (\<lambda>f. f_record f = rid) (files (db w))
          \<and> cleanup_stored (set (of_record rid (db w)) \<inter> stored_keys w') (db w')
       else (\<forall>x. r \<noteq> Ok x) \<and> stored_keys w' = stored_keys w \<and> same_tables (db w) (db w'))"
proof (cases rule: statement_cases [of "\<lambda>_ d. Inr (d, d)" w])
  case (err e fs)
  with assms(2) have "r = Err e" and "w' = w\<lparr>faults := fs\<rparr>"
    by (simp_all add: delete_archive_record_handler_def tx_begin_def select_def and_then_def)
  then show ?thesis by (simp add: stored_keys_def)
next
  case (ok snap d fs)
  let ?w1 = "w\<lparr>faults := fs\<rparr>" and ?keys = "of_record rid (db w)"
  have "snap = db w" "d = db w" using ok(2) by auto
  then have start: "unexpected tx_begin w = ((Ok (db w), ?w1) :: (app_error, database) result \<times> world)"
    using ok(1) by (simp add: tx_begin_def select_def)
  have b1: "bad_calls ?w1 \<le> 1" using statement_bad [OF ok(1)] assms(1) by (simp add: bad_calls_def)
  obtain r2 w2 where del: "delete_archive_record_by_id tid rid ?w1 = (r2, w2)" by (metis surj_pair)
  note D = delete_by_id_cases [OF del]
  note step = delete_archive_record_handler_def and_then_def start del or_drop_def
  from D consider e where "r2 = Err e"
    | "r2 = Ok ?keys" "\<exists>a\<in>set (records (db w)). a_id a = rid \<and> a_template a = tid"
      "db w2 = (db w)\<lparr>records := delete_where (\<lambda>a. a_id a = rid \<and> a_template a = tid) (records (db w)),
              files := delete_where (\<lambda>f. f_record f = rid) (files (db w))\<rparr>"
    by auto
  then show ?thesis
  proof cases
    case 1
    with assms(2) D have "r = Err e" and "bucket w' = bucket w" and "db w' = db w" by (auto simp: step)
    then show ?thesis by (simp add: stored_keys_def)
  next
    case 2
    obtain ft fs2 where nf: "next_fault w2 = (ft, w2\<lparr>faults := fs2\<rparr>)" by (rule next_fault_cases)
    let ?w3 = "w2\<lparr>faults := fs2\<rparr>"
    have commit: "unexpected (tx_commit (db w)) w2 = (if ft \<noteq> NoFault then (Err (UnexpectedError (DbErr None)), ?w3\<lparr>db := db w\<rparr>) else (Ok (), ?w3))"
      by (simp add: unexpected_def map_err_def tx_commit_def nf)
    show ?thesis
    proof (cases "ft = NoFault")
      case False
      with assms(2) 2(1) nf have "r = Err (UnexpectedError (DbErr None))" and "w' = ?w3\<lparr>db := db w\<rparr>"
        by (simp_all add: step commit)
      with D show ?thesis by (simp add: stored_keys_def)
    next
      case True
      obtain r4 w4 where fin: "delete_files_by_object_keys ?keys ?w3 = (r4, w4)" by (metis surj_pair)
      have "bad_calls ?w3 \<le> 1" using bad_calls_next [OF nf] D b1 by simp
      note F = delete_files_outcome [OF fin this]
      have "r = Ok (resp_ok_msg ''archive record deleted'')" and "w' = w4"
        using assms(2) 2(1) nf True fin F by (simp_all add: step commit return_def)
      moreover have "stored_keys ?w3 = stored_keys w" using D by (simp add: stored_keys_def)
      moreover have "records (db w4) = records (db w2)" "files (db w4) = files (db w2)"
        using F by (simp_all add: same_tables_def)
      ultimately show ?thesis using F 2 by simp
    qed
  qed
qed

text \<open>C11: Deleting a record is all or nothing, and forgets no object, as long as at most one call fails during the request. If the answer is no success,
  the tables apart from the outbox and all objects are as before. If it is a success, exactly the record and
  the rows of its files are gone, only objects of these files were removed, and
  every object of the record is gone from the storage or named in a stored command that deletes it.\<close>

theorem record_deletion_is_all_or_nothing:
  assumes "bad_calls w \<le> 1" and "delete_archive_record_handler tid rid w = (r, w')"
  shows "stored_keys w' \<subseteq> stored_keys w \<and> stored_keys w - set (of_record rid (db w)) \<subseteq> stored_keys w'
    \<and> (if r = Ok (resp_ok_msg ''archive record deleted'')
       then (\<exists>a\<in>set (records (db w)). a_id a = rid \<and> a_template a = tid)
          \<and> records (db w') = delete_where (\<lambda>a. a_id a = rid \<and> a_template a = tid) (records (db w))
          \<and> files (db w') = delete_where (\<lambda>f. f_record f = rid) (files (db w))
          \<and> cleanup_stored (set (of_record rid (db w)) \<inter> stored_keys w') (db w')
       else (\<forall>x. r \<noteq> Ok x) \<and> stored_keys w' = stored_keys w \<and> same_tables (db w) (db w'))"
  using record_deletion_outcome [OF assms] .

section \<open>Examples\<close>

text \<open>A template with one required file field, an open session with an uploaded file, and a record for it.\<close>

definition demo_photo_schema :: json where
  "demo_photo_schema = JObj [(''properties'', JObj [(''photo'', JObj [(''x-file-config'',
       JObj [(''accept'', JArr []), (''max_size'', JInt 1000)]), (''type'', JStr ''string''), (''format'', JStr ''file-id'')])]),
     (''required'', JArr [JStr ''photo''])]"

definition demo_upload :: s3_object where
  "demo_upload = \<lparr>original_filename = Some ''a.png'', content_type = Some ''image/png'', content_length = Some 10, last_modified = Some 0\<rparr>"

definition demo_create_world :: world where
  "demo_create_world = (demo_templates [demo_template 5 demo_photo_schema])
     \<lparr>redis := redis demo_session_world, bucket := [(build_temp_object_key demo_externs 0 1, demo_upload)]\<rparr>"

definition demo_create_record :: create_record_request where
  "demo_create_record = \<lparr>cr_data = JObj [(''photo'', JStr (demo_uuid_str 1))], cr_session = Some 0\<rparr>"

definition demo_photo_config :: file_config where
  "demo_photo_config = \<lparr>allowed_types = [], quota = 1, max_size = 1000, required = True\<rparr>"

lemma demo_photo_fields: "try_from_schema demo_photo_schema = Some [(''photo'', demo_photo_config)]"
  by (simp add: try_from_schema_def demo_photo_schema_def get_def as_object_def as_array_def as_str_def as_i64_def
      try_from_field_def_def required_fields_def demo_photo_config_def Let_def List.map_filter_def)

lemma demo_creation_begins:
  "\<exists>w1. before_creation demo_externs 5 demo_create_record demo_create_world = (Ok (context_of demo_photo_schema), w1)
     \<and> w1 = demo_create_world\<lparr>schema_cache := schema_cache w1\<rparr>"
  by (simp add: before_creation_def check_template_is_enabled_def validate_instance_by_id_def
      get_or_load_template_context_def from_database_get_template_context_def cache_insert_def validate_instance_def
      demo_create_world_def demo_create_record_def check_need_file_def demo_templates_run)

lemma demo_copy:
  assumes w: "faults w = []" "redis w = redis demo_session_world" "clock w = 0"
    "bucket w = [(build_temp_object_key demo_externs 0 1, demo_upload)]"
    "a_id ` set (records (db w)) = {0}" "users (db w) = [demo_user 1]" "files (db w) = []" and rd: "rd_id rd = 0"
  shows "\<exists>w'. copy_files demo_externs rd [(''photo'', demo_photo_config)] 0 1 (cr_data demo_create_record) w = (Ok (), w') \<and> faults w' = []"
proof -
  have "check_upload_session_exists demo_externs 0 w = ((Ok () :: (app_error, unit) result), w)"
    using demo_session_live w by (simp add: check_upload_session_exists_def redis_exists_def redis_call_def unexpected_def
        map_err_def and_then_def return_def demo_session_world_def demo_world_def)
  moreover have "\<exists>w'. process_single_file demo_externs 0 1 1 0 w = (Ok (), w') \<and> faults w' = []"
  proof -
    let ?src = "build_temp_object_key demo_externs 0 1" and ?dest = "build_archive_dest_key demo_externs 0 1"
      and ?md = "\<lparr>md_filename = ''a.png'', md_size = 10, md_mime = ''image/png''\<rparr>"
    have "x_url_decode demo_externs t = Some t" for t by (simp add: demo_externs_def)
    then have head: "get_file_metadata demo_externs ?src w = (Ok ?md, w)"
      using w by (simp add: get_file_metadata_def get_head_object_output_def attempt_def lift_result_def try_from_head_def demo_upload_def)
    obtain b where copy: "move_temp_file_to_save ?src ?dest w = (Ok (), w\<lparr>bucket := b\<rparr>)"
      using w by (simp add: move_temp_file_to_save_def copy_source_to_dest_def unexpected_def map_err_def)
    have "char_count ?dest \<le> 255"
      by (simp add: build_archive_dest_key_def demo_externs_def demo_uuid_str_def char_count_def)
    then obtain w' where "save_file_metadata 0 1 ?dest ?md 1 (w\<lparr>bucket := b\<rparr>) = (Ok (), w')" and "faults w' = []"
      using w by (simp add: save_file_metadata_def unexpected_def map_err_def sql_def insert_file_def demo_user_def char_count_def)
    then show ?thesis by (simp add: process_single_file_def Let_def and_then_def head copy)
  qed
  moreover have "try_parse_file_id demo_externs (get (cr_data demo_create_record) ''photo'') = Some 1"
    by (simp add: try_parse_file_id_def demo_create_record_def get_def as_str_def demo_externs_def demo_uuid_parse_def demo_uuid_str_def)
  ultimately show ?thesis using rd
    by (auto simp: copy_files_def and_then_def create_files_record_def create_field_files_def demo_photo_config_def return_def)
qed

lemma demo_creation_commits:
  assumes "w1 = demo_create_world\<lparr>schema_cache := schema_cache w1\<rparr>"
  shows "\<exists>rd w2. create_in_transaction demo_externs demo_create_record 5 1 (Some ([(''photo'', demo_photo_config)], 0)) w1 = (Ok rd, w2)
    \<and> faults w2 = []"
proof -
  have w1: "faults w1 = []" "db w1 = db demo_create_world" "redis w1 = redis demo_session_world" "clock w1 = 0"
    "fresh_uuids w1 = of_nat" "drawn w1 = 0" "bucket w1 = [(build_temp_object_key demo_externs 0 1, demo_upload)]"
    using arg_cong [OF assms, of faults] arg_cong [OF assms, of db] arg_cong [OF assms, of redis] arg_cong [OF assms, of clock]
      arg_cong [OF assms, of fresh_uuids] arg_cong [OF assms, of drawn] arg_cong [OF assms, of bucket]
    by (simp_all add: demo_create_world_def demo_templates_def demo_world_def)
  have begins: "unexpected tx_begin w1 = ((Ok (db w1), w1) :: (app_error, database) result \<times> world)"
    using w1 by (simp add: unexpected_def map_err_def tx_begin_def select_no_fault)
  obtain a d where row: "insert_record 0 (cr_data demo_create_record) 5 1 0 (db w1) = Inr (a, d)"
    and a: "a_id a = 0" and d: "a_id ` set (records d) = {0}" "users d = [demo_user 1]" "files d = []"
    by (simp add: w1 insert_record_def Let_def demo_create_world_def demo_templates_def demo_world_def empty_db_def demo_template_def demo_user_def)
  let ?w2 = "w1\<lparr>drawn := 1, db := d\<rparr>"
  have created: "create_archive_record demo_create_record 5 1 w1 = (Ok (record_to_dto a), ?w2)"
    using w1 row by (simp add: create_archive_record_def new_uuid_def and_then_def map_err_def sql_def return_def)
  obtain w3 where "copy_files demo_externs (record_to_dto a) [(''photo'', demo_photo_config)] 0 1 (cr_data demo_create_record) ?w2 = (Ok (), w3)"
    and w3: "faults w3 = []"
    using demo_copy [of ?w2 "record_to_dto a"] w1 a d by (auto simp: record_to_dto_def)
  then have "copy_or_roll_back demo_externs (db w1) (record_to_dto a) [(''photo'', demo_photo_config)] 0 1
      (cr_data demo_create_record) ?w2 = (Ok (), w3)"
    by (simp add: copy_or_roll_back_def attempt_def return_def)
  with begins created w3 show ?thesis
    by (simp add: create_in_transaction_def and_then_def or_drop_def tx_commit_def unexpected_def [of "tx_commit _"] map_err_def return_def)
qed

lemma demo_creation_run:
  "\<exists>resp w'. create_archive_record_handler demo_externs 5 demo_create_record (demo_claims USER 1) demo_create_world = (Ok resp, w')"
proof -
  obtain w1 where before: "before_creation demo_externs 5 demo_create_record demo_create_world = (Ok (context_of demo_photo_schema), w1)"
    and w1: "w1 = demo_create_world\<lparr>schema_cache := schema_cache w1\<rparr>" using demo_creation_begins by blast
  let ?c = "context_of demo_photo_schema"
  have fs: "files_of_request ?c demo_create_record = Some ([(''photo'', demo_photo_config)], 0)"
    by (simp add: files_of_request_def context_of_def demo_photo_fields demo_create_record_def)
  obtain rd w2 where tx: "create_in_transaction demo_externs demo_create_record 5 1 (Some ([(''photo'', demo_photo_config)], 0)) w1 = (Ok rd, w2)"
    and w2: "faults w2 = []" using demo_creation_commits [OF w1] by blast
  have "\<exists>w3. delete_upload_session demo_externs 0 w2 = (Ok (), w3) \<and> faults w3 = []"
    using w2 by (simp add: delete_upload_session_def redis_del_def redis_call_def unexpected_def map_err_def)
  moreover have "\<exists>rds w4. enrich_archive_records_with_urls demo_externs [(''photo'', demo_photo_config)] [rd] w3 = (Ok rds, w4)"
    if "faults w3 = []" for w3
  proof -
    have sign: "\<exists>urls w4. sign_files demo_externs fs us v = (Ok urls, w4)" if "faults v = []" for fs us v
      using that by (induction fs arbitrary: us v) (auto simp: return_def attempt_def generate_view_url_def s3_call_def)
    have then_sign: "\<exists>x w4. and_then (sign_files demo_externs fs us) (\<lambda>urls. return (g urls)) w3 = ((Ok x :: (app_error, record_dto list) result), w4)" for fs us g
      using sign [OF that, of fs us] by (auto simp: and_then_def return_def)
    let ?q = "\<lambda>_ d. filter (\<lambda>f. f_id f \<in> set (file_ids_to_fetch demo_externs [(''photo'', demo_photo_config)] [rd])) (files d)"
    have "unexpected (select ?q) w3 = ((Ok (?q (clock w3) (db w3)) :: (app_error, file_row list) result), w3)"
      using that by (simp add: unexpected_def map_err_def select_no_fault)
    then show ?thesis using then_sign
      by (simp add: enrich_archive_records_with_urls_def Let_def return_def and_then_def [of "unexpected _"])
  qed
  ultimately obtain w3 rds w4 where "delete_upload_session demo_externs 0 w2 = ((Ok () :: (app_error, unit) result), w3)"
    "enrich_archive_records_with_urls demo_externs [(''photo'', demo_photo_config)] [rd] w3 = (Ok rds, w4)" by meson
  then have "\<exists>resp w'. after_creation demo_externs demo_create_record ?c rd w2 = (Ok resp, w')"
    unfolding after_creation_def fs by (simp add: demo_create_record_def and_then_def return_def)
  with before tx fs show ?thesis by (simp add: creation_stages and_then_def demo_claims_def)
qed

lemma demo_create_world_facts: "cache_ok demo_externs demo_create_world" "faults demo_create_world = []"
  "stored_keys demo_create_world = {build_temp_object_key demo_externs 0 1}" "templates (db demo_create_world) = [demo_template 5 demo_photo_schema]"
  "records (db demo_create_world) = []" "files (db demo_create_world) = []"
  by (simp_all add: demo_create_world_def demo_templates_def demo_world_def cache_ok_def dm_get_def stored_keys_def empty_db_def)


theorem copied_objects_are_accounted_for_witness:
  "\<exists>r w' k. create_archive_record_handler demo_externs 5 demo_create_record (demo_claims USER 1) demo_create_world = (r, w')
     \<and> k \<in> stored_keys w' \<and> k \<notin> stored_keys demo_create_world
     \<and> (k \<in> f_key ` set (files (db w')) \<or> (\<exists>i ks. stored_command i (DeleteArchiveObjects ks) (db w') \<and> k \<in> set ks))"
proof -
  obtain resp w' where run: "create_archive_record_handler demo_externs 5 demo_create_record (demo_claims USER 1) demo_create_world
      = (Ok resp, w')" using demo_creation_run by blast
  from creation_handler_outcome [OF this] obtain c a w1 where
    before: "before_creation demo_externs 5 demo_create_record demo_create_world = (Ok c, w1)"
    and made: "record_created demo_externs demo_create_record 5 1 (files_of_request c demo_create_record) demo_create_world w' a"
    by (auto simp: demo_claims_def)
  from before demo_creation_begins have "c = context_of demo_photo_schema" by auto
  then have "files_of_request c demo_create_record = Some ([(''photo'', demo_photo_config)], 0)"
    by (simp add: files_of_request_def context_of_def demo_photo_fields demo_create_record_def)
  moreover have "field_ids demo_externs (cr_data demo_create_record) (''photo'', demo_photo_config) = [1]"
    by (simp add: field_ids_def demo_photo_config_def try_parse_file_id_def demo_create_record_def get_def as_str_def demo_externs_def
        demo_uuid_parse_def demo_uuid_str_def)
  ultimately obtain fl where "file_stored demo_externs (a_id a) 1 (stored_keys w') fl"
    using made by (auto simp: record_created_def)
  then have new: "f_key fl \<in> stored_keys w'" "f_key fl \<notin> stored_keys demo_create_world"
    by (auto simp: file_stored_def demo_create_world_facts build_archive_dest_key_def build_temp_object_key_def)
  from copied_objects_are_accounted_for [OF demo_create_world_facts(2) run this] run new show ?thesis by blast
qed

text \<open>A record with a file whose object cannot be deleted at once.\<close>

definition demo_delete_world :: world where
  "demo_delete_world = (demo_world [build_archive_dest_key demo_externs 7 1] [NoFault, NoFault, NoFault, NoFault, Down TimeoutError])
     \<lparr>db := empty_db\<lparr>users := [demo_user 1], templates := [demo_template 5 JNull], records := [demo_record 7 5 JNull],
        files := [\<lparr>f_id = 1, f_record = 7, f_name = ''a'', f_key = build_archive_dest_key demo_externs 7 1, f_size = 1, f_mime = ''x'', f_by = None\<rparr>]\<rparr>\<rparr>"

lemma demo_deletion_run:
  "fst (delete_archive_record_handler 5 7 demo_delete_world) = Ok (resp_ok_msg ''archive record deleted'')"
  by (simp add: demo_delete_world_def demo_world_def empty_db_def delete_archive_record_handler_def tx_begin_def select_def sql_def
      next_fault_def unexpected_def map_err_def and_then_def or_drop_def delete_archive_record_by_id_def delete_record_stmt_def Let_def
      demo_record_def count_where_def tx_commit_def delete_files_by_object_keys_def delete_objects_def attempt_def
      delete_objects_with_report_def max_delete_per_request_def chunks.simps delete_request_def submit_def insert_outbox_def
      try_enqueue_outbox_task_def try_reserve_slot_def mark_running_def update_outbox_def permit_send_def modify_def return_def
      update_where_def delete_where_def from_outbox_def)

theorem record_deletion_is_all_or_nothing_witness:
  "\<exists>w'. delete_archive_record_handler 5 7 demo_delete_world = (Ok (resp_ok_msg ''archive record deleted''), w')
     \<and> records (db w') = [] \<and> files (db w') = []"
proof -
  obtain w' where run: "delete_archive_record_handler 5 7 demo_delete_world = (Ok (resp_ok_msg ''archive record deleted''), w')"
    using demo_deletion_run by (metis prod.collapse)
  have "bad_calls demo_delete_world \<le> 1" by (simp add: bad_calls_def demo_delete_world_def demo_world_def)
  from record_deletion_is_all_or_nothing [OF this run] run show ?thesis
    by (auto simp: demo_delete_world_def demo_record_def delete_where_def)
qed


end
