(* ===== verification/Search.thy ===== *)
theory Search
  imports Archive "HOL-Library.Multiset"
begin

text \<open>
  The search over the records of a template: the SQL text and the bound values that
  \<open>utils/schema.rs\<close> and \<open>query_archive_records\<close> put together with sqlx's \<open>QueryBuilder\<close>, the pages
  they return, and the signed links that replace file ids. Spaces and line breaks of the text are
  written once; the evaluation of the filters by PostgreSQL is the parameter \<open>x_where\<close>.
\<close>

section \<open>The query builder\<close>

type_synonym query_builder = "string \<times> bind list"

definition push :: "string \<Rightarrow> query_builder \<Rightarrow> query_builder" where
  "push s qb = (fst qb @ s, snd qb)"

fun decimal :: "nat \<Rightarrow> string" where
  "decimal n = (if n < 10 then [char_of (48 + n)] else decimal (n div 10) @ [char_of (48 + n mod 10)])"

declare decimal.simps [simp del]

text \<open>\<open>push_bind\<close> appends the number of the placeholder, the value travels beside the text.\<close>

definition push_bind :: "bind \<Rightarrow> query_builder \<Rightarrow> query_builder" where
  "push_bind b qb = (fst qb @ ''$'' @ decimal (length (snd qb) + 1), snd qb @ [b])"

datatype filter_operator = EQ | NUMGT | NUMLT | TIMEGT | TIMELT | LIKE

record schema_filter =
  sf_field :: string
  sf_value :: string
  sf_operator :: filter_operator

definition compare_filter :: "string \<Rightarrow> string \<Rightarrow> string \<Rightarrow> schema_filter \<Rightarrow> query_builder \<Rightarrow> query_builder" where
  "compare_filter front between after f qb =
     push after (push_bind (BText (sf_value f)) (push between (push_bind (BText (sf_field f)) (push front qb))))"

definition push_filter :: "schema_filter \<Rightarrow> query_builder \<Rightarrow> query_builder" where
  "push_filter f qb =
     (let qb = push '' AND '' qb
      in case sf_operator f of
           EQ \<Rightarrow> push_bind (BText (sf_value f)) (push '' = '' (push_bind (BText (sf_field f)) (push ''archive_record.data ->> '' qb)))
         | NUMGT \<Rightarrow> compare_filter ''(archive_record.data ->> '' '')::numeric > ('' '')::numeric'' f qb
         | NUMLT \<Rightarrow> compare_filter ''(archive_record.data ->> '' '')::numeric < ('' '')::numeric'' f qb
         | TIMEGT \<Rightarrow> compare_filter ''(archive_record.data ->> '' '')::timestamptz > ('' '')::timestamptz'' f qb
         | TIMELT \<Rightarrow> compare_filter ''(archive_record.data ->> '' '')::timestamptz < ('' '')::timestamptz'' f qb
         | LIKE \<Rightarrow> push_bind (BText (''%'' @ sf_value f @ ''%''))
             (push '' ILIKE '' (push_bind (BText (sf_field f)) (push ''archive_record.data ->> '' qb))))"

fun build_where_clause :: "schema_filter list \<Rightarrow> query_builder \<Rightarrow> query_builder" where
  "build_where_clause [] qb = qb"
| "build_where_clause (f # fs) qb = build_where_clause fs (push_filter f qb)"

section \<open>The queries\<close>

record query_sort =
  qs_field :: string
  qs_order :: sort_order

record query_records_request =
  qa_filters :: "schema_filter list option"
  qa_sort :: "query_sort option"
  qa_page :: i64
  qa_page_size :: i64

definition where_clause :: "uuid \<Rightarrow> schema_filter list option \<Rightarrow> query_builder" where
  "where_clause tid filters =
     (let qb = push_bind (BUuid tid) (push ''WHERE archive_record.template_id = '' ([], []))
      in case filters of None \<Rightarrow> qb | Some fs \<Rightarrow> build_where_clause fs qb)"

text \<open>The text both queries begin with binds nothing.\<close>

definition with_head :: "string \<Rightarrow> query_builder \<Rightarrow> query_builder" where
  "with_head h qb = (h @ fst qb, snd qb)"

definition count_query :: "query_records_request \<Rightarrow> uuid \<Rightarrow> query_builder" where
  "count_query req tid = with_head ''SELECT COUNT(*) FROM archive_record '' (where_clause tid (qa_filters req))"

text \<open>Only four columns can be sorted by; any other name means the creation time.\<close>

definition sort_field :: "query_records_request \<Rightarrow> string" where
  "sort_field req =
     (case map_option qs_field (qa_sort req) of
        None \<Rightarrow> ''created_at''
      | Some f \<Rightarrow> if f \<in> {''record_id'', ''template_id'', ''created_by'', ''created_at''} then f else ''created_at'')"

definition sort_direction :: "query_records_request \<Rightarrow> sort_order" where
  "sort_direction req = (case qa_sort req of None \<Rightarrow> DESC | Some s \<Rightarrow> qs_order s)"

definition rows_query :: "query_records_request \<Rightarrow> uuid \<Rightarrow> query_builder" where
  "rows_query req tid =
     push_bind (BInt (offset (qa_page req) (qa_page_size req))) (push '' OFFSET ''
       (push_bind (BInt (qa_page_size req)) (push '' LIMIT '' (push (sort_as_str (sort_direction req)) (push '' '' (push (sort_field req)
         (push '' ORDER BY ''
           (with_head ''SELECT record_id, template_id, data, created_by, created_at FROM archive_record '' (where_clause tid (qa_filters req))))))))))"

section \<open>Their evaluation\<close>

text \<open>
  The condition on the template selects the rows (by the index on \<open>template_id\<close>), the filters are
  evaluated on these; a row they cannot be evaluated on makes the statement fail.
\<close>

fun filter_rows :: "(archive_row \<Rightarrow> string + bool) \<Rightarrow> archive_row list \<Rightarrow> string + archive_row list" where
  "filter_rows p [] = Inr []"
| "filter_rows p (a # as) =
     (case p a of
        Inl c \<Rightarrow> Inl c
      | Inr b \<Rightarrow> (case filter_rows p as of Inl c \<Rightarrow> Inl c | Inr hits \<Rightarrow> Inr (if b then a # hits else hits)))"

definition select_records :: "externs \<Rightarrow> uuid \<Rightarrow> schema_filter list option \<Rightarrow> database \<Rightarrow> string + archive_row list" where
  "select_records X tid filters d =
     (let rows = filter (\<lambda>a. a_template a = tid) (records d)
      in case filters of
           None \<Rightarrow> Inr rows
         | Some [] \<Rightarrow> Inr rows
         | Some (_ # _) \<Rightarrow> (case where_clause tid filters of (clause, binds) \<Rightarrow> filter_rows (x_where X clause binds) rows))"

text \<open>
  The sort keys; a missing \<open>created_by\<close> is the largest value. The order of rows with equal keys is PostgreSQL's
  (theory Access, \<open>in_order\<close>).
\<close>

definition sort_value :: "string \<Rightarrow> archive_row \<Rightarrow> int" where
  "sort_value f a =
     (if f = ''record_id'' then uint (a_id a)
      else if f = ''template_id'' then uint (a_template a)
      else if f = ''created_by'' then (case a_by a of None \<Rightarrow> 2 ^ 128 | Some u \<Rightarrow> uint u)
      else a_created a)"

definition row_key :: "string \<Rightarrow> sort_order \<Rightarrow> archive_row \<Rightarrow> int" where
  "row_key f dir a = (case dir of ASC \<Rightarrow> sort_value f a | DESC \<Rightarrow> - sort_value f a)"

definition count_records :: "externs \<Rightarrow> query_records_request \<Rightarrow> uuid \<Rightarrow> i64 stmt" where
  "count_records X req tid now d =
     (case select_records X tid (qa_filters req) d of
        Inl c \<Rightarrow> Inl c
      | Inr as \<Rightarrow> Inr (word_of_int (int (length as)), d))"

definition page_records :: "externs \<Rightarrow> query_records_request \<Rightarrow> uuid \<Rightarrow> record_dto list stmt" where
  "page_records X req tid now d =
     (case select_records X tid (qa_filters req) d of
        Inl c \<Rightarrow> Inl c
      | Inr as \<Rightarrow> page_query (qa_page req) (qa_page_size req) (row_key (sort_field req) (sort_direction req))
                    record_to_dto (\<lambda>_. as) now d)"

definition schema_query_error :: "anyhow \<Rightarrow> app_error" where
  "schema_query_error e =
     (if e \<in> {DbErr (Some ''42601''), DbErr (Some ''22P02''), DbErr (Some ''22007'')} then BuildSchemaQueryFailed
      else UnexpectedError e)"

definition query_archive_records :: "externs \<Rightarrow> query_records_request \<Rightarrow> uuid \<Rightarrow> file_configs option \<Rightarrow>
    (world, app_error, record_dto page_data) prog" where
  "query_archive_records X req tid cfgs =
     and_then (map_err schema_query_error (sql (count_records X req tid))) (\<lambda>cnt.
     and_then (map_err schema_query_error (sql (page_records X req tid))) (\<lambda>rows.
     and_then (case cfgs of None \<Rightarrow> return rows | Some cs \<Rightarrow> enrich_archive_records_with_urls X cs rows) (\<lambda>rows'.
     return (page_data_from rows' cnt (qa_page req) (qa_page_size req)))))"

definition query_archive_records_handler :: "externs \<Rightarrow> uuid \<Rightarrow> query_records_request \<Rightarrow>
    (world, app_error, record_dto page_data app_response) prog" where
  "query_archive_records_handler X tid req =
     and_then (require_valid (\<lambda>_. validate_page (qa_page req) (qa_page_size req))) (\<lambda>_.
     and_then (get_or_load_template_context X tid) (\<lambda>c.
     and_then (query_archive_records X req tid (file_field_configs c)) (\<lambda>pd.
     return (resp_success_msg pd ''archive records found''))))"

section \<open>No input reaches the text\<close>

lemma push_filter_text:
  assumes "fst qb = fst qb'" and "length (snd qb) = length (snd qb')" and "sf_operator f = sf_operator f'"
  shows "fst (push_filter f qb) = fst (push_filter f' qb') \<and> length (snd (push_filter f qb)) = length (snd (push_filter f' qb'))
    \<and> length (snd (push_filter f qb)) = length (snd qb) + 2"
  using assms by (cases "sf_operator f'") (simp_all add: push_filter_def Let_def push_def push_bind_def compare_filter_def)

lemma build_where_clause_text:
  assumes "fst qb = fst qb'" and "length (snd qb) = length (snd qb')" and "map sf_operator fs = map sf_operator fs'"
  shows "fst (build_where_clause fs qb) = fst (build_where_clause fs' qb')
    \<and> length (snd (build_where_clause fs qb)) = length (snd (build_where_clause fs' qb'))
    \<and> length (snd (build_where_clause fs qb)) = length (snd qb) + 2 * length fs"
  using assms
proof (induction fs arbitrary: fs' qb qb')
  case (Cons f fs)
  then obtain f' gs where fs': "fs' = f' # gs" "sf_operator f = sf_operator f'" "map sf_operator fs = map sf_operator gs"
    by (cases fs') auto
  note one = push_filter_text [OF Cons.prems(1,2) fs'(2)]
  from Cons.IH [of "push_filter f qb" "push_filter f' qb'" gs] one fs' show ?case by simp
qed simp

lemma where_clause_text:
  assumes "map_option (map sf_operator) fs = map_option (map sf_operator) fs'"
  shows "fst (where_clause tid fs) = fst (where_clause tid' fs')
    \<and> length (snd (where_clause tid fs)) = length (snd (where_clause tid' fs'))
    \<and> length (snd (where_clause tid fs)) = 1 + 2 * (case fs of None \<Rightarrow> 0 | Some l \<Rightarrow> length l)"
proof (cases fs)
  case None
  with assms show ?thesis by (simp add: where_clause_def push_def push_bind_def)
next
  case (Some l)
  with assms obtain l' where l': "fs' = Some l'" "map sf_operator l = map sf_operator l'" by (cases fs') auto
  let ?q = "\<lambda>tid. push_bind (BUuid tid) (push ''WHERE archive_record.template_id = '' ([], []))"
  have "fst (?q tid) = fst (?q tid')" "length (snd (?q tid)) = length (snd (?q tid'))" "length (snd (?q tid)) = 1"
    by (simp_all add: push_def push_bind_def)
  from build_where_clause_text [OF this(1,2) l'(2)] this(3) Some l' show ?thesis
    by (simp add: where_clause_def Let_def)
qed

text \<open>C30: No text of a request becomes part of a query. Two search requests whose filters use the same operators
  in the same order, and which sort by the same one of the four known columns in the same direction, send the same SQL
  texts for whatever template, field names, values, sort field and page; these travel as bound values, whose
  number depends on the number of filters only.\<close>

theorem search_text_is_free_of_input:
  assumes "map_option (map sf_operator) (qa_filters r) = map_option (map sf_operator) (qa_filters r')"
    and "sort_field r = sort_field r'" and "sort_direction r = sort_direction r'"
  shows "fst (count_query r tid) = fst (count_query r' tid') \<and> fst (rows_query r tid) = fst (rows_query r' tid')
    \<and> length (snd (count_query r tid)) = 1 + 2 * (case qa_filters r of None \<Rightarrow> 0 | Some l \<Rightarrow> length l)
    \<and> length (snd (rows_query r tid)) = 3 + 2 * (case qa_filters r of None \<Rightarrow> 0 | Some l \<Rightarrow> length l)
    \<and> sort_field r \<in> {''record_id'', ''template_id'', ''created_by'', ''created_at''}"
proof -
  have T: "fst (where_clause tid (qa_filters r)) = fst (where_clause tid' (qa_filters r'))"
    and L: "length (snd (where_clause tid (qa_filters r))) = 1 + 2 * (case qa_filters r of None \<Rightarrow> 0 | Some l \<Rightarrow> length l)"
    and L': "length (snd (where_clause tid (qa_filters r))) = length (snd (where_clause tid' (qa_filters r')))"
    using where_clause_text [OF assms(1)] by blast+
  have "sort_field r \<in> {''record_id'', ''template_id'', ''created_by'', ''created_at''}"
    by (simp add: sort_field_def split: option.splits)
  moreover have "fst (rows_query r tid) = fst (rows_query r' tid')"
    by (simp add: rows_query_def with_head_def push_def push_bind_def assms(2,3) T L')
  ultimately show ?thesis by (simp add: count_query_def rows_query_def with_head_def push_def push_bind_def T L)
qed

definition demo_search :: "string \<Rightarrow> string \<Rightarrow> query_records_request" where
  "demo_search f v = \<lparr>qa_filters = Some [\<lparr>sf_field = ''title'', sf_value = v, sf_operator = LIKE\<rparr>],
     qa_sort = Some \<lparr>qs_field = f, qs_order = ASC\<rparr>, qa_page = 1, qa_page_size = 10\<rparr>"

theorem search_text_is_free_of_input_witness:
  "fst (rows_query (demo_search ''1; DROP TABLE sys_user'' ''x OR TRUE'') 5) = fst (rows_query (demo_search ''name'' '''') 5)"
  using search_text_is_free_of_input [of "demo_search ''1; DROP TABLE sys_user'' ''x OR TRUE''" "demo_search ''name'' ''''" 5 5]
  by (simp add: demo_search_def sort_field_def sort_direction_def)

section \<open>The pages of a search\<close>

lemma filter_rows_sub: "filter_rows p as = Inr hits \<Longrightarrow> set hits \<subseteq> set as"
proof (induction as arbitrary: hits)
  case (Cons a as)
  then show ?case by (fastforce split: sum.splits if_splits)
qed simp

lemma select_records_sub:
  assumes "select_records X tid filters d = Inr hits" and "a \<in> set hits"
  shows "a \<in> set (records d) \<and> a_template a = tid"
proof -
  let ?rows = "filter (\<lambda>a. a_template a = tid) (records d)"
  have "hits = ?rows \<or> (\<exists>p. filter_rows p ?rows = Inr hits)"
    using assms(1) by (auto simp: select_records_def Let_def split: option.splits list.splits prod.splits)
  then have "set hits \<subseteq> set ?rows" using filter_rows_sub by blast
  with assms(2) show ?thesis by auto
qed

lemma enrich_ids:
  "enrich_archive_records_with_urls X cfgs rs w = (Ok rs', w') \<Longrightarrow>
     map rd_id rs' = map rd_id rs \<and> map rd_template rs' = map rd_template rs"
  by (auto simp: enrich_archive_records_with_urls_def Let_def return_def comp_def split: if_splits elim!: and_then_OkE)

lemma query_cases:
  assumes "map_err g (sql st) w = (Ok x, w')" and "\<And>now d x d'. st now d = Inr (x, d') \<Longrightarrow> d' = d"
  shows "\<exists>now. st now (db w) = Inr (x, db w) \<and> db w' = db w"
proof (cases rule: sql_cases [of st w])
  case (err e fs)
  with assms(1) show ?thesis by simp
next
  case (ok y d fs)
  from ok(2) have d: "d = db w" by (rule assms(2))
  from ok(1) assms(1) have "y = x" "w' = w\<lparr>faults := fs, db := d\<rparr>" by simp_all
  with ok(2) d show ?thesis by auto
qed

text \<open>
  What \<open>in_order\<close> is: a permutation of the rows sorted by the key, and which one is open as far as there are
  ties. Every such permutation is the result of some \<open>tie\<close>.
\<close>

lemma mset_in_order: "mset (in_order tie key rows) = mset rows"
proof -
  have "mset (map snd (sort_key (\<lambda>(i, _). tie i) (enumerate 0 rows))) = mset (map snd (enumerate 0 rows))"
    by (simp only: mset_map mset_sort)
  then show ?thesis by (simp add: in_order_def)
qed

lemma sorted_in_order: "sorted (map key (in_order tie key rows))"
  by (simp add: in_order_def)

lemma in_order_no_ties:
  assumes "distinct (map key rows)" shows "in_order tie key rows = sort_key key rows"
proof (rule sort_key_inj_key_eq [symmetric])
  show "mset rows = mset (in_order tie key rows)" by (simp add: mset_in_order)
  show "inj_on key (set rows)" using assms by (simp add: distinct_map)
qed (rule sorted_in_order)

lemma permuted_by_positions:
  "mset ys = mset rows \<Longrightarrow> \<exists>is. mset is = mset [0..<length rows] \<and> map ((!) rows) is = ys"
proof (induction ys arbitrary: rows)
  case (Cons y ys)
  then have "y \<in> set rows" by (metis list.set_intros(1) set_mset_mset)
  then obtain as bs where rows: "rows = as @ y # bs" by (meson split_list)
  with Cons.prems have "mset ys = mset (as @ bs)" by simp
  from Cons.IH [OF this] obtain "is" where pos: "mset is = mset [0..<length (as @ bs)]" "map ((!) (as @ bs)) is = ys" by blast
  let ?up = "\<lambda>i. if i < length as then i else Suc i"
  have up: "map ?up [0..<length (as @ bs)] = [0..<length as] @ [Suc (length as)..<length rows]"
  proof -
    have "[0..<length (as @ bs)] = [0..<length as] @ [length as..<length as + length bs]"
      by (simp only: length_append upt_add_eq_append [of 0 "length as" "length bs"] zero_le)
    moreover have "map ?up [length as..<length as + length bs] = map Suc [length as..<length as + length bs]"
      by (rule map_cong) auto
    moreover have "map ?up [0..<length as] = [0..<length as]" by (rule map_idI) auto
    ultimately show ?thesis by (simp add: rows map_Suc_upt del: upt_Suc)
  qed
  have "mset (map ?up is) = mset (map ?up [0..<length (as @ bs)])" by (simp only: mset_map pos(1))
  then have "mset (map ?up is) = mset ([0..<length as] @ [Suc (length as)..<length rows])" unfolding up .
  moreover have "[0..<length rows] = [0..<length as] @ length as # [Suc (length as)..<length rows]"
  proof -
    have "[0..<length rows] = [0..<length as] @ [length as..<length rows]"
      by (simp only: rows length_append list.size(4) upt_add_eq_append [OF le0])
    moreover have "[length as..<length rows] = length as # [Suc (length as)..<length rows]"
      by (rule upt_conv_Cons) (simp add: rows)
    ultimately show ?thesis by (simp only:)
  qed
  ultimately have all: "mset (length as # map ?up is) = mset [0..<length rows]" by simp
  have "rows ! ?up i = (as @ bs) ! i" for i by (simp add: rows nth_append Suc_diff_le)
  then have "map ((!) rows) (map ?up is) = ys" unfolding pos(2) [symmetric] map_map by (intro map_cong) simp_all
  then have "map ((!) rows) (length as # map ?up is) = y # ys" by (simp add: rows)
  with all show ?case by (intro exI conjI)
qed simp

lemma every_order_is_possible:
  assumes "mset ys = mset rows" and "sorted (map key ys)"
  shows "\<exists>tie. in_order tie key rows = ys"
proof -
  obtain "is" where pos: "mset is = mset [0..<length rows]" "map ((!) rows) is = ys"
    using permuted_by_positions [OF assms(1)] by blast
  have d: "distinct is" using pos(1) by (metis distinct_upt mset_eq_imp_distinct_iff)
  define tie where "tie i = the_inv_into {..<length is} ((!) is) i" for i
  have tie: "tie (is ! k) = k" if "k < length is" for k
    unfolding tie_def using d that by (intro the_inv_into_f_f) (auto simp: inj_on_nth)
  have "sort_key (\<lambda>(i, _). tie i) (enumerate 0 rows) = map (\<lambda>i. (i, rows ! i)) is"
  proof (rule sort_key_inj_key_eq)
    have "enumerate 0 rows = map (\<lambda>i. (i, rows ! i)) [0..<length rows]"
      by (rule nth_equalityI) (simp_all add: nth_enumerate_eq)
    then show "mset (enumerate 0 rows) = mset (map (\<lambda>i. (i, rows ! i)) is)" using pos(1) by (simp only: mset_map)
  next
    have "set is = {..<length rows}" using mset_eq_setD [OF pos(1)] by (simp add: lessThan_atLeast0)
    moreover have "inj_on tie (set is)"
    proof (rule inj_on_inverseI)
      fix i assume "i \<in> set is"
      then obtain k where "k < length is" "i = is ! k" by (metis in_set_conv_nth)
      then show "is ! tie i = i" by (simp only: tie)
    qed
    ultimately show "inj_on (\<lambda>(i, _). tie i) (set (enumerate 0 rows))"
      by (auto simp: inj_on_def in_set_enumerate_eq) (metis lessThan_iff)
  next
    show "sorted (map (\<lambda>(i, _). tie i) (map (\<lambda>i. (i, rows ! i)) is))"
      by (simp add: sorted_iff_nth_mono tie)
  qed
  moreover have "sort_key key ys = ys" by (rule properties_for_sort_key) (simp_all add: assms(2))
  ultimately have "in_order tie key rows = ys" by (simp add: in_order_def comp_def pos(2))
  then show ?thesis by blast
qed

lemma page_records_Inr:
  assumes "page_records X req tid now d = Inr (rows, d')"
  shows "\<exists>hits. d' = d \<and> select_records X tid (qa_filters req) d = Inr hits \<and> limit_offset (qa_page_size req) (offset (qa_page req) (qa_page_size req))
      (map record_to_dto (in_order (ties d (qa_page_size req) (offset (qa_page req) (qa_page_size req)) now)
         (row_key (sort_field req) (sort_direction req)) hits)) = Some rows"
  using assms by (auto simp: page_records_def page_query_def split: sum.splits option.splits)

lemma count_records_Inr:
  assumes "count_records X req tid now d = Inr (n, d')"
  shows "\<exists>hits. d' = d \<and> select_records X tid (qa_filters req) d = Inr hits \<and> n = word_of_int (int (length hits))"
  using assms by (auto simp: count_records_def split: sum.splits)

text \<open>C29: A page of a search is a slice of its hits in an order the request asks for. Its total is the number of all
  hits, which are records of the template of the request, and its records are those that the page number cuts out of a permutation
  of the hits that is sorted by the requested column. The order of hits that tie in this column is PostgreSQL's and may
  differ from page to page; when no two hits tie, the order is the same for every page, so the pages are slices of one list.\<close>

theorem search_pages_are_slices_of_the_hits:
  assumes "query_archive_records_handler X tid req w = (Ok resp, w')" and "data resp = Some pd"
  shows "\<exists>hits ordered. select_records X tid (qa_filters req) (db w) = Inr hits
    \<and> (\<forall>a\<in>set hits. a \<in> set (records (db w)) \<and> a_template a = tid)
    \<and> total pd = word_of_int (int (length hits))
    \<and> mset ordered = mset hits \<and> sorted (map (row_key (sort_field req) (sort_direction req)) ordered)
    \<and> (distinct (map (row_key (sort_field req) (sort_direction req)) hits)
         \<longrightarrow> ordered = sort_key (row_key (sort_field req) (sort_direction req)) hits)
    \<and> map rd_id (items pd) = map a_id (page_rows (qa_page_size req) (qa_page req) ordered)
    \<and> set (map rd_template (items pd)) \<subseteq> {tid}"
proof -
  from assms(1) have "and_then (get_or_load_template_context X tid) (\<lambda>c.
      and_then (query_archive_records X req tid (file_field_configs c)) (\<lambda>pd. return (resp_success_msg pd ''archive records found''))) w
      = (Ok resp, w')"
    by (cases rule: require_valid_cases [of "\<lambda>_. validate_page (qa_page req) (qa_page_size req)" w])
       (simp_all add: query_archive_records_handler_def and_then_def [of "require_valid _"])
  then obtain c w1 where load: "get_or_load_template_context X tid w = (Ok c, w1)"
    and r1: "and_then (query_archive_records X req tid (file_field_configs c)) (\<lambda>pd. return (resp_success_msg pd ''archive records found'')) w1
      = ((Ok resp :: (app_error, _) result), w')" by (rule and_then_OkE)
  from r1 obtain pd' w2 where q: "query_archive_records X req tid (file_field_configs c) w1 = (Ok pd', w2)"
    and "return (resp_success_msg pd' ''archive records found'') w2 = ((Ok resp :: (app_error, _) result), w')" by (rule and_then_OkE)
  with assms(2) have pd: "pd' = pd" by (auto simp: return_def resp_success_msg_def)
  have d1: "db w1 = db w" using quietE [OF quiet_load load] by simp
  from q [unfolded query_archive_records_def] obtain cnt w3 where
    cnt: "map_err schema_query_error (sql (count_records X req tid)) w1 = (Ok cnt, w3)"
    and r2: "and_then (map_err schema_query_error (sql (page_records X req tid))) (\<lambda>rows.
       and_then (case file_field_configs c of None \<Rightarrow> return rows | Some cs \<Rightarrow> enrich_archive_records_with_urls X cs rows) (\<lambda>rows'.
       return (page_data_from rows' cnt (qa_page req) (qa_page_size req)))) w3 = ((Ok pd' :: (app_error, _) result), w2)"
    by (rule and_then_OkE)
  from r2 obtain rows w4 where
    rows: "map_err schema_query_error (sql (page_records X req tid)) w3 = (Ok rows, w4)"
    and r3: "and_then (case file_field_configs c of None \<Rightarrow> return rows | Some cs \<Rightarrow> enrich_archive_records_with_urls X cs rows) (\<lambda>rows'.
       return (page_data_from rows' cnt (qa_page req) (qa_page_size req))) w4 = ((Ok pd' :: (app_error, _) result), w2)"
    by (rule and_then_OkE)
  from r3 obtain rows' w5 where
    e: "(case file_field_configs c of None \<Rightarrow> return rows | Some cs \<Rightarrow> enrich_archive_records_with_urls X cs rows) w4
      = ((Ok rows' :: (app_error, _) result), w5)"
    and "return (page_data_from rows' cnt (qa_page req) (qa_page_size req)) w5 = ((Ok pd' :: (app_error, _) result), w2)"
    by (rule and_then_OkE)
  with pd have pd': "items pd = rows'" "total pd = cnt" by (auto simp: return_def page_data_from_def)
  have same: "map rd_id rows' = map rd_id rows \<and> map rd_template rows' = map rd_template rows"
    using e enrich_ids by (cases "file_field_configs c") (auto simp: return_def)
  have S: "\<exists>now. count_records X req tid now (db w1) = Inr (cnt, db w1) \<and> db w3 = db w1"
    by (rule query_cases [OF cnt]) (blast dest: count_records_Inr)
  have S': "\<exists>now. page_records X req tid now (db w3) = Inr (rows, db w3) \<and> db w4 = db w3"
    by (rule query_cases [OF rows]) (blast dest: page_records_Inr)
  from S d1 obtain hits where hits: "select_records X tid (qa_filters req) (db w) = Inr hits" "cnt = word_of_int (int (length hits))"
    by (auto dest: count_records_Inr)
  let ?key = "row_key (sort_field req) (sort_direction req)"
  let ?off = "offset (qa_page req) (qa_page_size req)"
  from S S' d1 hits(1) obtain now where
    "limit_offset (qa_page_size req) ?off (map record_to_dto (in_order (ties (db w) (qa_page_size req) ?off now) ?key hits)) = Some rows"
    by (auto dest!: page_records_Inr)
  moreover define ordered where "ordered = in_order (ties (db w) (qa_page_size req) ?off now) ?key hits"
  ultimately have slice: "rows = map record_to_dto (page_rows (qa_page_size req) (qa_page req) ordered)"
    by (auto simp: limit_offset_def page_rows_def take_map drop_map split: if_splits)
  have perm: "mset ordered = mset hits" by (simp add: ordered_def mset_in_order)
  have "set (page_rows (qa_page_size req) (qa_page req) ordered) \<subseteq> set ordered"
    by (auto simp: page_rows_def limit_offset_def dest!: in_set_takeD in_set_dropD)
  then have "set (map rd_template rows) \<subseteq> {tid}"
    using select_records_sub [OF hits(1)] mset_eq_setD [OF perm] by (auto simp: slice record_to_dto_def)
  moreover have "map rd_id rows = map a_id (page_rows (qa_page_size req) (qa_page req) ordered)"
    by (simp add: slice record_to_dto_def comp_def)
  moreover have "sorted (map ?key ordered)" "distinct (map ?key hits) \<longrightarrow> ordered = sort_key ?key hits"
    by (simp_all add: ordered_def sorted_in_order in_order_no_ties)
  ultimately show ?thesis using hits pd' same perm select_records_sub [OF hits(1)] by (intro exI [of _ hits] exI [of _ ordered]) simp
qed

definition demo_search_world :: world where
  "demo_search_world = (demo_templates [demo_template 5 JNull])\<lparr>db := (db (demo_templates [demo_template 5 JNull]))
     \<lparr>records := [demo_record 8 5 JNull, demo_record 9 6 JNull, demo_record 7 5 JNull]\<rparr>\<rparr>"

lemma demo_search_hits:
  "select_records demo_externs 5 (qa_filters (demo_search ''record_id'' '''')) (db demo_search_world)
     = Inr [demo_record 8 5 JNull, demo_record 7 5 JNull]"
  by (cases "where_clause 5 (qa_filters (demo_search ''record_id'' ''''))")
    (simp add: select_records_def demo_search_def demo_search_world_def demo_record_def demo_externs_def)

lemma demo_search_run:
  "\<exists>resp pd w'. query_archive_records_handler demo_externs 5 (demo_search ''record_id'' '''') demo_search_world = (Ok resp, w')
     \<and> data resp = Some pd"
proof -
  have ctx: "get_or_load_template_context demo_externs 5 demo_search_world = (Ok (context_of JNull),
      demo_search_world\<lparr>schema_cache := dm_insert 5 (context_of JNull) (\<lambda>_. None)\<rparr>)"
    by (simp add: demo_search_world_def demo_templates_run get_or_load_template_context_def
        from_database_get_template_context_def cache_insert_def)
  note demo_search_hits
  moreover have "faults demo_search_world = []" by (simp add: demo_search_world_def demo_templates_def demo_world_def)
  moreover have "file_field_configs (context_of JNull) = None"
    by (simp add: context_of_def try_from_schema_def get_def)
  ultimately show ?thesis
    by (simp add: query_archive_records_handler_def require_valid_def validate_page_def ctx and_then_def query_archive_records_def
        count_records_def page_records_def page_query_def limit_offset_def offset_def sql_def map_err_def return_def resp_success_msg_def)
      (simp add: demo_search_def limit_offset_def offset_def page_query_def)
qed

theorem search_pages_are_slices_of_the_hits_witness:
  "\<exists>resp pd w'. query_archive_records_handler demo_externs 5 (demo_search ''record_id'' '''') demo_search_world = (Ok resp, w')
     \<and> data resp = Some pd \<and> map rd_id (items pd) = [7, 8] \<and> total pd = 2 \<and> set (map rd_template (items pd)) \<subseteq> {5}"
proof -
  let ?q = "demo_search ''record_id'' ''''" and ?hits = "[demo_record 8 5 JNull, demo_record 7 5 JNull]"
  obtain resp pd w' where run: "query_archive_records_handler demo_externs 5 ?q demo_search_world = (Ok resp, w')"
    and pd: "data resp = Some pd" using demo_search_run by blast
  have key: "sort_field ?q = ''record_id''" "sort_direction ?q = ASC" "qa_page ?q = 1" "qa_page_size ?q = 10"
    by (simp_all add: sort_field_def sort_direction_def demo_search_def)
  have "distinct (map (row_key ''record_id'' ASC) ?hits)" "sort_key (row_key ''record_id'' ASC) ?hits = [demo_record 7 5 JNull, demo_record 8 5 JNull]"
    by (simp_all add: row_key_def sort_value_def demo_record_def)
  with search_pages_are_slices_of_the_hits [OF run pd] demo_search_hits key
  have "map rd_id (items pd) = map a_id (page_rows 10 1 [demo_record 7 5 JNull, demo_record 8 5 JNull])" "total pd = 2"
    "set (map rd_template (items pd)) \<subseteq> {5}" by auto
  moreover have "page_rows 10 1 [demo_record 7 5 JNull, demo_record 8 5 JNull] = [demo_record 7 5 JNull, demo_record 8 5 JNull]"
    by (simp add: page_rows_def limit_offset_def offset_def)
  ultimately show ?thesis using run pd by (auto simp: demo_record_def)
qed

text \<open>
  The hits of a search all tie in \<open>template_id\<close>. A database that happens to meet them in another order for the second page hands
  out one record twice and the other never.
\<close>

definition tied_search :: "i64 \<Rightarrow> query_records_request" where
  "tied_search p = \<lparr>qa_filters = None, qa_sort = Some \<lparr>qs_field = ''template_id'', qs_order = ASC\<rparr>, qa_page = p, qa_page_size = 1\<rparr>"

theorem tied_pages_may_overlap:
  "let d = (db demo_search_world)\<lparr>ties := (\<lambda>limit off now i. if off = 0 then i else 2 - i)\<rparr> in
     page_records demo_externs (tied_search 1) 5 now d = Inr ([record_to_dto (demo_record 8 5 JNull)], d)
     \<and> page_records demo_externs (tied_search 2) 5 now d = Inr ([record_to_dto (demo_record 8 5 JNull)], d)"
  by (simp add: tied_search_def page_records_def select_records_def demo_search_world_def demo_record_def page_query_def in_order_def
      limit_offset_def offset_def sort_field_def sort_direction_def row_key_def sort_value_def Let_def)

section \<open>Links\<close>

definition view_link :: "externs \<Rightarrow> file_row \<Rightarrow> string" where
  "view_link X f = x_presign_get X (f_key f) (''attachment; filename='' @ [CHR 0x22] @ x_url_encode X (f_name f) @ [CHR 0x22])"

text \<open>The value of a file field with its links, from the table of all files.\<close>

definition with_links :: "externs \<Rightarrow> file_row list \<Rightarrow> json \<Rightarrow> json" where
  "with_links X fs = replace_uuid_with_url_in_json X (\<lambda>i. map_option (view_link X) (row_by f_id i fs))"

lemma replace_cong: "\<forall>u\<in>set (collect_uuids_from_json_value X v). m u = m' u \<Longrightarrow>
    replace_uuid_with_url_in_json X m v = replace_uuid_with_url_in_json X m' v"
  by (induction v) (auto split: option.splits bind_splits)

lemma replace_none: "collect_uuids_from_json_value X v = [] \<Longrightarrow> replace_uuid_with_url_in_json X m v = v"
  by (induction v) (auto split: option.splits intro: map_idI)

lemma generate_view_url_cases:
  obtains (signed) w1 where "generate_view_url X (f_name f) (f_key f) w = (Ok (view_link X f), w1)" "db w1 = db w"
      "bad_calls w1 \<le> bad_calls w"
  | (failed) e w1 where "generate_view_url X (f_name f) (f_key f) w = (Err e, w1)" "db w1 = db w" "bad_calls w = Suc (bad_calls w1)"
proof -
  obtain ft w1 where nf: "next_fault w = (ft, w1)" by (cases "next_fault w")
  have same: "db w1 = db w" using next_fault_fields(1) [of w] nf by simp
  show ?thesis
  proof (cases "\<exists>e. ft = Down e")
    case True
    with nf same bad_calls_next [OF nf] show ?thesis by (auto simp: generate_view_url_def s3_call_def intro: failed)
  next
    case False
    with nf have "generate_view_url X (f_name f) (f_key f) w = (Ok (view_link X f), w1)"
      by (simp add: generate_view_url_def s3_call_def view_link_def split: fault.split)
    moreover have "bad_calls w1 \<le> bad_calls w" using bad_calls_next [OF nf] by simp
    ultimately show ?thesis using same by (intro signed)
  qed
qed

text \<open>The links that could be signed; \<open>un\<close> are the files whose signing failed.\<close>

lemma sign_files_links:
  assumes "distinct (map f_id fs)"
  shows "\<exists>un w'. sign_files X fs urls w
      = (Ok (\<lambda>i. case row_by f_id i (filter (\<lambda>f. f \<notin> set un) fs) of None \<Rightarrow> urls i | Some f \<Rightarrow> Some (view_link X f)), w')
    \<and> set un \<subseteq> set fs \<and> distinct un \<and> length un + bad_calls w' \<le> bad_calls w"
  using assms
proof (induction fs arbitrary: urls w)
  case (Cons f fs)
  from Cons.prems have d: "distinct (map f_id fs)" and new: "f_id f \<notin> f_id ` set fs" "f \<notin> set fs" by auto
  show ?case
  proof (cases rule: generate_view_url_cases [of X f w])
    case (signed w1)
    let ?urls = "urls(f_id f \<mapsto> view_link X f)"
    from Cons.IH [OF d, of ?urls w1] obtain un w' where IH: "sign_files X fs ?urls w1
      = (Ok (\<lambda>i. case row_by f_id i (filter (\<lambda>f. f \<notin> set un) fs) of None \<Rightarrow> ?urls i | Some f \<Rightarrow> Some (view_link X f)), w')"
      "set un \<subseteq> set fs" "distinct un" "length un + bad_calls w' \<le> bad_calls w1" by blast
    from IH(2) new have "f \<notin> set un" "row_by f_id (f_id f) (filter (\<lambda>f. f \<notin> set un) fs) = None"
      by (auto simp: row_by_None_iff)
    then have "(\<lambda>i. case row_by f_id i (filter (\<lambda>f. f \<notin> set un) fs) of None \<Rightarrow> ?urls i | Some f \<Rightarrow> Some (view_link X f))
      = (\<lambda>i. case row_by f_id i (filter (\<lambda>f. f \<notin> set un) (f # fs)) of None \<Rightarrow> urls i | Some f \<Rightarrow> Some (view_link X f))"
      by (intro ext) (auto split: option.splits)
    with IH signed show ?thesis by (intro exI [of _ un] exI [of _ w']) (auto simp: attempt_def)
  next
    case (failed e w1)
    from Cons.IH [OF d, of urls w1] obtain un w' where IH: "sign_files X fs urls w1
      = (Ok (\<lambda>i. case row_by f_id i (filter (\<lambda>f. f \<notin> set un) fs) of None \<Rightarrow> urls i | Some f \<Rightarrow> Some (view_link X f)), w')"
      "set un \<subseteq> set fs" "distinct un" "length un + bad_calls w' \<le> bad_calls w1" by blast
    have "filter (\<lambda>g. g \<notin> set (f # un)) (f # fs) = filter (\<lambda>f. f \<notin> set un) fs"
      using new(2) by (simp cong: filter_cong) (rule filter_cong, auto)
    with IH failed new(2) show ?thesis by (intro exI [of _ "f # un"] exI [of _ w']) (auto simp: attempt_def)
  qed
qed (simp add: return_def)

lemma get_change_member: "get (change_member g f v) k = (if k = f then map_option g (get v f) else get v k)"
  by (cases v) (auto simp: change_member_def get_def put_def update_conv split: option.splits)

lemma get_change_members:
  "distinct (map fst cfgs) \<Longrightarrow> get (fold (\<lambda>(f, _). change_member g f) cfgs v) k
     = (if k \<in> fst ` set cfgs then map_option g (get v k) else get v k)"
proof (induction cfgs arbitrary: v)
  case (Cons fc cfgs)
  obtain f c where "fc = (f, c)" by (cases fc)
  with Cons show ?case by (auto simp: get_change_member)
qed simp

lemma row_by_filter: "i \<in> S \<Longrightarrow> row_by f_id i (filter (\<lambda>f. f_id f \<in> S) fs) = row_by f_id i fs"
  by (induction fs) auto

lemma in_concat_map: "x \<in> set xs \<Longrightarrow> u \<in> set (g x) \<Longrightarrow> u \<in> set (concat (map g xs))"
  by auto

lemma fetched:
  assumes "r \<in> set rs" and "f \<in> fst ` set cfgs" and "get (rd_data r) f = Some v"
    and "u \<in> set (collect_uuids_from_json_value X v)"
  shows "u \<in> set (file_ids_to_fetch X cfgs rs)"
proof -
  from assms(2) obtain c where c: "(f, c) \<in> set cfgs" by force
  show ?thesis unfolding file_ids_to_fetch_def
    by (rule in_concat_map [OF assms(1)], rule in_concat_map [OF c]) (simp add: assms(3,4))
qed


definition demo_photo :: file_row where
  "demo_photo = \<lparr>f_id = 1, f_record = 8, f_name = ''cv'', f_key = ''archive/8/1'', f_size = 1, f_mime = ''x'', f_by = Some 2\<rparr>"

definition demo_photo_world :: "fault list \<Rightarrow> world" where
  "demo_photo_world fs = (demo_world [] fs)\<lparr>db := empty_db\<lparr>files := [demo_photo]\<rparr>\<rparr>"

definition demo_photo_record :: record_dto where
  "demo_photo_record = \<lparr>rd_id = 9, rd_template = 5, rd_data = JObj [(''photo'', JStr ''a'')], rd_created = 0, rd_by = Some 3\<rparr>"


text \<open>The lookup succeeds and the signing fails: the record is handed out with the id.\<close>

lemma unsigned_file_keeps_its_id:
  "fst (enrich_archive_records_with_urls demo_externs demo_configs [demo_photo_record] (demo_photo_world [NoFault, Down TimeoutError]))
     = Ok [demo_photo_record]"
  by (simp add: enrich_archive_records_with_urls_def file_ids_to_fetch_def demo_photo_record_def demo_photo_world_def demo_world_def
      demo_configs_def demo_photo_def demo_externs_def demo_uuid_parse_def get_def and_then_def unexpected_def map_err_def select_def
      sql_def next_fault_def attempt_def generate_view_url_def s3_call_def return_def change_member_def put_def update_conv Let_def)

end
