(* ===== verification/Cleanup.thy ===== *)
theory Cleanup
  imports Archive
begin

text \<open>
  \<open>tasks/periodic/s3_cleanup.rs\<close> and the listing of \<open>utils/s3_storage.rs\<close>: objects that no row of the
  database refers to and that are old enough are deleted from the bucket.
\<close>

section \<open>Listing by prefix and age\<close>

text \<open>\<open>saturating_sub\<close> on \<open>i64\<close>.\<close>

definition saturating_sub :: "int \<Rightarrow> int \<Rightarrow> int" where
  "saturating_sub a b = max (- (2 ^ 63)) (min (2 ^ 63 - 1) (a - b))"

text \<open>\<open>min_age.as_secs() as i64\<close>.\<close>

definition age_seconds :: "duration \<Rightarrow> int" where
  "age_seconds d = sint (word_of_int (int (as_secs d)) :: i64)"

definition old_enough :: "int \<Rightarrow> int \<Rightarrow> s3_object \<Rightarrow> bool" where
  "old_enough now_secs min_age ob \<longleftrightarrow>
     min_age = 0 \<or> (case last_modified ob of None \<Rightarrow> False | Some t \<Rightarrow> min_age \<le> saturating_sub now_secs t)"

text \<open>
  The service answers a listing in pages of up to 1000 objects; the code follows the continuation
  tokens. A page that fails drops the keys found so far.
\<close>

definition list_page_size :: nat where
  "list_page_size = 1000"

fun list_pages :: "(s3_object \<Rightarrow> bool) \<Rightarrow> (string \<times> s3_object) list list \<Rightarrow> string list \<Rightarrow> (world, anyhow, string list) prog" where
  "list_pages p [] keys = return keys"
| "list_pages p (pg # pages) keys =
     and_then (s3_call ''listing of remote objects failed'' (\<lambda>w. (pg, w))) (\<lambda>objects.
       list_pages p pages (keys @ map fst (filter (\<lambda>(_, ob). p ob) objects)))"

definition list_object_keys_with_prefix_older_than :: "string \<Rightarrow> duration \<Rightarrow> (world, anyhow, string list) prog" where
  "list_object_keys_with_prefix_older_than pre min_age =
     and_then (gets (\<lambda>w. (clock w div 1000000, filter (\<lambda>(k, _). prefix pre k) (bucket w)))) (\<lambda>(now_secs, objects).
       list_pages (old_enough now_secs (age_seconds min_age))
         (if objects = [] then [[]] else chunks list_page_size objects) [])"

definition list_object_keys_with_prefix :: "string \<Rightarrow> (world, anyhow, string list) prog" where
  "list_object_keys_with_prefix pre = list_object_keys_with_prefix_older_than pre 0"

section \<open>The cleanup\<close>

text \<open>
  The object key of an avatar column: the SQL \<open>CASE\<close> removes the extension from a key that matches
  \<open>^avatar/.+\.[^./]+$\<close>.
\<close>

definition avatar_object_key :: "string \<Rightarrow> string" where
  "avatar_object_key key =
     (case strip_prefix ''avatar/'' key of
        None \<Rightarrow> key
      | Some rest \<Rightarrow>
          (case rsplit_dot rest of
             None \<Rightarrow> key
           | Some (stem, ext) \<Rightarrow> if stem \<noteq> [] \<and> ext \<noteq> [] \<and> CHR ''/'' \<notin> set ext then ''avatar/'' @ stem else key))"

definition archive_keys_in_db :: "database \<Rightarrow> string list" where
  "archive_keys_in_db d = filter (prefix ''archive/'') (map f_key (files d))"

definition avatar_keys_in_db :: "database \<Rightarrow> string list" where
  "avatar_keys_in_db d =
     filter (\<lambda>k. k \<noteq> []) (map avatar_object_key (filter (prefix ''avatar/'') (List.map_filter u_avatar (users d))))"

definition remove_orphans :: "duration \<Rightarrow> (world, anyhow, unit) prog" where
  "remove_orphans min_age =
     and_then (list_object_keys_with_prefix_older_than ''archive/'' min_age) (\<lambda>archive_keys.
     and_then (list_object_keys_with_prefix_older_than ''avatar/'' min_age) (\<lambda>avatar_keys.
     and_then (select (\<lambda>_. archive_keys_in_db)) (\<lambda>archive_db.
     and_then (select (\<lambda>_. avatar_keys_in_db)) (\<lambda>avatar_db.
       let orphans = filter (\<lambda>k. k \<notin> set archive_db) archive_keys @ filter (\<lambda>k. k \<notin> set avatar_db) avatar_keys
       in if orphans = [] then return () else delete_objects orphans))))"

text \<open>
  \<open>lock_free\<close> is what \<open>pg_try_advisory_lock\<close> answers. The lock is released whatever happened, a failure
  of the release is logged.
\<close>

definition cleanup_orphan_persistent_objects :: "bool \<Rightarrow> duration \<Rightarrow> (world, anyhow, unit) prog" where
  "cleanup_orphan_persistent_objects lock_free min_age =
     and_then (select (\<lambda>_ _. ())) (\<lambda>_.
     and_then (select (\<lambda>_ _. lock_free)) (\<lambda>acquired.
     if \<not> acquired then return ()
     else attempt (remove_orphans min_age) (\<lambda>r.
       attempt (select (\<lambda>_ _. True)) (\<lambda>_. case r of Inl e \<Rightarrow> throw e | Inr u \<Rightarrow> return u))))"

section \<open>Listing\<close>

lemma list_pages_outcome:
  "list_pages p pages keys w = (r, w') \<Longrightarrow> r \<noteq> Panic \<and> db w' = db w \<and> bucket w' = bucket w \<and> clock w' = clock w
     \<and> bad_calls w' \<le> bad_calls w
     \<and> (\<forall>ks. r = Ok ks \<longrightarrow> ks = keys @ map fst (filter (\<lambda>(_, ob). p ob) (concat pages)))
     \<and> ((\<exists>ks. r = Ok ks) \<or> bad_calls w' < bad_calls w)"
proof (induction pages arbitrary: keys w)
  case Nil
  then show ?case by (auto simp: return_def)
next
  case (Cons pg pages)
  obtain f fs where nf: "next_fault w = (f, w\<lparr>faults := fs\<rparr>)" by (rule next_fault_cases)
  note bad = bad_calls_next [OF nf]
  let ?w1 = "w\<lparr>faults := fs\<rparr>"
  show ?case
  proof (cases "\<exists>e. f = Down e")
    case True
    with Cons.prems nf bad show ?thesis by (auto simp: s3_call_def and_then_def)
  next
    case False
    then have page: "(s3_call ''listing of remote objects failed'' (\<lambda>w. (pg, w))) w = ((Ok pg :: (anyhow, _) result), ?w1)"
      using nf by (cases f) (simp_all add: s3_call_def)
    with Cons.prems have "list_pages p pages (keys @ map fst (filter (\<lambda>(_, ob). p ob) pg)) ?w1 = (r, w')"
      by (simp add: and_then_def)
    from Cons.IH [OF this] bad show ?thesis by auto
  qed
qed

text \<open>What a listing that succeeds returns: every old object under the prefix.\<close>

definition old_keys :: "string \<Rightarrow> duration \<Rightarrow> world \<Rightarrow> string list" where
  "old_keys pre min_age w =
     map fst (filter (\<lambda>(k, ob). prefix pre k \<and> old_enough (clock w div 1000000) (age_seconds min_age) ob) (bucket w))"

lemma listing_outcome:
  assumes "list_object_keys_with_prefix_older_than pre min_age w = (r, w')"
  shows "r \<noteq> Panic \<and> db w' = db w \<and> bucket w' = bucket w \<and> clock w' = clock w \<and> bad_calls w' \<le> bad_calls w
    \<and> (r = Ok (old_keys pre min_age w) \<or> (\<forall>ks. r \<noteq> Ok ks) \<and> bad_calls w' < bad_calls w)"
proof -
  let ?objects = "filter (\<lambda>(k, _). prefix pre k) (bucket w)" and ?p = "old_enough (clock w div 1000000) (age_seconds min_age)"
  let ?pages = "if ?objects = [] then [[]] else chunks list_page_size ?objects"
  have run: "list_pages ?p ?pages [] w = (r, w')"
    using assms by (simp add: list_object_keys_with_prefix_older_than_def)
  have "concat ?pages = ?objects" by (simp add: concat_chunks list_page_size_def)
  then have "map fst (filter (\<lambda>(_, ob). ?p ob) (concat ?pages)) = old_keys pre min_age w"
    by (simp add: old_keys_def case_prod_unfold conj_commute)
  with list_pages_outcome [OF run] show ?thesis by auto
qed

section \<open>What a cleanup removes\<close>

lemma select_outcome:
  assumes "select q w = (r, w')"
  shows "r \<noteq> Panic \<and> db w' = db w \<and> bucket w' = bucket w \<and> clock w' = clock w \<and> bad_calls w' \<le> bad_calls w
    \<and> (r = Ok (q (clock w) (db w)) \<or> (\<forall>x. r \<noteq> Ok x) \<and> bad_calls w' < bad_calls w)"
proof -
  obtain f fs where nf: "next_fault w = (f, w\<lparr>faults := fs\<rparr>)" by (rule next_fault_cases)
  from bad_calls_next [OF nf] show ?thesis
    using assms nf by (auto simp: select_def sql_def split: if_splits)
qed

definition orphan_keys :: "duration \<Rightarrow> world \<Rightarrow> string list" where
  "orphan_keys min_age w =
     filter (\<lambda>k. k \<notin> set (archive_keys_in_db (db w))) (old_keys ''archive/'' min_age w)
     @ filter (\<lambda>k. k \<notin> set (avatar_keys_in_db (db w))) (old_keys ''avatar/'' min_age w)"

lemma old_keys_same: "bucket w' = bucket w \<Longrightarrow> clock w' = clock w \<Longrightarrow> old_keys pre min_age w' = old_keys pre min_age w"
  by (simp add: old_keys_def)

lemma remove_orphans_outcome:
  assumes run: "remove_orphans min_age w = (r, w')"
  shows "db w' = db w \<and> stored_keys w' \<subseteq> stored_keys w \<and> stored_keys w - set (orphan_keys min_age w) \<subseteq> stored_keys w'
    \<and> (bad_calls w = 0 \<longrightarrow> r = Ok () \<and> set (orphan_keys min_age w) \<inter> stored_keys w' = {})"
proof -
  define quits where "quits v \<longleftrightarrow> db v = db w \<and> bucket v = bucket w \<and> bad_calls w \<noteq> 0" for v :: world
  have stop: ?thesis if "quits w'" using that by (auto simp: quits_def stored_keys_def)
  obtain r1 w1 where l1: "list_object_keys_with_prefix_older_than ''archive/'' min_age w = (r1, w1)" by (metis surj_pair)
  note L1 = listing_outcome [OF l1]
  show ?thesis
  proof (cases "\<exists>ks. r1 = Ok ks")
    case False
    with run l1 L1 have "quits w'" by (cases r1) (auto simp: remove_orphans_def and_then_def quits_def)
    then show ?thesis by (rule stop)
  next
    case True
    with L1 have r1: "r1 = Ok (old_keys ''archive/'' min_age w)" by auto
    obtain r2 w2 where l2: "list_object_keys_with_prefix_older_than ''avatar/'' min_age w1 = (r2, w2)" by (metis surj_pair)
    note L2 = listing_outcome [OF l2]
    show ?thesis
    proof (cases "\<exists>ks. r2 = Ok ks")
      case False
      with run l1 r1 l2 L1 L2 have "quits w'" by (cases r2) (auto simp: remove_orphans_def and_then_def quits_def)
      then show ?thesis by (rule stop)
    next
      case True
      with L1 L2 have r2: "r2 = Ok (old_keys ''avatar/'' min_age w)" using old_keys_same [of w1 w] by auto
      obtain r3 w3 where s3: "select (\<lambda>_. archive_keys_in_db) w2 = (r3, w3)" by (metis surj_pair)
      note S3 = select_outcome [OF s3]
      show ?thesis
      proof (cases "\<exists>ks. r3 = Ok ks")
        case False
        with run l1 r1 l2 r2 s3 L1 L2 S3 have "quits w'" by (cases r3) (auto simp: remove_orphans_def and_then_def quits_def)
        then show ?thesis by (rule stop)
      next
        case True
        with S3 L1 L2 have r3: "r3 = Ok (archive_keys_in_db (db w))" by auto
        obtain r4 w4 where s4: "select (\<lambda>_. avatar_keys_in_db) w3 = (r4, w4)" by (metis surj_pair)
        note S4 = select_outcome [OF s4]
        show ?thesis
        proof (cases "\<exists>ks. r4 = Ok ks")
          case False
          with run l1 r1 l2 r2 s3 r3 s4 L1 L2 S3 S4 have "quits w'"
            by (cases r4) (auto simp: remove_orphans_def and_then_def quits_def)
          then show ?thesis by (rule stop)
        next
          case True
          with S4 S3 L1 L2 have r4: "r4 = Ok (avatar_keys_in_db (db w))" by auto
          have same: "db w4 = db w" "stored_keys w4 = stored_keys w" "bad_calls w4 \<le> bad_calls w"
            using L1 L2 S3 S4 by (auto simp: stored_keys_def)
          have final: "(if orphan_keys min_age w = [] then return () else delete_objects (orphan_keys min_age w)) w4 = (r, w')"
            using run [unfolded remove_orphans_def] unfolding orphan_keys_def
            by (simp only: and_then_def l1 r1 l2 r2 s3 r3 s4 r4 prod.case result.case Let_def)
          show ?thesis
          proof (cases "orphan_keys min_age w = []")
            case True
            with final same show ?thesis by (simp add: return_def)
          next
            case False
            with final have "delete_objects (orphan_keys min_age w) w4 = (r, w')" by simp
            from delete_objects_outcome [OF this] same show ?thesis by auto
          qed
        qed
      qed
    qed
  qed
qed

lemma cleanup_outcome:
  assumes run: "cleanup_orphan_persistent_objects lock_free min_age w = (r, w')"
  shows "db w' = db w \<and> stored_keys w' \<subseteq> stored_keys w \<and> stored_keys w - set (orphan_keys min_age w) \<subseteq> stored_keys w'
    \<and> (lock_free \<and> bad_calls w = 0 \<longrightarrow> r = Ok () \<and> set (orphan_keys min_age w) \<inter> stored_keys w' = {})
    \<and> (\<not> lock_free \<longrightarrow> stored_keys w' = stored_keys w)"
proof -
  have stop: ?thesis if "db w' = db w" "bucket w' = bucket w" "lock_free \<longrightarrow> bad_calls w \<noteq> 0"
    using that by (auto simp: stored_keys_def)
  obtain r1 w1 where s1: "select (\<lambda>_ _. ()) w = (r1, w1)" by (metis surj_pair)
  note S1 = select_outcome [OF s1]
  show ?thesis
  proof (cases "r1 = Ok ()")
    case False
    then have "\<forall>x. r1 \<noteq> Ok x" by simp
    with run s1 S1 False have "w' = w1" by (cases r1) (auto simp: cleanup_orphan_persistent_objects_def and_then_def)
    with S1 False show ?thesis by (intro stop) auto
  next
    case True
    obtain r2 w2 where s2: "select (\<lambda>_ _. lock_free) w1 = (r2, w2)" by (metis surj_pair)
    note S2 = select_outcome [OF s2]
    show ?thesis
    proof (cases "r2 = Ok True")
      case False
      with run s1 True s2 S2 have "w' = w2"
        by (cases r2) (auto simp: cleanup_orphan_persistent_objects_def and_then_def return_def split: if_splits)
      with S1 S2 False show ?thesis by (intro stop) auto
    next
      case locked: True
      obtain r3 w3 where rem: "remove_orphans min_age w2 = (r3, w3)" by (metis surj_pair)
      note R = remove_orphans_outcome [OF rem]
      obtain r4 w4 where s4: "select (\<lambda>_ _. True) w3 = (r4, w4)" by (metis surj_pair)
      note S4 = select_outcome [OF s4]
      have same: "orphan_keys min_age w2 = orphan_keys min_age w" "stored_keys w2 = stored_keys w" "db w2 = db w" "bad_calls w2 \<le> bad_calls w"
        using S1 S2 by (simp_all add: orphan_keys_def old_keys_def stored_keys_def)
      have "r3 \<noteq> Panic \<longrightarrow> w' = w4 \<and> r = r3"
        using run s1 True s2 locked rem s4 S4
        by (cases r3; cases r4) (auto simp: cleanup_orphan_persistent_objects_def and_then_def attempt_def return_def throw_def)
      moreover have "r3 = Panic \<longrightarrow> w' = w3"
        using run s1 True s2 locked rem
        by (auto simp: cleanup_orphan_persistent_objects_def and_then_def attempt_def)
      moreover have "stored_keys w4 = stored_keys w3" "db w4 = db w3" using S4 by (simp_all add: stored_keys_def)
      ultimately have "stored_keys w' = stored_keys w3" "db w' = db w3" "r3 = Ok () \<longrightarrow> r = Ok ()" by auto
      moreover have "lock_free" using S2 locked by auto
      ultimately show ?thesis using R same by auto
    qed
  qed
qed

section \<open>Properties\<close>

definition avatars :: "database \<Rightarrow> string set" where
  "avatars d = {key. Some key \<in> u_avatar ` set (users d)}"

lemma old_keysD: "k \<in> set (old_keys pre min_age w) \<Longrightarrow> prefix pre k
    \<and> (\<exists>ob. (k, ob) \<in> set (bucket w) \<and> old_enough (clock w div 1000000) (age_seconds min_age) ob)"
  by (auto simp: old_keys_def)

lemma avatar_db_keys:
  assumes "key \<in> avatars d" and "prefix ''avatar/'' (avatar_object_key key)"
  shows "avatar_object_key key \<in> set (avatar_keys_in_db d)"
proof -
  have "prefix ''avatar/'' key"
    using assms(2) by (auto simp: avatar_object_key_def strip_prefix_def split: option.splits if_splits)
  moreover have "avatar_object_key key \<noteq> []" using assms(2) by auto
  moreover obtain u where "u \<in> set (users d)" "u_avatar u = Some key"
    using assms(1) by (auto simp: avatars_def)
  then have "key \<in> set (List.map_filter u_avatar (users d))" by (force simp: List.map_filter_def)
  ultimately show ?thesis by (simp add: avatar_keys_in_db_def)
qed

text \<open>C12: A cleanup deletes nothing that is in use or too young. Whatever calls fail, an object that disappears
  lies under \<open>archive/\<close> and belongs to no file row, or lies under \<open>avatar/\<close> and is the object of no user's
  avatar; its last change is at least the configured number of seconds ago; and the tables
  stay as they are.\<close>

theorem cleanup_spares_what_is_in_use:
  assumes "cleanup_orphan_persistent_objects lock_free min_age w = (r, w')"
    and "k \<in> stored_keys w" and "k \<notin> stored_keys w'"
  shows "db w' = db w \<and> lock_free
    \<and> (prefix ''archive/'' k \<and> k \<notin> f_key ` set (files (db w))
       \<or> prefix ''avatar/'' k \<and> k \<notin> avatar_object_key ` avatars (db w))
    \<and> (\<exists>ob. (k, ob) \<in> set (bucket w) \<and> old_enough (clock w div 1000000) (age_seconds min_age) ob)"
proof -
  note C = cleanup_outcome [OF assms(1)]
  with assms(2,3) have k: "k \<in> set (orphan_keys min_age w)" and "lock_free" by auto
  from k consider "k \<in> set (old_keys ''archive/'' min_age w)" "k \<notin> set (archive_keys_in_db (db w))"
    | "k \<in> set (old_keys ''avatar/'' min_age w)" "k \<notin> set (avatar_keys_in_db (db w))"
    by (auto simp: orphan_keys_def)
  then show ?thesis
  proof cases
    case 1
    with old_keysD [OF 1(1)] C \<open>lock_free\<close> show ?thesis by (auto simp: archive_keys_in_db_def)
  next
    case 2
    note old = old_keysD [OF 2(1)]
    have "k \<notin> avatar_object_key ` avatars (db w)" using old 2(2) avatar_db_keys [of _ "db w"] by auto
    with old C \<open>lock_free\<close> show ?thesis by simp
  qed
qed

text \<open>C32: When no call fails and no other instance holds the lock, a cleanup removes every orphan: each
  object under the two prefixes that is old enough and that no row refers to is gone afterwards, and
  nothing else.\<close>

theorem cleanup_removes_every_orphan:
  assumes "bad_calls w = 0" and "cleanup_orphan_persistent_objects True min_age w = (r, w')"
  shows "r = Ok () \<and> stored_keys w' = stored_keys w - set (orphan_keys min_age w)"
  using cleanup_outcome [OF assms(2)] assms(1) by auto

text \<open>The object of an avatar that was stored by the avatar handler is recognised.\<close>

lemma stored_avatar_key:
  assumes "uuid_codec X" and "build_avatar_key (build_avatar_dest_key X uid) fname = Inr key"
    and "path_extension fname \<noteq> Some []" and "x_uuid_str X uid \<noteq> []"
  shows "avatar_object_key key = build_avatar_dest_key X uid"
proof -
  from assms(2,3) obtain e where e: "path_extension fname = Some e" "e \<noteq> []"
    and key: "key = ''avatar/'' @ (x_uuid_str X uid @ CHR ''.'' # e)"
    by (auto simp: build_avatar_key_def build_avatar_dest_key_def split: option.splits)
  have "strip_prefix ''avatar/'' key = Some (x_uuid_str X uid @ CHR ''.'' # e)" unfolding key by (rule strip_prefix_append)
  moreover have "rsplit_dot (x_uuid_str X uid @ CHR ''.'' # e) = Some (x_uuid_str X uid, e)"
    using path_extension_no_dot_slash [OF e(1)] by (intro rsplit_dot_append) blast
  ultimately show ?thesis using path_extension_no_dot_slash [OF e(1)] e(2) assms(4)
    by (simp add: avatar_object_key_def build_avatar_dest_key_def)
qed

definition demo_cleanup_world :: world where
  "demo_cleanup_world = (demo_world [] [])\<lparr>clock := 7200000000,
     bucket := [(''archive/7/1'', blank_object\<lparr>last_modified := Some 0\<rparr>), (''archive/7/2'', blank_object\<lparr>last_modified := Some 7000\<rparr>),
                (''avatar/a'', blank_object\<lparr>last_modified := Some 0\<rparr>), (''temp/1'', blank_object\<lparr>last_modified := Some 0\<rparr>)],
     db := empty_db\<lparr>users := [(demo_user 1)\<lparr>u_avatar := Some ''avatar/a.png''\<rparr>]\<rparr>\<rparr>"

lemma demo_orphans: "orphan_keys (from_secs 3600) demo_cleanup_world = [''archive/7/1'']"
  by (simp add: orphan_keys_def old_keys_def demo_cleanup_world_def demo_world_def empty_db_def blank_object_def old_enough_def
      age_seconds_def as_secs_def from_secs_def saturating_sub_def archive_keys_in_db_def avatar_keys_in_db_def
      avatar_object_key_def strip_prefix_def rsplit_dot_def List.map_filter_def)

lemma demo_cleanup_facts: "bad_calls demo_cleanup_world = 0"
  "stored_keys demo_cleanup_world = {''archive/7/1'', ''archive/7/2'', ''avatar/a'', ''temp/1''}"
  by (simp_all add: bad_calls_def stored_keys_def demo_cleanup_world_def demo_world_def)

theorem cleanup_removes_every_orphan_witness:
  "\<exists>w'. cleanup_orphan_persistent_objects True (from_secs 3600) demo_cleanup_world = (Ok (), w')
     \<and> stored_keys w' = {''archive/7/2'', ''avatar/a'', ''temp/1''}"
proof -
  obtain r w' where run: "cleanup_orphan_persistent_objects True (from_secs 3600) demo_cleanup_world = (r, w')" by (metis surj_pair)
  from cleanup_removes_every_orphan [OF demo_cleanup_facts(1) run] run show ?thesis
    by (auto simp: demo_orphans demo_cleanup_facts(2))
qed

theorem cleanup_spares_what_is_in_use_witness:
  "\<exists>r w'. cleanup_orphan_persistent_objects True (from_secs 3600) demo_cleanup_world = (r, w')
     \<and> ''archive/7/1'' \<notin> f_key ` set (files (db demo_cleanup_world)) \<and> db w' = db demo_cleanup_world"
proof -
  obtain r w' where run: "cleanup_orphan_persistent_objects True (from_secs 3600) demo_cleanup_world = (r, w')" by (metis surj_pair)
  have gone: "''archive/7/1'' \<notin> stored_keys w'" and there: "''archive/7/1'' \<in> stored_keys demo_cleanup_world"
    using cleanup_outcome [OF run] demo_cleanup_facts by (auto simp: demo_orphans)
  from cleanup_spares_what_is_in_use [OF run there gone] run show ?thesis by auto
qed

text \<open> The avatar handler and the cleanup agree on the object of an avatar: the picture a user's
  row refers to, under a key that was built from the metadata of the upload, is still in the storage
  after a cleanup, whatever its age and whichever calls fail.\<close>

theorem stored_avatars_survive_cleanups:
  assumes "uuid_codec X" and "build_avatar_key (build_avatar_dest_key X uid) fname = Inr key"
    and "path_extension fname \<noteq> Some []" and "x_uuid_str X uid \<noteq> []"
    and "Some key \<in> u_avatar ` set (users (db w))" and "build_avatar_dest_key X uid \<in> stored_keys w"
    and "cleanup_orphan_persistent_objects lock_free min_age w = (r, w')"
  shows "build_avatar_dest_key X uid \<in> stored_keys w'"
proof -
  let ?k = "build_avatar_dest_key X uid"
  have key: "avatar_object_key key = ?k" by (rule stored_avatar_key [OF assms(1-4)])
  have pre: "prefix ''avatar/'' ?k" by (simp add: build_avatar_dest_key_def)
  have "key \<in> avatars (db w)" using assms(5) by (simp add: avatars_def)
  from avatar_db_keys [OF this] key pre have "?k \<in> set (avatar_keys_in_db (db w))" by simp
  moreover have "?k \<notin> set (old_keys ''archive/'' min_age w)"
    by (auto simp: old_keys_def build_avatar_dest_key_def)
  ultimately have "?k \<notin> set (orphan_keys min_age w)" by (simp add: orphan_keys_def)
  with cleanup_outcome [OF assms(7)] assms(6) show ?thesis by blast
qed

theorem stored_avatars_survive_cleanups_witness:
  "\<exists>r w'. cleanup_orphan_persistent_objects True (from_secs 3600) demo_cleanup_world = (r, w') \<and> ''avatar/a'' \<in> stored_keys w'"
proof -
  obtain r w' where run: "cleanup_orphan_persistent_objects True (from_secs 3600) demo_cleanup_world = (r, w')" by (metis surj_pair)
  have d: "build_avatar_dest_key demo_externs 1 = ''avatar/a''" "x_uuid_str demo_externs 1 = ''a''"
    by (simp_all add: build_avatar_dest_key_def demo_externs_def demo_uuid_str_def)
  have "path_extension ''me.png'' = Some ''png''"
    by (simp add: path_extension_def path_file_name_def rsplit_dot_def Let_def)
  then have ext: "path_extension ''me.png'' \<noteq> Some []"
    and key: "build_avatar_key (build_avatar_dest_key demo_externs 1) ''me.png'' = Inr ''avatar/a.png''"
    by (simp_all add: d build_avatar_key_def)
  have uid: "x_uuid_str demo_externs 1 \<noteq> []" by (simp add: d)
  have row: "Some ''avatar/a.png'' \<in> u_avatar ` set (users (db demo_cleanup_world))" by (simp add: demo_cleanup_world_def)
  have there: "build_avatar_dest_key demo_externs 1 \<in> stored_keys demo_cleanup_world" by (simp add: d demo_cleanup_facts(2))
  from stored_avatars_survive_cleanups [OF demo_uuid_codec key ext uid row there run] run show ?thesis by (auto simp: d)
qed

end
