(* ===== verification/Startup.thy ===== *)
theory Startup
  imports Archive
begin

text \<open>
  \<open>startup.rs\<close> and the task settings of \<open>configuration.rs\<close>: the settings a server runs with, the first
  administrator, and the state the task runtime starts in. Connecting to the services,
  reading the configuration files and binding the socket are I/O and not modelled.
\<close>

section \<open>Task settings\<close>

record task_settings =
  orphan_cleanup_interval_seconds :: "64 word"
  orphan_cleanup_min_age_seconds :: "64 word"
  command_queue_size :: "64 word"
  command_worker_concurrency :: "64 word"
  command_worker_enabled :: bool
  outbox_pull_interval_millis :: "64 word"
  outbox_pull_batch_size :: "64 word"
  outbox_running_timeout_seconds :: "64 word"

definition default_task_settings :: task_settings where
  "default_task_settings =
     \<lparr>orphan_cleanup_interval_seconds = 60 * 60, orphan_cleanup_min_age_seconds = 60 * 60,
      command_queue_size = 1024, command_worker_concurrency = 32, command_worker_enabled = True,
      outbox_pull_interval_millis = 500, outbox_pull_batch_size = 100, outbox_running_timeout_seconds = 5 * 60\<rparr>"

definition or_default :: "64 word \<Rightarrow> 64 word \<Rightarrow> 64 word" where
  "or_default v d = (if v = 0 then d else v)"

definition sanitize_task_settings :: "task_settings \<Rightarrow> task_settings" where
  "sanitize_task_settings s =
     \<lparr>orphan_cleanup_interval_seconds = or_default (orphan_cleanup_interval_seconds s) (orphan_cleanup_interval_seconds default_task_settings),
      orphan_cleanup_min_age_seconds = or_default (orphan_cleanup_min_age_seconds s) (orphan_cleanup_min_age_seconds default_task_settings),
      command_queue_size = or_default (command_queue_size s) (command_queue_size default_task_settings),
      command_worker_concurrency = or_default (command_worker_concurrency s) (command_worker_concurrency default_task_settings),
      command_worker_enabled = command_worker_enabled s,
      outbox_pull_interval_millis = or_default (outbox_pull_interval_millis s) (outbox_pull_interval_millis default_task_settings),
      outbox_pull_batch_size = or_default (outbox_pull_batch_size s) (outbox_pull_batch_size default_task_settings),
      outbox_running_timeout_seconds = or_default (outbox_running_timeout_seconds s) (outbox_running_timeout_seconds default_task_settings)\<rparr>"

section \<open>The first administrator\<close>

text \<open>\<open>INSERT .. SELECT .. WHERE NOT EXISTS (SELECT 1 FROM sys_user)\<close>: no row is inserted beside others.\<close>

definition admin_row :: "uuid \<Rightarrow> string \<Rightarrow> string \<Rightarrow> int \<Rightarrow> user_row" where
  "admin_row fresh nm h now =
     \<lparr>u_id = fresh, u_name = nm, u_nickname = ''system administrator'', u_hash = h, u_role = ''ADMIN'', u_email = None,
      u_phone = None, u_avatar = None, u_major = None, u_college = None, u_active = True, u_created = now\<rparr>"

definition insert_first_admin :: "uuid \<Rightarrow> string \<Rightarrow> string \<Rightarrow> uuid option stmt" where
  "insert_first_admin fresh nm h now d =
     (if users d \<noteq> [] then Inr (None, d)
      else if \<not> user_fits (admin_row fresh nm h now) then Inl ''22001''
      else Inr (Some fresh, d\<lparr>users := [admin_row fresh nm h now]\<rparr>))"

definition create_first_admin :: "externs \<Rightarrow> string \<Rightarrow> string \<Rightarrow> (world, anyhow, (string \<times> string) option) prog" where
  "create_first_admin X nm pw =
     and_then (hash_password X pw) (\<lambda>h.
     and_then new_uuid (\<lambda>fresh.
     and_then (map_err (\<lambda>_. Anyhow ''failed to bootstrap admin user'') (sql (insert_first_admin fresh nm h))) (\<lambda>inserted.
     return (map_option (\<lambda>_. (nm, pw)) inserted))))"

text \<open>
  \<open>simple\<close> is the hexadecimal form of an id. The result is the pair of user name and password the server
  writes to its log.
\<close>

definition ensure_bootstrap_admin_if_empty :: "externs \<Rightarrow> (uuid \<Rightarrow> string) \<Rightarrow> (world, anyhow, (string \<times> string) option) prog" where
  "ensure_bootstrap_admin_if_empty X simple =
     and_then (map_err (\<lambda>_. Anyhow ''failed to query sys_user count'') (select (\<lambda>_ d. length (users d)))) (\<lambda>n.
     if 0 < n then return None
     else
       and_then new_uuid (\<lambda>a.
       and_then new_uuid (\<lambda>b.
       and_then new_uuid (\<lambda>c.
       create_first_admin X (''bootstrap_admin_'' @ take 8 (simple a)) (''Adm!'' @ simple b @ simple c)))))"

section \<open>The task runtime\<close>

record task_runtime =
  rt_workers :: "nat option"
  rt_pull :: "(nat \<times> duration) option"
  rt_cleanup_age :: duration

text \<open>
  \<open>TaskManager::new_pair\<close>: \<open>mpsc::channel\<close> panics for no capacity and for more than \<open>usize::MAX >> 3\<close> slots.
\<close>

definition new_pair :: "64 word \<Rightarrow> (world, 'e, unit) prog" where
  "new_pair n =
     (if n = 0 \<or> 2 ^ 61 - 1 < n then panic
      else modify (\<lambda>w. w\<lparr>queue := [], queue_capacity := unat n, queue_closed := False, dropped_full := 0, dropped_closed := 0\<rparr>))"

text \<open>With workers the outbox is recovered, a failure of this is logged; without workers the channel is closed.\<close>

definition setup_task_runtime :: "task_settings \<Rightarrow> (world, 'e, task_runtime) prog" where
  "setup_task_runtime s =
     and_then (new_pair (command_queue_size s)) (\<lambda>_.
     let timeout = from_secs (unat (outbox_running_timeout_seconds s)); age = from_secs (unat (orphan_cleanup_min_age_seconds s))
     in if command_worker_enabled s then
          attempt (recover_outbox_tasks timeout) (\<lambda>_.
            return \<lparr>rt_workers = Some (max 1 (unat (command_worker_concurrency s))),
                    rt_pull = Some (unat (outbox_pull_batch_size s), timeout), rt_cleanup_age = age\<rparr>)
        else
          and_then (modify (\<lambda>w. w\<lparr>queue_closed := True\<rparr>)) (\<lambda>_.
            return \<lparr>rt_workers = None, rt_pull = None, rt_cleanup_age = age\<rparr>))"

section \<open>Properties\<close>

text \<open>The settings a server runs with are usable and respect the configuration: every interval, size and
  limit is positive, a configured value is only replaced when it is zero, and checking the settings
  again changes nothing.\<close>

theorem sanitized_settings_are_usable:
  "list_all (\<lambda>field. field (sanitize_task_settings s) \<noteq> 0
      \<and> field (sanitize_task_settings s) = (if field s = 0 then field default_task_settings else field s))
     [orphan_cleanup_interval_seconds, orphan_cleanup_min_age_seconds, command_queue_size, command_worker_concurrency,
      outbox_pull_interval_millis, outbox_pull_batch_size, outbox_running_timeout_seconds]
   \<and> command_worker_enabled (sanitize_task_settings s) = command_worker_enabled s
   \<and> sanitize_task_settings (sanitize_task_settings s) = sanitize_task_settings s"
  by (simp add: sanitize_task_settings_def or_default_def default_task_settings_def)

lemma hash_password_frame:
  assumes "hash_password X p w = (r, w')"
  shows "db w' = db w \<and> (\<forall>h. r = Ok h \<longrightarrow> (\<exists>salt. x_hash X salt p = Some h))"
  using assms by (auto simp: hash_password_def and_then_def new_uuid_def throw_def return_def split: option.splits)

lemma bootstrap_insert:
  assumes run: "map_err g (sql (insert_first_admin fresh nm h)) w = (r, w')" and empty: "users (db w) = []"
  shows "(r \<noteq> Ok None) \<and> ((\<exists>e. r = Err e) \<and> db w' = db w
    \<or> (\<exists>now. r = Ok (Some fresh) \<and> db w' = (db w)\<lparr>users := [admin_row fresh nm h now]\<rparr>))"
proof (cases rule: sql_cases [of "insert_first_admin fresh nm h" w])
  case (err e fs)
  with run show ?thesis by (auto simp: map_err_def)
next
  case (ok x d fs)
  with run empty show ?thesis by (auto simp: map_err_def insert_first_admin_def split: if_splits)
qed

text \<open>C33: The bootstrap touches no existing account: unless the table of users is empty the tables stay as they are. If it
  is empty, either an error is reported and nothing changes, or there is exactly one user, an enabled
  administrator, and the logged user name and password pass the login check, provided a password
  verifies against its own hash.\<close>

theorem bootstrap_creates_one_working_admin:
  assumes "\<And>salt p h. x_hash X salt p = Some h \<Longrightarrow> x_verify X h p"
    and "ensure_bootstrap_admin_if_empty X simple w = (r, w')"
  shows "db w' = db w \<and> (users (db w) = [] \<longrightarrow> (\<forall>x. r \<noteq> Ok x))
    \<or> (\<exists>u nm pw. users (db w) = [] \<and> r = Ok (Some (nm, pw)) \<and> db w' = (db w)\<lparr>users := [u]\<rparr>
        \<and> u_name u = nm \<and> u_role u = ''ADMIN'' \<and> u_active u
        \<and> fst (validate_user_password X nm pw (w'\<lparr>faults := []\<rparr>)) = Ok (u_id u, ADMIN))"
proof -
  obtain f fs where nf: "next_fault w = (f, w\<lparr>faults := fs\<rparr>)" by (rule next_fault_cases)
  let ?w1 = "w\<lparr>faults := fs\<rparr>"
  show ?thesis
  proof (cases "f = NoFault \<and> users (db w) = []")
    case False
    then show ?thesis using assms(2) nf
      by (auto simp: ensure_bootstrap_admin_if_empty_def select_def sql_def and_then_def map_err_def return_def split: if_splits)
  next
    case True
    let ?w2 = "?w1\<lparr>drawn := drawn w + 3\<rparr>"
    obtain nm pw where rest: "create_first_admin X nm pw ?w2 = (r, w')"
      using assms(2) nf True by (simp add: ensure_bootstrap_admin_if_empty_def select_def sql_def and_then_def map_err_def
          new_uuid_def numeral_3_eq_3)
    obtain r3 w3 where hash: "hash_password X pw ?w2 = (r3, w3)" by (metis surj_pair)
    note H = hash_password_frame [OF hash]
    show ?thesis
    proof (cases "\<exists>h. r3 = Ok h")
      case False
      with rest hash H show ?thesis by (cases r3) (auto simp: create_first_admin_def and_then_def)
    next
      case True
      then obtain h where h: "r3 = Ok h" by blast
      let ?w4 = "w3\<lparr>drawn := Suc (drawn w3)\<rparr>" and ?fresh = "fresh_uuids w3 (drawn w3)"
      obtain r5 w5 where ins: "map_err (\<lambda>_. Anyhow ''failed to bootstrap admin user'') (sql (insert_first_admin ?fresh nm h)) ?w4 = (r5, w5)"
        by (metis surj_pair)
      have "users (db ?w4) = []" using H \<open>f = NoFault \<and> users (db w) = []\<close> by simp
      note I = bootstrap_insert [OF ins this]
      have out: "(case r5 of Ok x \<Rightarrow> (Ok (map_option (\<lambda>_. (nm, pw)) x), w5) | Err e \<Rightarrow> (Err e, w5) | Panic \<Rightarrow> (Panic, w5)) = (r, w')"
        using rest hash h ins by (cases r5) (simp_all add: create_first_admin_def and_then_def new_uuid_def return_def)
      from I consider e where "r5 = Err e" "db w5 = db w3"
        | now where "r5 = Ok (Some ?fresh)" "db w5 = (db w3)\<lparr>users := [admin_row ?fresh nm h now]\<rparr>" by auto
      then show ?thesis
      proof cases
        case 1
        with out H show ?thesis by auto
      next
        case 2
        let ?u = "admin_row ?fresh nm h now"
        have r: "r = Ok (Some (nm, pw))" and w': "w' = w5" using out 2 by auto
        have "x_verify X h pw" using assms(1) H h by blast
        then have "fst (validate_user_password X nm pw (w5\<lparr>faults := []\<rparr>)) = Ok (u_id ?u, ADMIN)"
          using 2 by (simp add: validate_user_password_def get_stored_credentials_def select_no_fault and_then_def
              admin_row_def verify_password_def guard_def return_def Let_def role_from_def to_uppercase_def upper_char_def is_lower_def)
        moreover have "db w' = (db w)\<lparr>users := [?u]\<rparr>" using 2 H w' by simp
        moreover have "u_name ?u = nm \<and> u_role ?u = ''ADMIN'' \<and> u_active ?u" by (simp add: admin_row_def)
        ultimately show ?thesis using r w' True \<open>f = NoFault \<and> users (db w) = []\<close> by blast
      qed
    qed
  qed
qed

theorem bootstrap_creates_one_working_admin_witness:
  "\<exists>r w'. ensure_bootstrap_admin_if_empty demo_externs demo_uuid_str (demo_world [] []) = (r, w')
     \<and> (\<exists>u. users (db w') = [u] \<and> u_role u = ''ADMIN'')"
proof -
  let ?w = "demo_world [] []"
  obtain r w' where run: "ensure_bootstrap_admin_if_empty demo_externs demo_uuid_str ?w = (r, w')" by (metis surj_pair)
  have ok: "\<exists>x. r = Ok x" using run
    by (auto simp: ensure_bootstrap_admin_if_empty_def create_first_admin_def demo_world_def empty_db_def select_no_fault and_then_def
        map_err_def new_uuid_def hash_password_def demo_externs_def sql_def insert_first_admin_def admin_row_def user_fits_def fits_def
        char_count_def demo_uuid_str_def return_def)
  have "x_hash demo_externs salt p = Some h \<Longrightarrow> x_verify demo_externs h p" for salt p h
    by (simp add: demo_externs_def)
  moreover have "users (db ?w) = []" by (simp add: demo_world_def empty_db_def)
  ultimately obtain u where "db w' = (db ?w)\<lparr>users := [u]\<rparr>" and role: "u_role u = ''ADMIN''"
    using bootstrap_creates_one_working_admin [OF _ run] ok by metis
  then have "users (db w') = [u]" by simp
  with run role show ?thesis by blast
qed

lemma recover_no_panic: "recover_outbox_tasks t w \<noteq> (Panic, w')"
proof -
  have enq: "try_enqueue_outbox_task i c v \<noteq> ((Panic :: (anyhow, unit) result), v')" for i c v v'
    using sql_no_panic [of _ v v']
    by (auto simp: try_enqueue_outbox_task_def attempt_def try_reserve_slot_def modify_def permit_send_def return_def
        mark_running_def split: result.splits prod.splits if_splits)
  have rows: "recover_rows rs v \<noteq> (Panic, v')" for rs v v'
  proof (induction rs arbitrary: v)
    case (Cons x rs)
    with enq show ?case by (auto simp: and_then_def throw_def split: option.splits result.splits prod.splits)
  qed (simp add: return_def)
  have "reclaim_stale_running_outbox t v \<noteq> (Panic, v')" for v v'
    by (simp add: reclaim_stale_running_outbox_def return_def sql_no_panic)
  with rows show ?thesis
    by (auto simp: recover_outbox_tasks_def and_then_def select_def return_def sql_no_panic split: result.splits prod.splits)
qed


lemma frame_try_enqueue:
  assumes "frame_inv I" and "\<And>w q. I w \<Longrightarrow> I (w\<lparr>queue := q\<rparr>)"
  shows "keeps I (try_enqueue_outbox_task i c)"
proof (rule keepsI)
  fix w assume w: "I w"
  obtain r w' where run: "try_enqueue_outbox_task i c w = ((r :: ('a, unit) result), w')" by (metis surj_pair)
  note M = frame_mark_running [OF assms(1), of i]
  from run have "I w'"
  proof (cases rule: try_enqueue_cases)
    case (full a b)
    with w assms(1) show ?thesis by (simp add: frame_inv_def)
  next
    case (unclaimed r1)
    with keepsE [OF M unclaimed(1) w] show ?thesis by simp
  next
    case (sent w1)
    with keepsE [OF M sent(1) w] assms(2) show ?thesis by simp
  qed
  with run show "I (snd ((try_enqueue_outbox_task i c :: (world, 'a, unit) prog) w))" by simp
qed

lemma frame_recover:
  assumes "frame_inv I" and "\<And>w q. I w \<Longrightarrow> I (w\<lparr>queue := q\<rparr>)"
  shows "keeps I (recover_outbox_tasks t)"
proof -
  have "keeps I (recover_rows rows)" for rows
    by (induction rows) (auto intro!: keeps_return keeps_throw keeps_and_then frame_try_enqueue assms split: option.splits)
  then show ?thesis
    unfolding recover_outbox_tasks_def
    by (intro keeps_and_then keeps_return frame_reclaim keeps_select frame_inv_faults assms(1))
qed

lemma submit_closed:
  assumes "queue_closed w"
  shows "queue (snd (submit c w)) = queue w"
proof (cases rule: sql_cases [of "insert_outbox c" w])
  case (err e fs)
  then show ?thesis by (simp add: submit_def and_then_def)
next
  case (ok i d fs)
  with assms show ?thesis
    by (simp add: submit_def and_then_def try_enqueue_outbox_task_def attempt_def try_reserve_slot_def modify_def)
qed

text \<open> The start of the task runtime does not panic on settings that were checked, up to the largest channel the
  runtime library allows, and then matches them: with workers the channel is open and the limits are
  positive; without workers every later submission still stores its command, and sends nothing.\<close>

theorem task_runtime_starts:
  assumes "command_queue_size s \<le> 2 ^ 61 - 1" and "setup_task_runtime (sanitize_task_settings s) w = (r, w')"
  shows "\<exists>rt. r = Ok rt \<and> queue_capacity w' = unat (command_queue_size (sanitize_task_settings s)) \<and> 0 < queue_capacity w'
    \<and> (if command_worker_enabled s
       then \<not> queue_closed w' \<and> (\<exists>n. rt_workers rt = Some n \<and> 0 < n) \<and> (\<exists>n t. rt_pull rt = Some (n, t) \<and> 0 < n \<and> 0 < t)
       else rt_workers rt = None \<and> queue w' = []
          \<and> (bad_calls w' = 0 \<longrightarrow> (\<exists>i. stored_command i c (db (snd (submit c w')))) \<and> queue (snd (submit c w')) = []))"
proof -
  let ?s = "sanitize_task_settings s"
  have size: "command_queue_size ?s \<noteq> 0" "command_queue_size ?s \<le> 2 ^ 61 - 1" and
    pos: "outbox_pull_batch_size ?s \<noteq> 0" "outbox_running_timeout_seconds ?s \<noteq> 0" "command_worker_enabled ?s = command_worker_enabled s"
    using assms(1) by (simp_all add: sanitize_task_settings_def or_default_def default_task_settings_def)
  have nat_pos: "0 < unat v" if "v \<noteq> 0" for v :: "64 word" using that by (simp add: unat_gt_0)
  let ?w1 = "w\<lparr>queue := [], queue_capacity := unat (command_queue_size ?s), queue_closed := False, dropped_full := 0, dropped_closed := 0\<rparr>"
  have pair: "new_pair (command_queue_size ?s) w = ((Ok () :: ('a, unit) result), ?w1)"
    using size leD [OF size(2)] by (simp add: new_pair_def modify_def)
  show ?thesis
  proof (cases "command_worker_enabled s")
    case True
    let ?t = "from_secs (unat (outbox_running_timeout_seconds ?s))"
    obtain r2 w2 where rec: "recover_outbox_tasks ?t ?w1 = (r2, w2)" by (metis surj_pair)
    let ?I = "\<lambda>v. queue_capacity v = unat (command_queue_size ?s) \<and> \<not> queue_closed v"
    have "frame_inv ?I" by (simp add: frame_inv_def fault_free_inv_def)
    then have "keeps ?I (recover_outbox_tasks ?t)" by (rule frame_recover) simp
    from keepsE [OF this rec] have "?I w2" by simp
    moreover have "w' = w2 \<and> r = Ok \<lparr>rt_workers = Some (max 1 (unat (command_worker_concurrency ?s))),
        rt_pull = Some (unat (outbox_pull_batch_size ?s), ?t), rt_cleanup_age = from_secs (unat (orphan_cleanup_min_age_seconds ?s))\<rparr>"
      using assms(2) pair rec True pos(3) recover_no_panic [of ?t ?w1 w2]
      by (cases r2) (simp_all add: setup_task_runtime_def and_then_def attempt_def return_def Let_def)
    moreover have "0 < ?t" using nat_pos [OF pos(2)] by (simp add: from_secs_def)
    ultimately show ?thesis using nat_pos [OF pos(1)] nat_pos [OF size(1)] True by simp
  next
    case False
    then have "w' = ?w1\<lparr>queue_closed := True\<rparr>" and "\<exists>rt. r = Ok rt \<and> rt_workers rt = None"
      using assms(2) pair pos(3) by (auto simp: setup_task_runtime_def and_then_def modify_def return_def Let_def)
    then show ?thesis using False nat_pos [OF size(1)] submit_closed [of w' c] submit_stored [of w' c] by auto
  qed
qed

theorem task_runtime_starts_witness:
  "\<exists>rt w'. setup_task_runtime (sanitize_task_settings (default_task_settings\<lparr>command_queue_size := 0\<rparr>)) (demo_world [] [])
      = ((Ok rt :: (unit, task_runtime) result), w') \<and> queue_capacity w' = 1024"
proof -
  let ?s = "default_task_settings\<lparr>command_queue_size := 0\<rparr>"
  obtain r :: "(unit, task_runtime) result" and w' where run: "setup_task_runtime (sanitize_task_settings ?s) (demo_world [] []) = (r, w')"
    by (metis surj_pair)
  have "command_queue_size ?s \<le> 2 ^ 61 - 1" by simp
  from task_runtime_starts [OF this run] run show ?thesis
    by (auto simp: sanitize_task_settings_def or_default_def default_task_settings_def)
qed

end
