(* ===== verification/Tables.thy ===== *)
theory Tables
  imports Search Cleanup Startup
begin

text \<open>
  What the program may do to the tables: the statements that change them, as a relation, and
  locales for the invariants they keep. The lemmas of the locales go through all
  handlers and tasks once; each invariant of the tables is then an interpretation.
\<close>

section \<open>The writes\<close>

text \<open>
  Every statement that changes a table. \<open>ok\<close> says which ids a new account may get, \<open>may\<close> which rows may leave the outbox,
  \<open>rec\<close> which data a template may get as a record, and \<open>tmpl\<close> whether templates may be written.
\<close>

inductive table_write :: "(uuid \<Rightarrow> bool) \<Rightarrow> (nat \<Rightarrow> bool) \<Rightarrow> (uuid \<Rightarrow> json \<Rightarrow> bool) \<Rightarrow> bool \<Rightarrow> database \<Rightarrow> database \<Rightarrow> bool"
  for ok may rec tmpl where
  insert_user: "ok fresh \<Longrightarrow> insert_user fresh r now d = Inr (x, d') \<Longrightarrow> table_write ok may rec tmpl d d'"
| first_admin: "ok fresh \<Longrightarrow> insert_first_admin fresh nm h now d = Inr (x, d') \<Longrightarrow> table_write ok may rec tmpl d d'"
| update_user: "(\<And>u. u_id (f u) = u_id u) \<Longrightarrow> (\<And>u. u_name (f u) = u_name u) \<Longrightarrow>
    Users.update_user uid f now d = Inr (n, d') \<Longrightarrow> table_write ok may rec tmpl d d'"
| delete_user: "delete_user_stmt uid now d = Inr (n, d') \<Longrightarrow> table_write ok may rec tmpl d d'"
| upsert_rule: "api_pattern_ok (g_pattern req) \<Longrightarrow> Access.upsert_rule fresh req granter now d = Inr (y, d') \<Longrightarrow> table_write ok may rec tmpl d d'"
| delete_rules: "table_write ok may rec tmpl d (d\<lparr>rules := delete_where p (rules d)\<rparr>)"
| insert_template: "Templates.insert_template fresh ct schema uid now d = Inr (t, d') \<Longrightarrow> tmpl \<Longrightarrow> table_write ok may rec tmpl d d'"
| update_template: "(\<And>t. t_id (g t) = t_id t) \<Longrightarrow> (\<And>t. t_by (g t) = t_by t) \<Longrightarrow>
    update_template_row tid (\<lambda>_. g) now d = Inr (row, d') \<Longrightarrow> tmpl \<Longrightarrow> table_write ok may rec tmpl d d'"
| delete_template: "delete_template_stmt tid now d = Inr (n, d') \<Longrightarrow> tmpl \<Longrightarrow> table_write ok may rec tmpl d d'"
| insert_record: "Archive.insert_record fresh v tid uid now d = Inr (a, d') \<Longrightarrow> rec tid v \<Longrightarrow> table_write ok may rec tmpl d d'"
| insert_file: "Archive.insert_file rid fid key md uid now d = Inr (z, d') \<Longrightarrow> table_write ok may rec tmpl d d'"
| delete_record: "delete_record_stmt tid rid now d = Inr (n, d') \<Longrightarrow> table_write ok may rec tmpl d d'"
| insert_outbox: "Outbox.insert_outbox c now d = Inr (i, d') \<Longrightarrow> table_write ok may rec tmpl d d'"
| update_outbox: "row_frame o' \<Longrightarrow> table_write ok may rec tmpl d (d\<lparr>outbox := update_where q o' (outbox d)\<rparr>)"
| delete_outbox: "may i \<Longrightarrow> table_write ok may rec tmpl d (d\<lparr>outbox := delete_where (\<lambda>r. o_id r = i) (outbox d)\<rparr>)"


lemma table_write_more:
  "table_write ok may rec False d d' \<Longrightarrow> (\<And>tid v. rec tid v \<Longrightarrow> rec' tid v) \<Longrightarrow> table_write ok may rec' True d d'"
  by (induction rule: table_write.induct) (blast intro: table_write.intros)+

named_theorems table_rules \<open>programs that keep an invariant of the tables\<close>

text \<open>
  An invariant that looks at the tables, the ids still to be drawn and the cached contexts, may lose
  entries of the cache, and is kept by every write that is not to a template and by every insertion
  of a record \<open>rec\<close> allows. Then every operation keeps it that does no more than that.
\<close>

locale row_invariant =
  fixes ok :: "uuid \<Rightarrow> bool" and may :: "nat \<Rightarrow> bool" and rec :: "uuid \<Rightarrow> json \<Rightarrow> bool" and I :: "world \<Rightarrow> bool"
  assumes quiet: "I w \<Longrightarrow> db w' = db w \<Longrightarrow> fresh_uuids w' = fresh_uuids w \<Longrightarrow> drawn w \<le> drawn w'
      \<Longrightarrow> schema_cache w' \<subseteq>\<^sub>m schema_cache w \<Longrightarrow> I w'"
    and draws: "I w \<Longrightarrow> ok (fresh_uuids w (drawn w))"
    and writes: "I w \<Longrightarrow> table_write ok may rec False (db w) d' \<Longrightarrow> I (w\<lparr>db := d'\<rparr>)"
begin

lemma faults_free: "fault_free_inv I"
  by (auto simp: fault_free_inv_def elim: quiet)

lemma keeps_calm:
  assumes "\<And>w. db (snd (m w)) = db w \<and> fresh_uuids (snd (m w)) = fresh_uuids w \<and> drawn w \<le> drawn (snd (m w))
    \<and> schema_cache (snd (m w)) \<subseteq>\<^sub>m schema_cache w"
  shows "keeps I m"
  using assms by (auto intro!: keepsI elim: quiet)

lemma keeps_statement:
  assumes "\<And>now d x d'. st now d = Inr (x, d') \<Longrightarrow> d' = d \<or> table_write ok may rec False d d'"
  shows "keeps I (sql st)"
proof (rule keeps_sql [OF faults_free])
  fix w x d assume "I w" and "st (clock w) (db w) = Inr (x, d)"
  with assms [of "clock w" "db w" x d] show "I (w\<lparr>db := d\<rparr>)" by (auto intro: writes)
qed

lemma keeps_new [table_rules]: "keeps I new_uuid"
  by (rule keeps_calm) (simp add: new_uuid_def)

text \<open>An id that is drawn may become an account.\<close>

lemma keeps_new_ok: "(\<And>u. ok u \<Longrightarrow> keeps I (f u)) \<Longrightarrow> keeps I (and_then new_uuid f)"
  by (rule keepsI) (auto simp: and_then_def new_uuid_def intro!: keepsD [of I "f _"] draws elim: quiet)

lemma keeps_any_select [table_rules]: "keeps I (select q)"
  by (rule keeps_select) (rule faults_free)

lemma keeps_any_redis [table_rules]: "keeps I (redis_call f)"
  by (rule keeps_redis_call [OF faults_free]) (auto elim: quiet)

lemma keeps_s3 [table_rules]:
  assumes "\<And>w x w'. f w = (x, w') \<Longrightarrow> db w' = db w \<and> fresh_uuids w' = fresh_uuids w \<and> drawn w' = drawn w
    \<and> schema_cache w' = schema_cache w"
  shows "keeps I (s3_call ctx f)"
proof (rule keeps_calm)
  fix w
  obtain ft w1 where nf: "next_fault w = (ft, w1)" by (cases "next_fault w")
  have "db w1 = db w" "fresh_uuids w1 = fresh_uuids w" "drawn w1 = drawn w" "schema_cache w1 = schema_cache w"
    using next_fault_fields [of w] nf by simp_all
  with nf assms show "db (snd (s3_call ctx f w)) = db w \<and> fresh_uuids (snd (s3_call ctx f w)) = fresh_uuids w
      \<and> drawn w \<le> drawn (snd (s3_call ctx f w)) \<and> schema_cache (snd (s3_call ctx f w)) \<subseteq>\<^sub>m schema_cache w"
    by (cases ft; cases "f w1") (simp_all add: s3_call_def)
qed

lemma next_fault_tables:
  "next_fault w = (f, w') \<Longrightarrow> db w' = db w \<and> fresh_uuids w' = fresh_uuids w \<and> drawn w' = drawn w
    \<and> schema_cache w' = schema_cache w"
  by (metis next_fault_fields(1,4,9,10) snd_conv)

lemma keeps_head [table_rules]: "keeps I (get_head_object_output k)"
  by (rule keeps_calm)
    (auto simp: get_head_object_output_def dest: next_fault_tables split: prod.splits fault.splits option.splits)

lemma keeps_copy [table_rules]: "keeps I (copy_source_to_dest k k')"
  by (rule keeps_calm)
    (auto simp: copy_source_to_dest_def dest: next_fault_tables split: prod.splits fault.splits option.splits)

lemma keeps_delete_request [table_rules]: "keeps I (delete_request ks)"
  by (rule keeps_calm)
    (auto simp: delete_request_def Let_def dest: next_fault_tables split: prod.splits fault.splits)

end


context row_invariant
begin

lemma keeps_valid [table_rules]: "keeps I (require_valid f)"
  by (rule keeps_calm) simp

lemma keeps_modify_calm [table_rules]:
  "(\<And>w. db (f w) = db w \<and> fresh_uuids (f w) = fresh_uuids w \<and> drawn (f w) = drawn w \<and> schema_cache (f w) \<subseteq>\<^sub>m schema_cache w)
    \<Longrightarrow> keeps I (modify f)"
  by (rule keeps_calm) (simp add: modify_def)

lemma keeps_page [table_rules]: "keeps I (sql (page_query p ps key f q))"
  by (rule keeps_statement) (auto simp: page_query_def split: option.splits)

lemma keeps_view_url [table_rules]: "keeps I (generate_view_url X n k)"
  unfolding generate_view_url_def by (rule keeps_s3) simp

lemma keeps_presign [table_rules]: "keeps I (generate_presigned_url X k c l n)"
  unfolding generate_presigned_url_def by (rule keeps_s3) simp

lemma keeps_delete_object [table_rules]: "keeps I (delete_object k)"
  unfolding delete_object_def by (rule keeps_s3) auto

lemma keeps_object_exists [table_rules]: "keeps I (object_exists k)"
  unfolding object_exists_def
  by (intro keeps_rules table_rules) (auto split: sum.splits head_error.splits intro: keeps_rules)

lemma keeps_hash [table_rules]: "keeps I (hash_password X p)"
  unfolding hash_password_def by (intro keeps_rules table_rules)

lemma keeps_one_row [table_rules]: "keeps I (fetch_one q)"
  unfolding fetch_one_def by (intro keeps_rules table_rules)

lemma keeps_check_password [table_rules]: "keeps I (validate_user_password X nm p)"
  unfolding validate_user_password_def get_stored_credentials_def verify_password_def Let_def
  by (intro keeps_rules table_rules)

lemma keeps_token [table_rules]: "keeps I (generate_jwt X e u nm ro)"
  by (rule keeps_calm) (simp add: generate_jwt_def split: option.splits)

lemma keeps_login: "keeps I (login_user_handler X e nm p)"
  unfolding login_user_handler_def by (intro keeps_rules table_rules)

text \<open>Accounts.\<close>

lemma keeps_change_user [table_rules]:
  assumes "\<And>u. u_id (f u) = u_id u" and "\<And>u. u_name (f u) = u_name u"
  shows "keeps I (sql (update_user uid f))"
  by (rule keeps_statement) (use assms table_write.update_user in blast)

lemma keeps_avatar_link [table_rules]: "keeps I (parse_avatar_key_to_url X k)"
  unfolding parse_avatar_key_to_url_def Let_def by (intro keeps_rules table_rules)

lemma keeps_avatar_links [table_rules]: "keeps I (view_avatars X us)"
  by (induction us) (auto intro!: keeps_rules table_rules)

lemma keeps_create_user: "keeps I (create_user_handler X r)"
  unfolding create_user_handler_def store_user_def
  by (intro keeps_rules table_rules keeps_new_ok keeps_statement) (blast intro: table_write.insert_user)

lemma keeps_user_status: "keeps I (modify_user_status_handler uid act c)"
  unfolding modify_user_status_handler_def modify_user_status_def by (intro keeps_rules table_rules; simp)

lemma keeps_query_users: "keeps I (query_users_handler X q)"
  unfolding query_users_handler_def query_users_def by (intro keeps_rules table_rules)

lemma keeps_admin_password: "keeps I (admin_change_user_password_handler X uid p)"
  unfolding admin_change_user_password_handler_def admin_change_user_password_def
  by (intro keeps_rules table_rules; simp)

lemma keeps_delete_account: "keeps I (admin_delete_user_handler uid c)"
  unfolding admin_delete_user_handler_def delete_user_def
  by (intro keeps_rules table_rules keeps_statement) (blast intro: table_write.delete_user)

lemma keeps_change_password: "keeps I (change_password_handler X c raw new)"
  unfolding change_password_handler_def change_user_password_def by (intro keeps_rules table_rules; simp)

lemma keeps_avatar_url: "keeps I (presigned_avatar_url_handler X r)"
  unfolding presigned_avatar_url_handler_def presigned_avatar_url_def Let_def by (intro keeps_rules table_rules)

lemma keeps_update_avatar: "keeps I (update_avatar_handler X c f)"
  unfolding update_avatar_handler_def store_user_avatar_def save_user_avatar_into_database_def Let_def
  by (intro keeps_rules table_rules keeps_lift_result; simp)

lemma keeps_me: "keeps I (get_user_info_handler X c)"
  unfolding get_user_info_handler_def get_user_info_by_id_def by (intro keeps_rules table_rules)

lemma keeps_update_me: "keeps I (update_user_info_handler X c email phone)"
  unfolding update_user_info_handler_def update_user_info_def by (intro keeps_rules table_rules; simp)

lemma keeps_my_routes: "keeps I (get_user_effective_routes_handler X c)"
  unfolding get_user_effective_routes_handler_def get_user_effective_routes_def get_effective_rules_for_user_def
    get_registry_routes_def
  by (intro keeps_rules table_rules)

lemmas keeps_accounts = keeps_login keeps_create_user keeps_user_status keeps_query_users keeps_admin_password
  keeps_delete_account keeps_change_password keeps_avatar_url keeps_update_avatar keeps_me keeps_update_me keeps_my_routes

end


lemma update_template_row_now: "update_template_row tid f now d = update_template_row tid (\<lambda>_. f now) now d"
  by (simp add: update_template_row_def)

lemma apply_update_keys: "t_id (apply_update r schema now t) = t_id t" "t_by (apply_update r schema now t) = t_by t"
  by (simp_all add: apply_update_def)

context row_invariant
begin

text \<open>Access rules.\<close>

lemma keeps_registry: "keeps I (get_registry_routes_handler X f)"
  unfolding get_registry_routes_handler_def get_registry_routes_def do_filter_with_user_exists_rules_def
    get_effective_rules_for_user_def Let_def
  by (intro keeps_rules table_rules)

lemma keeps_query_rules: "keeps I (query_user_api_access_rules_handler q)"
  unfolding query_user_api_access_rules_handler_def query_user_api_access_rules_def by (intro keeps_rules table_rules)

lemma keeps_revoke: "keeps I (revoke_user_api_rule_handler rid)"
  unfolding revoke_user_api_rule_handler_def revoke_user_api_access_rule_def
  by (intro keeps_rules table_rules keeps_statement) (auto intro: table_write.delete_rules)

text \<open>A grant writes only after its pattern passed the check.\<close>

lemma keeps_grant_rest:
  assumes "api_pattern_ok (g_pattern r)"
  shows "keeps I (and_then (check_api_rule_validity X (g_pattern r) (g_method r)) (\<lambda>_.
     and_then (grant_user_api_access_rule r u) (\<lambda>dto. return (resp_created dto m))))"
  unfolding check_api_rule_validity_def get_registry_routes_def grant_user_api_access_rule_def check_api_rule_conflict_def
  by (intro keeps_rules table_rules keeps_statement) (use assms in \<open>blast intro: table_write.upsert_rule\<close>)

lemma keeps_grant: "keeps I (grant_user_api_rule_handler X r c)"
proof (cases "api_pattern_ok (g_pattern r)")
  case True
  then show ?thesis
    unfolding grant_user_api_rule_handler_def by (intro keeps_and_then keeps_valid keeps_grant_rest)
next
  case False
  then have "validate_grant now r \<noteq> []" for now by (simp add: validate_grant_def one_error_def)
  then have "\<exists>e. grant_user_api_rule_handler X r c w = (Err e, w)" for w
    by (cases rule: require_valid_cases [of "\<lambda>now. validate_grant now r" w])
      (auto simp: grant_user_api_rule_handler_def and_then_def)
  then show ?thesis by (metis keepsI snd_conv)
qed

text \<open>Templates.\<close>

lemma keeps_query_templates: "keeps I (query_templates_handler q)"
  unfolding query_templates_handler_def query_templates_def by (intro keeps_rules table_rules)

lemma keeps_categories: "keeps I get_all_template_categories"
  unfolding get_all_template_categories_def by (intro keeps_rules table_rules)

lemma keeps_clear_cache [table_rules]: "keeps I (clear_template_cache tid)"
  unfolding clear_template_cache_def dm_remove_def by (rule keeps_modify_calm) simp

lemma keeps_any_record [table_rules]: "keeps I (check_any_record_exists tid)" "keeps I (check_template_is_enabled tid)"
  unfolding check_any_record_exists_def check_template_is_enabled_def by (intro keeps_rules table_rules)+

lemma keeps_template_info: "keeps I (get_template_info_handler tid)"
  unfolding get_template_info_handler_def get_template_info_by_id_def by (intro keeps_rules table_rules)

text \<open>Searches.\<close>

lemma keeps_sign [table_rules]: "keeps I (sign_files X fs urls)"
  by (induction fs arbitrary: urls) (auto intro!: keeps_rules table_rules)

lemma keeps_enrich [table_rules]: "keeps I (enrich_archive_records_with_urls X cfgs rs)"
  unfolding enrich_archive_records_with_urls_def Let_def by (intro keeps_rules table_rules)

lemma keeps_count [table_rules]: "keeps I (sql (count_records X req tid))"
  by (rule keeps_statement) (auto simp: count_records_def split: sum.splits)

lemma keeps_rows [table_rules]: "keeps I (sql (page_records X req tid))"
  by (rule keeps_statement) (auto simp: page_records_def page_query_def split: sum.splits option.splits)

end


context row_invariant
begin

text \<open>The task system.\<close>

lemma frame: "frame_inv I"
  unfolding frame_inv_def
proof (intro conjI allI impI faults_free)
  fix w g p assume "row_frame g" and "I w"
  then show "I (w\<lparr>db := (db w)\<lparr>outbox := update_where p g (outbox (db w))\<rparr>\<rparr>)"
    by (blast intro: writes table_write.update_outbox)
next
  fix w a b assume "I w"
  then show "I (w\<lparr>dropped_full := a, dropped_closed := b\<rparr>)" by (rule quiet) simp_all
qed

lemmas keeps_rows_marked [table_rules] = frame_mark_running [OF frame] frame_requeue [OF frame] frame_mark_dead [OF frame]
  frame_requeue_rows [OF frame] frame_reclaim [OF frame] frame_claim [OF frame]

lemma keeps_slot [table_rules]: "keeps I try_reserve_slot" "keeps I (permit_send t)"
  by (rule keeps_calm, simp add: try_reserve_slot_def permit_send_def modify_def)+

lemma keeps_enqueue [table_rules]: "keeps I (try_enqueue_outbox_task i c)"
  unfolding try_enqueue_outbox_task_def
  by (intro keeps_rules table_rules)
    (auto split: sum.splits queue_reserve_error.splits intro!: keeps_rules table_rules)

lemma keeps_submit [table_rules]: "keeps I (submit c)"
  unfolding submit_def
  by (intro keeps_rules table_rules keeps_statement) (blast intro: table_write.insert_outbox)

lemma keeps_in_memory: "keeps I (queue_in_memory c)"
  unfolding queue_in_memory_def by (intro keeps_rules table_rules)

lemma keeps_pump_rows [table_rules]: "keeps I (pump_rows rows n)"
proof (induction rows n rule: pump_rows.induct)
  case (2 i payload rest n)
  then show ?case by (auto intro!: keeps_rules table_rules split: option.splits sum.splits)
qed (simp add: keeps_return)

lemma keeps_pull: "keeps I (pull_outbox_tasks n timeout)"
  unfolding pull_outbox_tasks_def pump_outbox_once_def by (intro keeps_rules table_rules)

lemma keeps_recover_rows [table_rules]: "keeps I (recover_rows rows)"
  by (induction rows) (auto intro!: keeps_rules table_rules split: option.splits)

lemma keeps_recover [table_rules]: "keeps I (recover_outbox_tasks timeout)"
  unfolding recover_outbox_tasks_def by (intro keeps_rules table_rules)

lemma keeps_delete_row [table_rules]: "may i \<Longrightarrow> keeps I (delete_outbox_row i)"
  unfolding delete_outbox_row_def by (rule keeps_statement) (auto intro: table_write.delete_outbox)

lemma keeps_settle:
  assumes "\<And>i. oid = Some i \<Longrightarrow> res = Inr () \<Longrightarrow> may i"
  shows "keeps I (settle_task oid res)"
  using assms unfolding settle_task_def
  by (cases res; cases oid) (auto split: error_kind.splits intro!: keeps_rules table_rules)

text \<open>Deleting objects, listing and cleaning up.\<close>

lemma keeps_delete_chunks [table_rules]: "keeps I (delete_chunks cs rep)"
  by (induction cs rep rule: delete_chunks.induct) (auto intro!: keeps_rules table_rules)

lemma keeps_delete_objects [table_rules]: "keeps I (delete_objects_with_report ks)" "keeps I (delete_objects ks)"
  unfolding delete_objects_def delete_objects_with_report_def by (intro keeps_rules table_rules)+

lemma keeps_list_pages [table_rules]: "keeps I (list_pages p pages ks)"
  by (induction pages arbitrary: ks) (auto intro!: keeps_rules table_rules)

lemma keeps_cleanup: "keeps I (cleanup_orphan_persistent_objects free age)"
  unfolding cleanup_orphan_persistent_objects_def remove_orphans_def list_object_keys_with_prefix_older_than_def Let_def
  by (intro keeps_rules table_rules)

text \<open>The start of the server.\<close>

lemma keeps_bootstrap: "keeps I (ensure_bootstrap_admin_if_empty X simple)"
  unfolding ensure_bootstrap_admin_if_empty_def create_first_admin_def
  by (intro keeps_rules table_rules keeps_new_ok keeps_statement) (blast intro: table_write.first_admin)

lemma keeps_setup: "keeps I (setup_task_runtime s)"
  unfolding setup_task_runtime_def new_pair_def Let_def by (intro keeps_rules table_rules; simp)

lemmas keeps_tasks = keeps_in_memory keeps_pull keeps_settle keeps_cleanup keeps_bootstrap keeps_setup

end


context row_invariant
begin

text \<open>
  Inside a transaction the tables of its begin come back when it fails: the invariant also holds
  of the state with these tables. This is again an invariant every write keeps.
\<close>

lemma with_snapshot: "row_invariant ok may rec (\<lambda>w. I w \<and> I (w\<lparr>db := snap\<rparr>))"
proof
  fix w w' :: world assume *: "I w \<and> I (w\<lparr>db := snap\<rparr>)" "db w' = db w" "fresh_uuids w' = fresh_uuids w" "drawn w \<le> drawn w'"
    "schema_cache w' \<subseteq>\<^sub>m schema_cache w"
  then have "I w'" by (blast intro: quiet)
  moreover have "I (w'\<lparr>db := snap\<rparr>)" using * by (intro quiet [of "w\<lparr>db := snap\<rparr>" "w'\<lparr>db := snap\<rparr>"]) simp_all
  ultimately show "I w' \<and> I (w'\<lparr>db := snap\<rparr>)" ..
next
  fix w :: world assume "I w \<and> I (w\<lparr>db := snap\<rparr>)"
  then show "ok (fresh_uuids w (drawn w))" by (blast intro: draws)
next
  fix w :: world and d' assume *: "I w \<and> I (w\<lparr>db := snap\<rparr>)" "table_write ok may rec False (db w) d'"
  then have "I (w\<lparr>db := d'\<rparr>)" by (blast intro: writes)
  with * show "I (w\<lparr>db := d'\<rparr>) \<and> I (w\<lparr>db := d'\<rparr>\<lparr>db := snap\<rparr>)" by simp
qed

lemma keeps_transaction:
  assumes "\<And>snap. keeps (\<lambda>w. I w \<and> I (w\<lparr>db := snap\<rparr>)) (f snap)"
  shows "keeps I (and_then (unexpected tx_begin) f)"
proof (rule keepsI)
  fix w assume I: "I w"
  obtain r w1 where run: "unexpected tx_begin w = (r, w1)" by (cases "unexpected tx_begin w")
  then have I1: "I w1"
    using keepsD [OF keeps_unexpected [OF keeps_any_select], OF I, of "\<lambda>_ d. d"] by (simp add: tx_begin_def)
  show "I (snd (and_then (unexpected tx_begin) f w))"
  proof (cases r)
    case (Ok snap)
    from run Ok have "snap = db w1"
      using unexpected_select_OkD [of "\<lambda>_ d. d" w snap w1] by (auto simp: tx_begin_def)
    with I1 have "I (snd (f snap w1))" using keepsD [OF assms, of w1 snap] by simp
    with run Ok show ?thesis by (simp add: and_then_def)
  qed (use run I1 in \<open>simp_all add: and_then_def\<close>)
qed

lemma keeps_or_drop:
  assumes "keeps (\<lambda>w. I w \<and> I (w\<lparr>db := snap\<rparr>)) m"
  shows "keeps (\<lambda>w. I w \<and> I (w\<lparr>db := snap\<rparr>)) (or_drop snap m)"
proof (rule keepsI)
  fix w :: world assume I: "I w \<and> I (w\<lparr>db := snap\<rparr>)"
  obtain r w1 where run: "m w = (r, w1)" by (cases "m w")
  with keepsD [OF assms I] have "I w1 \<and> I (w1\<lparr>db := snap\<rparr>)" by simp
  with run show "I (snd (or_drop snap m w)) \<and> I ((snd (or_drop snap m w))\<lparr>db := snap\<rparr>)"
    by (cases r) (simp_all add: or_drop_def)
qed

lemma keeps_commit: "keeps (\<lambda>w. I w \<and> I (w\<lparr>db := snap\<rparr>)) (tx_commit snap)"
proof (rule keepsI)
  fix w :: world assume I: "I w \<and> I (w\<lparr>db := snap\<rparr>)"
  obtain f w1 where nf: "next_fault w = (f, w1)" by (cases "next_fault w")
  from row_invariant.faults_free [OF with_snapshot] I nf have "I w1 \<and> I (w1\<lparr>db := snap\<rparr>)"
    by (rule fault_free_next)
  with nf show "I (snd (tx_commit snap w)) \<and> I ((snd (tx_commit snap w))\<lparr>db := snap\<rparr>)"
    by (simp add: tx_commit_def)
qed

lemma keeps_rollback: "keeps (\<lambda>w. I w \<and> I (w\<lparr>db := snap\<rparr>)) (tx_rollback snap)"
proof (rule keepsI)
  fix w :: world assume I: "I w \<and> I (w\<lparr>db := snap\<rparr>)"
  obtain f w1 where nf: "next_fault w = (f, w1)" by (cases "next_fault w")
  from row_invariant.faults_free [OF with_snapshot] I nf have "I w1 \<and> I (w1\<lparr>db := snap\<rparr>)"
    by (rule fault_free_next)
  with nf show "I (snd (tx_rollback snap w)) \<and> I ((snd (tx_rollback snap w))\<lparr>db := snap\<rparr>)"
    by (simp add: tx_rollback_def)
qed

text \<open>The statements of the transactions.\<close>

lemma keeps_create_row: "rec tid (cr_data req) \<Longrightarrow> keeps I (create_archive_record req tid uid)"
  unfolding create_archive_record_def
  by (intro keeps_rules table_rules keeps_statement) (blast intro: table_write.insert_record)

lemma keeps_process_file [table_rules]: "keeps I (process_single_file X sid uid fid rid)"
  unfolding process_single_file_def get_file_metadata_def move_temp_file_to_save_def save_file_metadata_def Let_def
  by (intro keeps_rules table_rules keeps_lift_result keeps_statement)
    (auto split: sum.splits head_error.splits intro!: keeps_rules keeps_lift_result intro: table_write.insert_file)

lemma keeps_field_files [table_rules]: "keeps I (create_field_files X rid sid uid v fc)"
  unfolding create_field_files_def check_required_def
  by (cases fc) (auto split: option.splits json.splits intro!: keeps_rules table_rules)

lemma keeps_copy_files: "keeps I (copy_files X rd cfgs sid uid v)"
  unfolding copy_files_def check_upload_session_exists_def redis_exists_def create_files_record_def
  by (intro keeps_rules table_rules)

lemma keeps_submit_cleanup: "keeps I (submit_cleanup ks)"
  unfolding submit_cleanup_def by (intro keeps_rules table_rules)

lemma keeps_delete_by_id: "keeps I (delete_archive_record_by_id tid rid)"
  unfolding delete_archive_record_by_id_def
  by (intro keeps_rules table_rules keeps_statement) (blast intro: table_write.delete_record)

lemma keeps_copy_or_roll_back:
  "keeps (\<lambda>w. I w \<and> I (w\<lparr>db := snap\<rparr>)) (copy_or_roll_back X snap rd cfgs sid uid v)"
  unfolding copy_or_roll_back_def Let_def
  by (intro keeps_attempt keeps_case_sum keeps_and_then keeps_return keeps_throw keeps_rollback
      row_invariant.keeps_copy_files [OF with_snapshot] row_invariant.keeps_submit_cleanup [OF with_snapshot])

lemma keeps_create_in_transaction:
  assumes "rec tid (cr_data req)"
  shows "keeps I (create_in_transaction X req tid uid fs)"
  unfolding create_in_transaction_def
  by (intro keeps_transaction keeps_and_then keeps_or_drop keeps_case_option keeps_case_prod keeps_return
      keeps_unexpected keeps_commit keeps_copy_or_roll_back row_invariant.keeps_create_row [OF with_snapshot] assms)

lemma keeps_delete_files: "keeps I (delete_files_by_object_keys ks)"
  unfolding delete_files_by_object_keys_def by (intro keeps_rules table_rules)

text \<open>Deleting the files needs no snapshot any more.\<close>

lemma keeps_delete_record: "keeps I (delete_archive_record_handler tid rid)"
  unfolding delete_archive_record_handler_def
  by (intro keeps_transaction keeps_and_then keeps_or_drop keeps_return keeps_unexpected keeps_commit
      row_invariant.keeps_delete_by_id [OF with_snapshot] row_invariant.keeps_delete_files [OF with_snapshot])

end


section \<open>Loading, templates, and all operations\<close>

text \<open>An invariant that the load of a context keeps as well.\<close>

locale loading_invariant = row_invariant ok may rec I for ok may rec I +
  fixes X :: externs
  assumes keeps_load [table_rules]: "keeps I (get_or_load_template_context X tid)"
begin

lemma keeps_validate [table_rules]: "keeps I (validate_instance_by_id X tid v)"
  unfolding validate_instance_by_id_def by (intro keeps_rules table_rules keeps_lift_result)

lemma keeps_init_upload: "keeps I (init_upload_session_handler X c tid)"
  unfolding init_upload_session_handler_def init_upload_session_def redis_set_ex_def by (intro keeps_rules table_rules)

lemma keeps_upload_url: "keeps I (presigned_upload_url_handler X r c)"
  unfolding presigned_upload_url_handler_def presigned_upload_url_def try_to_get_field_quota_def deduct_quota_script_def Let_def
  by (intro keeps_rules table_rules keeps_lift_result)

lemma keeps_search: "keeps I (query_archive_records_handler X tid req)"
  unfolding query_archive_records_handler_def query_archive_records_def by (intro keeps_rules table_rules)

lemma keeps_before [table_rules]: "keeps I (before_creation X tid req)"
  unfolding before_creation_def by (intro keeps_rules table_rules keeps_lift_result)

end

text \<open>
  An invariant of the whole server: it is also kept by the handlers that write templates and by the
  creation of a record, which only stores what was validated before.
\<close>

locale server_invariant = loading_invariant ok may rec I X for ok may rec I X +
  assumes keeps_create_template: "keeps I (create_template_handler X ct c)"
    and keeps_update_template: "keeps I (update_template_handler X ut)"
    and keeps_delete_template: "keeps I (delete_template_handler tid)"
    and keeps_template_status: "keeps I (modify_template_status_handler tid act)"
    and keeps_create_record: "keeps I (create_archive_record_handler X tid cr c)"
begin

lemmas keeps_administration = keeps_registry keeps_query_rules keeps_revoke keeps_grant keeps_create_template
  keeps_query_templates keeps_categories keeps_update_template keeps_delete_template keeps_template_status keeps_template_info

lemmas keeps_records = keeps_init_upload keeps_upload_url keeps_search keeps_create_record keeps_delete_record

end

text \<open>
  An invariant that looks only at the tables and the ids still to be drawn, and that every write
  keeps, is an invariant of the whole server.
\<close>

locale table_invariant =
  fixes ok :: "uuid \<Rightarrow> bool" and may :: "nat \<Rightarrow> bool" and I :: "world \<Rightarrow> bool"
  assumes tables_only: "I w \<Longrightarrow> db w' = db w \<Longrightarrow> fresh_uuids w' = fresh_uuids w \<Longrightarrow> drawn w \<le> drawn w' \<Longrightarrow> I w'"
    and all_draws: "I w \<Longrightarrow> ok (fresh_uuids w (drawn w))"
    and all_writes: "I w \<Longrightarrow> table_write ok may (\<lambda>_ _. True) True (db w) d' \<Longrightarrow> I (w\<lparr>db := d'\<rparr>)"

sublocale table_invariant \<subseteq> row_invariant ok may "\<lambda>_ _. True" I
  by unfold_locales (blast intro: tables_only all_draws all_writes table_write_more)+

context table_invariant
begin

lemma load_keeps: "keeps I (get_or_load_template_context X tid)"
  unfolding get_or_load_template_context_def from_database_get_template_context_def
  cache_insert_def
  by (intro keeps_rules table_rules keeps_modify) (auto elim: tables_only)

end

sublocale table_invariant \<subseteq> loading_invariant ok may "\<lambda>_ _. True" I X for X
  by unfold_locales (rule load_keeps)

context table_invariant
begin

lemma keeps_template_statement:
  assumes "\<And>now d x d'. st now d = Inr (x, d') \<Longrightarrow> d' = d \<or> table_write ok may (\<lambda>_ _. True) True d d'"
  shows "keeps I (sql st)"
proof (rule keeps_sql [OF faults_free])
  fix w x d assume "I w" and "st (clock w) (db w) = Inr (x, d)"
  with assms [of "clock w" "db w" x d] show "I (w\<lparr>db := d\<rparr>)" by (auto intro: all_writes)
qed

lemma create_template_keeps: "keeps I (create_template_handler X r c)"
  unfolding create_template_handler_def create_template_def
  by (intro keeps_rules table_rules keeps_lift_result keeps_template_statement) (blast intro: table_write.insert_template)

lemma keeps_template_row:
  assumes "\<And>now t. t_id (f now t) = t_id t" and "\<And>now t. t_by (f now t) = t_by t"
  shows "keeps I (sql (update_template_row tid f))"
proof (rule keeps_template_statement)
  fix now d x d' assume "update_template_row tid f now d = Inr (x, d')"
  then have "update_template_row tid (\<lambda>_. f now) now d = Inr (x, d')" by (simp add: update_template_row_now [of tid f])
  with assms show "d' = d \<or> table_write ok may (\<lambda>_ _. True) True d d'" by (blast intro: table_write.update_template)
qed

lemma update_template_keeps: "keeps I (update_template_handler X r)"
  unfolding update_template_handler_def update_template_def
  by (intro keeps_rules table_rules keeps_lift_result keeps_template_row) (rule apply_update_keys)+

lemma delete_template_keeps: "keeps I (delete_template_handler tid)"
  unfolding delete_template_handler_def Templates.delete_template_def
  by (intro keeps_rules table_rules keeps_template_statement) (blast intro: table_write.delete_template)

lemma template_status_keeps: "keeps I (modify_template_status_handler tid act)"
  unfolding modify_template_status_handler_def modify_template_status_def
  by (intro keeps_rules table_rules keeps_template_row; simp)

lemma create_record_keeps: "keeps I (create_archive_record_handler X tid req c)"
  unfolding create_archive_record_handler_def delete_upload_session_def redis_del_def
  by (intro keeps_rules table_rules keeps_lift_result keeps_create_in_transaction; simp)

end

sublocale table_invariant \<subseteq> server_invariant ok may "\<lambda>_ _. True" I X for X
  by unfold_locales (rule create_template_keeps update_template_keeps delete_template_keeps template_status_keeps create_record_keeps)+

section \<open>Keys, references and well-formed rows\<close>

definition keys_ok :: "database \<Rightarrow> bool" where
  "keys_ok d \<longleftrightarrow> distinct (map t_id (templates d)) \<and> distinct (map a_id (records d)) \<and> distinct (map f_id (files d))
     \<and> distinct (map r_id (rules d))"

definition rule_rows_ok :: "database \<Rightarrow> bool" where
  "rule_rows_ok d \<longleftrightarrow> distinct (map rule_key (rules d))
     \<and> (\<forall>r\<in>set (rules d). api_pattern_ok (r_pattern r) \<and> r_method r \<in> range method_as_str)"

definition tables_ok :: "database \<Rightarrow> bool" where
  "tables_ok d \<longleftrightarrow> refs_ok d \<and> keys_ok d \<and> rule_rows_ok d \<and> wf_outbox d"

text \<open>The effect of the statements on templates, records and files.\<close>

lemma update_template_row_tables:
  assumes "update_template_row tid (\<lambda>_. g) now d = Inr (row, d')" and "\<And>t. t_id (g t) = t_id t" and "\<And>t. t_by (g t) = t_by t"
  shows "map t_id (templates d') = map t_id (templates d)" and "map t_by (templates d') = map t_by (templates d)"
    and "d' = d\<lparr>templates := templates d'\<rparr>"
  using assms(1) map_key_update_where [of t_id g, OF assms(2)] map_key_update_where [of t_by g, OF assms(3)]
  by (auto simp: update_template_row_def split: option.splits if_splits)

lemma delete_record_tables:
  assumes "delete_record_stmt tid rid now d = Inr (n, d')"
  obtains "d' = d" | "d' = d\<lparr>records := delete_where (\<lambda>a. a_id a = rid \<and> a_template a = tid) (records d),
    files := delete_where (\<lambda>f. f_record f = rid) (files d)\<rparr>"
  using assms by (auto simp: delete_record_stmt_def Let_def split: if_splits)

lemma templates_frame:
  assumes "d' = d\<lparr>templates := ts\<rparr>" and "map t_id ts = map t_id (templates d)" and "map t_by ts = map t_by (templates d)"
  shows "refs_ok d' \<longleftrightarrow> refs_ok d"
proof -
  have "t_id ` set ts = t_id ` set (templates d)" using assms(2) by (metis list.set_map)
  moreover have "t_by ` set ts = t_by ` set (templates d)" using assms(3) by (metis list.set_map)
  then have "(\<forall>b\<in>t_by ` set ts. \<forall>g. b = Some g \<longrightarrow> g \<in> u_id ` set (users d))
      \<longleftrightarrow> (\<forall>b\<in>t_by ` set (templates d). \<forall>g. b = Some g \<longrightarrow> g \<in> u_id ` set (users d))" by simp
  ultimately show ?thesis using assms(1) by (simp add: refs_ok_def refers_def ball_simps)
qed

lemma refs_write:
  assumes "table_write ok may rec tmpl d d'" and "refs_ok d"
  shows "refs_ok d'"
  using assms(1)
proof cases
  case (insert_user fresh r now x)
  then show ?thesis using refs_insert_user assms(2) by blast
next
  case (first_admin fresh nm h now x)
  then show ?thesis using assms(2) by (auto simp: insert_first_admin_def refs_ok_def refers_def admin_row_def split: if_splits)
next
  case (update_user f uid now n)
  then show ?thesis using refs_update_user assms(2) by blast
next
  case (delete_user uid now n)
  then show ?thesis using refs_delete_user assms(2) by blast
next
  case (upsert_rule req fresh granter now y)
  from upsert_rule(2) have g: "granter \<in> u_id ` set (users d)" by (auto simp: upsert_rule_def Let_def split: if_splits)
  from upsert_rule(2) show ?thesis
    by (cases rule: upsert_rule_cases) (use assms(2) g in \<open>auto simp: refs_ok_def refers_def in_update_where split: if_splits\<close>)
next
  case (delete_rules p)
  then show ?thesis using assms(2) by (auto simp: refs_ok_def refers_def)
next
  case (insert_template fresh ct schema uid now t)
  then have "d' = d\<lparr>templates := templates d @ [t]\<rparr> \<and> t_by t = Some uid \<and> uid \<in> u_id ` set (users d)"
    by (auto simp: insert_template_def Let_def split: if_splits)
  with assms(2) show ?thesis by (simp add: refs_ok_def refers_def)
next
  case (update_template g tid now row)
  then show ?thesis using update_template_row_tables [OF update_template(3,1,2)] templates_frame assms(2) by blast
next
  case (delete_template tid now n)
  then have d': "d' = d\<lparr>templates := delete_where (\<lambda>t. t_id t = tid) (templates d)\<rparr>"
    and free: "tid \<notin> t_id ` set (templates d) \<or> tid \<notin> a_template ` set (records d)"
    by (auto simp: delete_template_stmt_def split: if_splits)
  have "t_id ` set (templates d) - {tid} \<subseteq> t_id ` set (templates d')" by (auto simp: d')
  moreover have "\<forall>a\<in>set (records d). a_template a \<in> t_id ` set (templates d) - {tid}"
    using assms(2) free by (auto simp: refs_ok_def)
  ultimately have "\<forall>a\<in>set (records d). a_template a \<in> t_id ` set (templates d')" by blast
  with assms(2) show ?thesis by (simp add: refs_ok_def refers_def d') blast
next
  case (insert_record fresh v tid uid now a)
  then show ?thesis using assms(2) by (auto simp: insert_record_def Let_def refs_ok_def refers_def split: if_splits)
next
  case (insert_file rid fid key md uid now z)
  then show ?thesis using assms(2) by (auto simp: insert_file_def Let_def refs_ok_def refers_def split: if_splits)
next
  case (delete_record tid rid now n)
  then show ?thesis
  proof (cases rule: delete_record_tables)
    case 2
    have "a_id ` set (records d) - {rid} \<subseteq> a_id ` set (records d')" by (auto simp: 2)
    moreover have "\<forall>f\<in>set (files d'). f_record f \<in> a_id ` set (records d) - {rid}"
      using assms(2) by (auto simp: refs_ok_def 2)
    ultimately have "\<forall>f\<in>set (files d'). f_record f \<in> a_id ` set (records d')" by blast
    with assms(2) show ?thesis by (simp add: refs_ok_def refers_def 2) blast
  qed (use assms(2) in simp)
next
  case (insert_outbox c now i)
  then show ?thesis using assms(2) by (auto simp: insert_outbox_def refs_ok_def refers_def)
qed (use assms(2) in \<open>simp_all add: refs_ok_def refers_def\<close>)

lemma outbox_write:
  assumes "table_write ok may rec tmpl d d'" and "wf_outbox d"
  shows "wf_outbox d'"
  using assms(1)
proof cases
  case (insert_outbox c now i)
  with assms(2) show ?thesis by (fastforce simp: insert_outbox_def wf_outbox_def)
next
  case (update_outbox q f)
  with assms(2) show ?thesis by (simp add: wf_update)
next
  case (delete_outbox i)
  with assms(2) show ?thesis by (simp add: wf_delete)
next
  case (upsert_rule req fresh granter now y)
  from upsert_rule(2) show ?thesis by (cases rule: upsert_rule_cases) (use assms(2) in \<open>simp_all add: wf_outbox_def\<close>)
next
  case (delete_record tid rid now n)
  then show ?thesis by (cases rule: delete_record_tables) (use assms(2) in \<open>simp_all add: wf_outbox_def\<close>)
qed (use assms(2) in \<open>auto simp: insert_user_def insert_first_admin_def update_user_def delete_user_stmt_def insert_template_def
  update_template_row_def delete_template_stmt_def insert_record_def insert_file_def Let_def wf_outbox_def split: if_splits option.splits\<close>)


lemma keys_write:
  assumes "table_write ok may rec tmpl d d'" and "keys_ok d"
  shows "keys_ok d'"
  using assms(1)
proof cases
  case (upsert_rule req fresh granter now y)
  from upsert_rule(2) show ?thesis
  proof (cases rule: upsert_rule_cases)
    case (update r)
    let ?f = "\<lambda>r. r\<lparr>r_expires := g_expires req, r_granted := Some granter, r_desc := g_desc req\<rparr>"
    have "map r_id (update_where (upsert_match req) ?f (rules d)) = map r_id (rules d)"
      by (rule map_key_update_where) simp
    then have "map r_id (rules d') = map r_id (rules d)" unfolding update(4) by simp
    then show ?thesis using assms(2) unfolding keys_ok_def update(4) by simp
  qed (use assms(2) in \<open>simp add: keys_ok_def\<close>)
next
  case (delete_record tid rid now n)
  then show ?thesis
    by (cases rule: delete_record_tables) (use assms(2) in \<open>simp_all add: keys_ok_def distinct_delete_where\<close>)
next
  case (update_template g tid now row)
  note U = update_template_row_tables [OF update_template(3,1,2)]
  have "keys_ok (d\<lparr>templates := templates d'\<rparr>)" using assms(2) U(1) by (simp add: keys_ok_def)
  with U(3) show ?thesis by simp
qed (use assms(2) in \<open>auto simp: insert_user_def insert_first_admin_def update_user_def delete_user_stmt_def insert_template_def
  delete_template_stmt_def insert_record_def insert_file_def insert_outbox_def Let_def keys_ok_def distinct_delete_where comp_def
  split: if_splits\<close>)

lemma rule_rows_map:
  assumes "rule_rows_ok d" and "\<And>r. rule_key (f r) = rule_key r" and "rules d' = map f (delete_where p (rules d))"
  shows "rule_rows_ok d'"
proof -
  have key: "r_pattern (f r) = r_pattern r \<and> r_method (f r) = r_method r" for r
    using assms(2) [of r] by (simp add: rule_key_def)
  have "map rule_key (rules d') = map rule_key (delete_where p (rules d))" using assms(2,3) by simp
  then have "distinct (map rule_key (rules d'))"
    using assms(1) by (simp only: rule_rows_ok_def distinct_delete_where)
  with assms(1,3) key show ?thesis by (auto simp: rule_rows_ok_def)
qed

lemma rule_rows_write:
  assumes "table_write ok may rec tmpl d d'" and "rule_rows_ok d"
  shows "rule_rows_ok d'"
  using assms(1)
proof cases
  case (upsert_rule req fresh granter now y)
  from upsert_rule(2) show ?thesis
  proof (cases rule: upsert_rule_cases)
    case (update r)
    let ?f = "\<lambda>r. if upsert_match req r
      then r\<lparr>r_expires := g_expires req, r_granted := Some granter, r_desc := g_desc req\<rparr> else r"
    have "rules d' = map ?f (delete_where (\<lambda>_. False) (rules d))"
      using update(4) by (simp add: update_where_def delete_where_def)
    with assms(2) show ?thesis by (intro rule_rows_map [of d ?f d']) (simp_all add: rule_key_def)
  next
    case insert
    then show ?thesis using assms(2) upsert_rule(1) by (auto simp: rule_rows_ok_def rule_key_def upsert_match_def)
  qed
next
  case (delete_user uid now n)
  show ?thesis
  proof (cases "d' = d")
    case False
    with delete_user have "rules d' = map (\<lambda>r. r\<lparr>r_granted := forget_user uid (r_granted r)\<rparr>) (delete_where (\<lambda>r. r_user r = uid) (rules d))"
      by (auto simp: delete_user_stmt_def split: if_splits)
    then show ?thesis by (intro rule_rows_map [OF assms(2)]) (simp_all add: rule_key_def)
  qed (use assms(2) in simp)
next
  case (delete_rules p)
  with assms(2) show ?thesis by (auto simp: rule_rows_ok_def distinct_delete_where)
next
  case (delete_record tid rid now n)
  then show ?thesis by (cases rule: delete_record_tables) (use assms(2) in \<open>simp_all add: rule_rows_ok_def\<close>)
qed (use assms(2) in \<open>auto simp: insert_user_def insert_first_admin_def update_user_def insert_template_def update_template_row_def
  delete_template_stmt_def insert_record_def insert_file_def insert_outbox_def Let_def rule_rows_ok_def split: if_splits option.splits\<close>)

interpretation tables: table_invariant "\<lambda>_. True" "\<lambda>_. True" "\<lambda>w. tables_ok (db w)"
  by unfold_locales (auto simp: tables_ok_def dest: refs_write keys_write rule_rows_write outbox_write)

section \<open>Accounts that are gone\<close>

text \<open>
  No account has the id, no rule is for it, and it is not drawn again.
\<close>

definition gone :: "uuid \<Rightarrow> world \<Rightarrow> bool" where
  "gone uid w \<longleftrightarrow> uid \<notin> u_id ` set (users (db w)) \<and> (\<forall>n\<ge>drawn w. fresh_uuids w n \<noteq> uid)"

lemma gone_write:
  assumes "table_write (\<lambda>u. u \<noteq> uid) may rec tmpl d d'" and "uid \<notin> u_id ` set (users d)"
  shows "uid \<notin> u_id ` set (users d')"
  using assms(1)
proof cases
  case (upsert_rule req fresh granter now y)
  from upsert_rule(2) show ?thesis by (cases rule: upsert_rule_cases) (use assms(2) in simp_all)
next
  case (delete_record tid rid now n)
  then show ?thesis by (cases rule: delete_record_tables) (use assms(2) in simp_all)
next
  case (update_user f x now n)
  then obtain p where "users d' = update_where p f (users d)"
    by (auto simp: Users.update_user_def split: if_splits)
  then have "u_id ` set (users d') = u_id ` set (users d)" using update_user_ids(3) [OF update_user(1,2)] by simp
  with assms(2) show ?thesis by simp
qed (use assms(2) in \<open>auto simp: insert_user_def new_user_row_def insert_first_admin_def admin_row_def delete_user_stmt_def
  insert_template_def update_template_row_def delete_template_stmt_def insert_record_def insert_file_def insert_outbox_def Let_def
  split: if_splits option.splits\<close>)

interpretation absent: table_invariant "\<lambda>u. u \<noteq> uid" "\<lambda>_. True" "gone uid" for uid
  by unfold_locales (auto simp: gone_def dest: gone_write)

end
