(* ===== verification/Server.thy ===== *)
theory Server
  imports Tables
begin

text \<open>
  The whole server: the route tables of \<open>startup.rs\<close> and the modules' \<open>config\<close> functions, the way a
  request takes to its handler, and what holds over every run of requests and background work.
\<close>

section \<open>Route tables\<close>

datatype endpoint =
    EHealth | ELogin
  | ECreateUser | EModifyUserStatus | EQueryUsers | EAdminPassword | EDeleteUser
  | EGrantRule | ERevokeRule | EQueryRules | ERegistryRoutes
  | ECreateTemplate | EQueryTemplates | EUpdateTemplate | EDeleteTemplate | EModifyTemplateStatus | ECategories
  | EPassword | EAvatarUrl | EUpdateAvatar | EMe | EUpdateMe | EMyRoutes
  | ECreateRecord | EQueryRecords | EInitUpload | EUploadUrl | EDeleteRecord | ETemplateInfo

type_synonym route = "http_method \<times> string \<times> endpoint"

text \<open>\<open>web::scope(p)\<close> puts its prefix before the paths inside.\<close>

definition scope :: "string \<Rightarrow> route list \<Rightarrow> route list" where
  "scope p rs = map (\<lambda>(m, s, e). (m, p @ s, e)) rs"

definition admin_user_config :: "route list" where
  "admin_user_config = scope ''/user''
     [(POST, ''/create'', ECreateUser), (PATCH, ''/modify_status'', EModifyUserStatus), (GET, ''/query'', EQueryUsers),
      (PATCH, ''/password'', EAdminPassword), (DELETE, ''/delete/{user_id}'', EDeleteUser)]"

definition api_rule_config :: "route list" where
  "api_rule_config = scope ''/api_rule''
     [(POST, ''/grant'', EGrantRule), (DELETE, ''/revoke/{rule_id}'', ERevokeRule), (GET, ''/query'', EQueryRules),
      (GET, ''/routes'', ERegistryRoutes)]"

definition template_config :: "route list" where
  "template_config = scope ''/template''
     [(POST, ''/create'', ECreateTemplate), (GET, ''/query'', EQueryTemplates), (PATCH, ''/update'', EUpdateTemplate),
      (DELETE, ''/delete/{template_id}'', EDeleteTemplate), (PATCH, ''/modify_status'', EModifyTemplateStatus),
      (GET, ''/all_categories'', ECategories)]"

definition admin_config :: "route list" where
  "admin_config = scope ''/admin'' (admin_user_config @ api_rule_config @ template_config)"

definition user_config :: "route list" where
  "user_config = scope ''/user''
     [(PATCH, ''/password'', EPassword), (POST, ''/avatar/presigned'', EAvatarUrl), (PATCH, ''/avatar/{file_id}'', EUpdateAvatar),
      (GET, ''/me'', EMe), (PATCH, ''/update'', EUpdateMe), (GET, ''/routes'', EMyRoutes)]"

definition archive_config :: "route list" where
  "archive_config = scope ''/archive''
     [(POST, ''/{template_id}/create'', ECreateRecord), (POST, ''/{template_id}/query'', EQueryRecords),
      (GET, ''/{template_id}/init_upload'', EInitUpload), (POST, ''/{template_id}/presigned'', EUploadUrl),
      (DELETE, ''/{template_id}/delete/{record_id}'', EDeleteRecord), (GET, ''/{template_id}/info'', ETemplateInfo)]"

text \<open>
  The routes of \<open>run\<close>: two open ones, and the scope behind \<open>mw_authentication\<close>. A build with the feature \<open>swagger\<close> also mounts
  the viewer of its library at \<open>/swagger-ui\<close> and the document at \<open>/api-docs/openapi.json\<close>, both open; they are left out.
\<close>

definition open_routes :: "route list" where
  "open_routes = [(GET, ''/health_check'', EHealth), (POST, ''/api/auth/login'', ELogin)]"

definition protected_routes :: "route list" where
  "protected_routes = scope ''/api'' (admin_config @ user_config @ archive_config)"

section \<open>Requests\<close>

text \<open>A request as the framework hands it to a handler: path arguments and body decoded.\<close>

datatype api_call =
    HealthCheck
  | Login string string
  | CreateUser register_request
  | ModifyUserStatus uuid bool
  | QueryUsers query_user_request
  | AdminPassword uuid string
  | DeleteUser uuid
  | GrantRule grant_request
  | RevokeRule uuid
  | QueryRules query_rules_request
  | RegistryRoutes routes_filter
  | CreateTemplate create_template_request
  | QueryTemplates query_templates_request
  | UpdateTemplate update_template_request
  | DeleteTemplate uuid
  | ModifyTemplateStatus uuid bool
  | Categories
  | ChangePassword string string
  | AvatarUrl avatar_request
  | UpdateAvatar uuid
  | Me
  | UpdateMe "string option" "string option"
  | MyRoutes
  | CreateRecord uuid create_record_request
  | QueryRecords uuid query_records_request
  | InitUpload uuid
  | UploadUrl uuid presigned_request
  | DeleteRecord uuid uuid
  | TemplateInfo uuid

fun endpoint_of :: "api_call \<Rightarrow> endpoint" where
  "endpoint_of HealthCheck = EHealth"
| "endpoint_of (Login _ _) = ELogin"
| "endpoint_of (CreateUser _) = ECreateUser"
| "endpoint_of (ModifyUserStatus _ _) = EModifyUserStatus"
| "endpoint_of (QueryUsers _) = EQueryUsers"
| "endpoint_of (AdminPassword _ _) = EAdminPassword"
| "endpoint_of (DeleteUser _) = EDeleteUser"
| "endpoint_of (GrantRule _) = EGrantRule"
| "endpoint_of (RevokeRule _) = ERevokeRule"
| "endpoint_of (QueryRules _) = EQueryRules"
| "endpoint_of (RegistryRoutes _) = ERegistryRoutes"
| "endpoint_of (CreateTemplate _) = ECreateTemplate"
| "endpoint_of (QueryTemplates _) = EQueryTemplates"
| "endpoint_of (UpdateTemplate _) = EUpdateTemplate"
| "endpoint_of (DeleteTemplate _) = EDeleteTemplate"
| "endpoint_of (ModifyTemplateStatus _ _) = EModifyTemplateStatus"
| "endpoint_of Categories = ECategories"
| "endpoint_of (ChangePassword _ _) = EPassword"
| "endpoint_of (AvatarUrl _) = EAvatarUrl"
| "endpoint_of (UpdateAvatar _) = EUpdateAvatar"
| "endpoint_of Me = EMe"
| "endpoint_of (UpdateMe _ _) = EUpdateMe"
| "endpoint_of MyRoutes = EMyRoutes"
| "endpoint_of (CreateRecord _ _) = ECreateRecord"
| "endpoint_of (QueryRecords _ _) = EQueryRecords"
| "endpoint_of (InitUpload _) = EInitUpload"
| "endpoint_of (UploadUrl _ _) = EUploadUrl"
| "endpoint_of (DeleteRecord _ _) = EDeleteRecord"
| "endpoint_of (TemplateInfo _) = ETemplateInfo"

text \<open>The arguments a handler takes from the path (\<open>web::Path\<close>).\<close>

fun path_args :: "api_call \<Rightarrow> (string \<times> uuid) list" where
  "path_args (DeleteUser u) = [(''user_id'', u)]"
| "path_args (RevokeRule r) = [(''rule_id'', r)]"
| "path_args (DeleteTemplate t) = [(''template_id'', t)]"
| "path_args (UpdateAvatar f) = [(''file_id'', f)]"
| "path_args (CreateRecord t _) = [(''template_id'', t)]"
| "path_args (QueryRecords t _) = [(''template_id'', t)]"
| "path_args (InitUpload t) = [(''template_id'', t)]"
| "path_args (UploadUrl t _) = [(''template_id'', t)]"
| "path_args (DeleteRecord t r) = [(''template_id'', t), (''record_id'', r)]"
| "path_args (TemplateInfo t) = [(''template_id'', t)]"
| "path_args _ = []"

text \<open>
  A path is an instance of a route when the segments agree; a segment in braces stands for a text
  that parses to the argument of that name.
\<close>

definition segment_fits :: "externs \<Rightarrow> (string \<times> uuid) list \<Rightarrow> string \<Rightarrow> string \<Rightarrow> bool" where
  "segment_fits X args pat txt =
     (if pat \<noteq> [] \<and> hd pat = CHR ''{''
      then (case map_of args (butlast (tl pat)) of None \<Rightarrow> False | Some u \<Rightarrow> x_uuid_parse X txt = Some u)
      else txt = pat)"

definition path_fits :: "externs \<Rightarrow> (string \<times> uuid) list \<Rightarrow> string \<Rightarrow> string \<Rightarrow> bool" where
  "path_fits X args pat p = list_all2 (segment_fits X args) (split_on (CHR ''/'') pat) (split_on (CHR ''/'') p)"

definition routed :: "externs \<Rightarrow> http_request \<Rightarrow> api_call \<Rightarrow> bool" where
  "routed X req call =
     list_ex (\<lambda>(m, pat, e). e = endpoint_of call \<and> req_method req = method_as_str m
        \<and> path_fits X (path_args call) pat (req_path req)) (open_routes @ protected_routes)"


section \<open>From the request to the answer\<close>

datatype reply =
    Done "unit app_response"
  | TextReply "string app_response"
  | TextsReply "string list app_response"
  | UserReply "user_dto app_response"
  | UsersReply "user_dto page_data app_response"
  | InfoReply "user_info app_response"
  | RuleReply "api_rule_dto app_response"
  | RulesReply "api_rule_dto page_data app_response"
  | RoutesReply "route_info list app_response"
  | TemplateReply "template_dto app_response"
  | TemplatesReply "template_dto page_data app_response"
  | RecordReply "record_dto app_response"
  | RecordsReply "record_dto page_data app_response"
  | SessionReply "uuid app_response"
  | UploadReply "(string \<times> uuid) app_response"

definition answer :: "('a \<Rightarrow> reply) \<Rightarrow> (world, app_error, 'a) prog \<Rightarrow> (world, app_error, reply) prog" where
  "answer f m = and_then m (\<lambda>x. return (f x))"

text \<open>The handler of a protected route, with the claims the middleware leaves in the request.\<close>

fun handle_call :: "externs \<Rightarrow> claims \<Rightarrow> api_call \<Rightarrow> (world, app_error, reply) prog" where
  "handle_call X user (CreateUser r) = answer UserReply (create_user_handler X r)"
| "handle_call X user (ModifyUserStatus u act) = answer Done (modify_user_status_handler u act user)"
| "handle_call X user (QueryUsers q) = answer UsersReply (query_users_handler X q)"
| "handle_call X user (AdminPassword u p) = answer Done (admin_change_user_password_handler X u p)"
| "handle_call X user (DeleteUser u) = answer Done (admin_delete_user_handler u user)"
| "handle_call X user (GrantRule r) = answer RuleReply (grant_user_api_rule_handler X r user)"
| "handle_call X user (RevokeRule r) = answer Done (revoke_user_api_rule_handler r)"
| "handle_call X user (QueryRules q) = answer RulesReply (query_user_api_access_rules_handler q)"
| "handle_call X user (RegistryRoutes f) = answer RoutesReply (get_registry_routes_handler X f)"
| "handle_call X user (CreateTemplate r) = answer TemplateReply (create_template_handler X r user)"
| "handle_call X user (QueryTemplates q) = answer TemplatesReply (query_templates_handler q)"
| "handle_call X user (UpdateTemplate r) = answer TemplateReply (update_template_handler X r)"
| "handle_call X user (DeleteTemplate t) = answer Done (delete_template_handler t)"
| "handle_call X user (ModifyTemplateStatus t act) = answer Done (modify_template_status_handler t act)"
| "handle_call X user Categories = answer TextsReply get_all_template_categories"
| "handle_call X user (ChangePassword raw new) = answer Done (change_password_handler X user raw new)"
| "handle_call X user (AvatarUrl r) = answer UploadReply (presigned_avatar_url_handler X r)"
| "handle_call X user (UpdateAvatar f) = answer TextReply (update_avatar_handler X user f)"
| "handle_call X user Me = answer InfoReply (get_user_info_handler X user)"
| "handle_call X user (UpdateMe email phone) = answer Done (update_user_info_handler X user email phone)"
| "handle_call X user MyRoutes = answer RoutesReply (get_user_effective_routes_handler X user)"
| "handle_call X user (CreateRecord t r) = answer RecordReply (create_archive_record_handler X t r user)"
| "handle_call X user (QueryRecords t q) = answer RecordsReply (query_archive_records_handler X t q)"
| "handle_call X user (InitUpload t) = answer SessionReply (init_upload_session_handler X user t)"
| "handle_call X user (UploadUrl t r) = answer UploadReply (presigned_upload_url_handler X r user)"
| "handle_call X user (DeleteRecord t r) = answer Done (delete_archive_record_handler t r)"
| "handle_call X user (TemplateInfo t) = answer TemplateReply (get_template_info_handler t)"
| "handle_call X user _ = throw Unauthorized"

text \<open>
  The last equation is never used: the open routes are served without the middleware.
  \<open>expiration\<close> is the lifetime of tokens.
\<close>

fun serve :: "externs \<Rightarrow> 64 word \<Rightarrow> http_request \<Rightarrow> api_call \<Rightarrow> (world, app_error, reply) prog" where
  "serve X expiration req HealthCheck = return (Done \<lparr>code = 200, message = ''success'', data = None\<rparr>)"
| "serve X expiration req (Login nm p) = answer TextReply (login_user_handler X expiration nm p)"
| "serve X expiration req call = mw_authentication X req (\<lambda>user. handle_call X user call)"

definition needs_login :: "api_call \<Rightarrow> bool" where
  "needs_login call \<longleftrightarrow> endpoint_of call \<notin> {EHealth, ELogin}"

lemma serve_protected: "needs_login call \<Longrightarrow> serve X expiration req call = mw_authentication X req (\<lambda>user. handle_call X user call)"
  by (cases call) (simp_all add: needs_login_def)

section \<open>Admission\<close>

text \<open>The middleware with a continuation is its check, then the continuation.\<close>

lemma mw_then: "mw_authentication X req next = and_then (mw_authentication X req return) next"
proof (rule ext)
  fix w
  show "mw_authentication X req next w = and_then (mw_authentication X req return) next w"
  proof (cases "parse_token req")
    case (Some token)
    show ?thesis
    proof (cases "check_token X (clock w) token")
      case (Inr c)
      have a: "and_then (and_then m (\<lambda>_. and_then n (\<lambda>_. return c))) next = and_then m (\<lambda>_. and_then n (\<lambda>_. next c))" for m n
        by (simp add: and_then_assoc)
      from Some Inr show ?thesis by (simp add: mw_authentication_def and_then_def [of _ "next" w] a [symmetric])
    qed (simp add: Some mw_authentication_def and_then_def throw_def)
  qed (simp add: mw_authentication_def)
qed

text \<open>The middleware writes nothing.\<close>

lemma keeps_fetch_one: "fault_free_inv I \<Longrightarrow> keeps I (fetch_one q)"
  unfolding fetch_one_def by (intro keeps_rules keeps_select)

lemma keeps_check_token: "keeps I (\<lambda>w. (case f w of Inl e \<Rightarrow> throw e | Inr c \<Rightarrow> g c) w) \<longleftrightarrow> (\<forall>w c. I w \<longrightarrow> f w = Inr c \<longrightarrow> I (snd (g c w)))"
  by (auto simp: keeps_def throw_def split: sum.splits)

lemma mw_keeps:
  assumes "fault_free_inv I"
  shows "keeps I (mw_authentication X req return)"
proof -
  have en: "keeps I (check_user_enabled c)" for c
    unfolding check_user_enabled_def by (intro keeps_rules keeps_fetch_one assms)
  have ro: "keeps I (check_user_role u p m)" for u p m
    unfolding check_user_role_def by (intro keeps_rules keeps_select assms)
  have "keeps I (and_then (check_user_enabled c) (\<lambda>_. and_then (if role c = USER then check_user_role (sub c) (req_path req) (req_method req) else return ())
      (\<lambda>_. return c)))" for c
    by (intro keeps_rules en ro)
  then have "I w \<Longrightarrow> I (snd (and_then (check_user_enabled c) (\<lambda>_. and_then (if role c = USER then check_user_role (sub c) (req_path req) (req_method req) else return ())
      (\<lambda>_. return c)) w))" for c w by (rule keepsD)
  then show ?thesis
    unfolding mw_authentication_def by (auto simp: keeps_check_token intro: keeps_throw split: option.splits)
qed


section \<open>Who is served\<close>

text \<open>
  What a rule opens: its pattern without the final slash, and everything below, where an underscore
  of the pattern stands for any character (\<open>LIKE\<close>).
\<close>

definition opens :: "string \<Rightarrow> string \<Rightarrow> bool" where
  "opens pat p \<longleftrightarrow> p @ ''/'' = pat
     \<or> length pat \<le> length p \<and> list_all2 (\<lambda>c d. c = d \<or> c = CHR ''_'') pat (take (length pat) p)"

definition rule_opens :: "int \<Rightarrow> uuid \<Rightarrow> http_request \<Rightarrow> rule_row \<Rightarrow> bool" where
  "rule_opens now uid req r \<longleftrightarrow>
     r_user r = uid \<and> r_method r \<in> {''ALL'', req_method req} \<and> (\<forall>e. r_expires r = Some e \<longrightarrow> now < e)
     \<and> opens (r_pattern r) (req_path req)"

definition authorised :: "externs \<Rightarrow> int \<Rightarrow> database \<Rightarrow> http_request \<Rightarrow> claims \<Rightarrow> bool" where
  "authorised X now d req c \<longleftrightarrow>
     (\<exists>token. authorization req = Some (''Bearer '' @ token) \<and> x_jwt_decode X now token = Inr c)
     \<and> (\<exists>u\<in>set (users d). u_id u = sub c \<and> u_active u)
     \<and> (role c = USER \<longrightarrow> prefix ''/api/user/'' (req_path req) \<or> (\<exists>r\<in>set (rules d). rule_opens now (sub c) req r))"

lemma like_wildcard:
  "CHR ''%'' \<notin> set pat \<Longrightarrow> CHR 0x5C \<notin> set pat \<Longrightarrow> like (pat @ ''%'') p \<longleftrightarrow>
     length pat \<le> length p \<and> list_all2 (\<lambda>c d. c = d \<or> c = CHR ''_'') pat (take (length pat) p)"
proof (induction pat arbitrary: p)
  case Nil
  show ?case by (simp add: like_percent)
next
  case (Cons c pat)
  then show ?case by (cases p) auto
qed

lemma clause_opens:
  assumes "api_pattern_ok pat"
  shows "right_is_slash pat \<and> p = rtrim_slash pat \<or> like (pat @ ''%'') p \<longleftrightarrow> opens pat p"
proof -
  from assms obtain t where t: "pat = t @ ''/''" "t \<noteq> []" "last t \<noteq> CHR ''/''"
    and lit: "CHR ''%'' \<notin> set pat" "CHR 0x5C \<notin> set pat" by (rule api_pattern_shape)
  have "right_is_slash pat" "rtrim_slash pat = t"
    using t rtrim_slash_id [of t] by (simp_all add: right_is_slash_def rtrim_slash_snoc)
  with like_wildcard [OF lit, of p] t show ?thesis by (auto simp: opens_def)
qed

lemma permission_opens:
  assumes "rule_rows_ok d"
  shows "has_permission now d uid (req_path req) (req_method req) \<longleftrightarrow> (\<exists>r\<in>set (rules d). rule_opens now uid req r)"
proof -
  have "rule_permits now uid (req_path req) (req_method req) r \<longleftrightarrow> rule_opens now uid req r" if "r \<in> set (rules d)" for r
    using assms that clause_opens [of "r_pattern r" "req_path req"]
    by (auto simp: rule_rows_ok_def rule_permits_def rule_opens_def split: option.splits)
  then show ?thesis by (auto simp: has_permission_def list_ex_iff)
qed

text \<open>The checks of the middleware either pass or answer with an error; they never write.\<close>

lemma check_user_enabled_cases:
  obtains (err) e fs where "check_user_enabled c w = (Err e, w\<lparr>faults := fs\<rparr>)"
  | (ok) fs u where "check_user_enabled c w = (Ok (), w\<lparr>faults := fs\<rparr>)" "u \<in> set (users (db w))" "u_id u = sub c" "u_active u"
proof (cases rule: unexpected_select_cases [of "\<lambda>_ d. map_option u_active (row_by u_id (sub c) (users d))" w])
  case (err e fs)
  then have "check_user_enabled c w = (Err e, w\<lparr>faults := fs\<rparr>)"
    by (auto simp: check_user_enabled_def fetch_one_def unexpected_def map_err_def and_then_def split: prod.splits result.splits)
  then show ?thesis by (rule that(1))
next
  case (ok fs)
  then have sel: "select (\<lambda>_ d. map_option u_active (row_by u_id (sub c) (users d))) w
      = (Ok (map_option u_active (row_by u_id (sub c) (users (db w)))), w\<lparr>faults := fs\<rparr>)"
    by (simp add: unexpected_def)
  show ?thesis
  proof (cases "row_by u_id (sub c) (users (db w))")
    case (Some u)
    then have u: "u \<in> set (users (db w))" "u_id u = sub c" by (auto dest: row_by_SomeD)
    from Some sel have run: "check_user_enabled c w = (if u_active u then (Ok (), w\<lparr>faults := fs\<rparr>) else (Err UserDisabled, w\<lparr>faults := fs\<rparr>))"
      by (simp add: check_user_enabled_def fetch_one_def unexpected_def map_err_def and_then_def throw_def return_def)
    show ?thesis
    proof (cases "u_active u")
      case True
      with run u show ?thesis by (intro that(2)) simp_all
    next
      case False
      with run show ?thesis by (intro that(1)) simp
    qed
  next
    case None
    with sel that(1) [of "UnexpectedError (DbErr None)" fs] show ?thesis
      by (auto simp: check_user_enabled_def fetch_one_def unexpected_def map_err_def and_then_def throw_def)
  qed
qed

lemma check_user_role_cases:
  obtains (err) e fs where "check_user_role uid p m w = (Err e, w\<lparr>faults := fs\<rparr>)"
  | (ok) fs where "check_user_role uid p m w = (Ok (), w\<lparr>faults := fs\<rparr>)"
      "prefix ''/api/user/'' p \<or> has_permission (clock w) (db w) uid p m"
proof (cases "prefix ''/api/user/'' p")
  case True
  then have "check_user_role uid p m w = (Ok (), w\<lparr>faults := faults w\<rparr>)"
    by (simp add: check_user_role_def basic_permissions_def return_def)
  with True show ?thesis by (blast intro: that(2))
next
  case False
  show ?thesis
  proof (cases rule: unexpected_select_cases [of "\<lambda>now d. has_permission now d uid p m" w])
    case (err e fs)
    with False that(1) [of e fs] show ?thesis by (simp add: check_user_role_def basic_permissions_def and_then_def)
  next
    case (ok fs)
    with False have run: "check_user_role uid p m w = (if has_permission (clock w) (db w) uid p m then (Ok (), w\<lparr>faults := fs\<rparr>)
        else (Err (Forbidden ''user lacks permission''), w\<lparr>faults := fs\<rparr>))"
      by (simp add: check_user_role_def basic_permissions_def and_then_def throw_def return_def)
    show ?thesis
    proof (cases "has_permission (clock w) (db w) uid p m")
      case True
      with run show ?thesis by (intro that(2)) simp_all
    next
      case lacking: False
      with run show ?thesis by (intro that(1)) simp
    qed
  qed
qed

lemma mw_cases:
  assumes "rule_rows_ok (db w)"
  obtains (refused) e fs where "mw_authentication X req next w = (Err e, w\<lparr>faults := fs\<rparr>)"
  | (passed) c fs where "mw_authentication X req next w = next c (w\<lparr>faults := fs\<rparr>)" "authorised X (clock w) (db w) req c"
proof -
  have same: "w = w\<lparr>faults := faults w\<rparr>" by simp
  show ?thesis
  proof (cases "parse_token req")
    case None
    then have "mw_authentication X req next w = (Err Unauthorized, w)" by (simp add: mw_authentication_def throw_def)
    with same show ?thesis by (metis refused)
  next
    case (Some token)
    show ?thesis
    proof (cases "check_token X (clock w) token")
      case (Inl e)
      with Some have "mw_authentication X req next w = (Err e, w)" by (simp add: mw_authentication_def throw_def)
      with same show ?thesis by (metis refused)
    next
      case (Inr c)
      then have dec: "x_jwt_decode X (clock w) token = Inr c"
        by (auto simp: check_token_def split: sum.splits jwt_error.splits)
      let ?role = "if role c = USER then check_user_role (sub c) (req_path req) (req_method req) else return ()"
      have run: "mw_authentication X req next w = and_then (check_user_enabled c) (\<lambda>_. and_then ?role (\<lambda>_. next c)) w"
        using Some Inr by (simp add: mw_authentication_def)
      show ?thesis
      proof (cases rule: check_user_enabled_cases [of c w])
        case (err e fs)
        with run show ?thesis by (intro refused) (simp add: and_then_def)
      next
        case (ok fs u)
        show ?thesis
        proof (cases "role c = USER")
          case True
          show ?thesis
          proof (cases rule: check_user_role_cases [of "sub c" "req_path req" "req_method req" "w\<lparr>faults := fs\<rparr>"])
            case (err e fs')
            with run ok True show ?thesis by (intro refused) (simp add: and_then_def)
          next
            case role: (ok fs')
            with ok dec Some True permission_opens [OF assms] have "authorised X (clock w) (db w) req c"
              by (auto simp: authorised_def parse_token_iff)
            with run ok role True show ?thesis by (intro passed [of c fs']) (simp_all add: and_then_def)
          qed
        next
          case False
          with ok dec Some have "authorised X (clock w) (db w) req c" by (auto simp: authorised_def parse_token_iff)
          with run ok False show ?thesis by (intro passed [of c fs]) (simp_all add: and_then_def return_def)
        qed
      qed
    qed
  qed
qed

text \<open>C1: Behind the login nothing happens without permission. Whatever calls fail, a request for a protected
  route either is handled with claims \<open>c\<close> that are entitled to it (a valid token, an
  existing active account, and for ordinary users a path under \<open>/api/user/\<close> or an unexpired rule for the method
  that opens the path), or it is answered with an error and no state changes.\<close>

theorem only_authorised_requests_are_served:
  assumes "rule_rows_ok (db w)" and "needs_login call"
  shows "(\<exists>c fs. authorised X (clock w) (db w) req c \<and> serve X expiration req call w = handle_call X c call (w\<lparr>faults := fs\<rparr>))
     \<or> (\<exists>e fs. serve X expiration req call w = (Err e, w\<lparr>faults := fs\<rparr>))"
  using mw_cases [OF assms(1), of X req "\<lambda>c. handle_call X c call"] serve_protected [OF assms(2), of X expiration req]
  by metis


lemma demo_rules_ok: "rule_rows_ok (db (demo_access [demo_rule 7 1 ''/api/archive/'' ''GET'']))"
proof -
  have "''GET'' = method_as_str GET" by simp
  then have "''GET'' \<in> range method_as_str" by (rule range_eqI)
  then show ?thesis
    by (simp add: rule_rows_ok_def demo_access_def demo_rule_def api_pattern_ok_def pattern_char_def is_lower_def is_digit_def)
qed

theorem only_authorised_requests_are_served_witness:
  "let w = demo_access [demo_rule 7 1 ''/api/archive/'' ''GET'']; req = demo_request ''Ua'' ''/api/user/me'' ''GET''
   in (\<exists>c fs. authorised demo_externs (clock w) (db w) req c \<and> serve demo_externs 60 req Me w = handle_call demo_externs c Me (w\<lparr>faults := fs\<rparr>))
      \<or> (\<exists>e fs. serve demo_externs 60 req Me w = (Err e, w\<lparr>faults := fs\<rparr>))"
  unfolding Let_def by (rule only_authorised_requests_are_served [OF demo_rules_ok]) (simp add: needs_login_def)

end
