(* ===== verification/Routing.thy ===== *)
theory Routing
  imports Server
begin

text \<open>
  The route tables and the permissions: which routes the permission every account has opens, and
  whether the routes listed to administrators are those the router knows.
\<close>

section \<open>Routes and the basic permission\<close>

lemma split_on_append: "split_on c (a @ c # b) = split_on c a @ split_on c b"
proof (induction a)
  case (Cons x a)
  then show ?case by (cases "split_on c a") (auto split: list.splits)
qed simp

text \<open>The routes with the segments of their patterns.\<close>

definition route_segments :: "(endpoint \<times> http_method \<times> string list) list" where
  "route_segments = map (\<lambda>(m, p, e). (e, m, split_on (CHR ''/'') p)) (open_routes @ protected_routes)"

lemma route_segments_eval: "route_segments =
  [(EHealth, GET, [[], ''health_check'']), (ELogin, POST, [[], ''api'', ''auth'', ''login'']),
   (ECreateUser, POST, [[], ''api'', ''admin'', ''user'', ''create'']),
   (EModifyUserStatus, PATCH, [[], ''api'', ''admin'', ''user'', ''modify_status'']),
   (EQueryUsers, GET, [[], ''api'', ''admin'', ''user'', ''query'']),
   (EAdminPassword, PATCH, [[], ''api'', ''admin'', ''user'', ''password'']),
   (EDeleteUser, DELETE, [[], ''api'', ''admin'', ''user'', ''delete'', ''{user_id}'']),
   (EGrantRule, POST, [[], ''api'', ''admin'', ''api_rule'', ''grant'']),
   (ERevokeRule, DELETE, [[], ''api'', ''admin'', ''api_rule'', ''revoke'', ''{rule_id}'']),
   (EQueryRules, GET, [[], ''api'', ''admin'', ''api_rule'', ''query'']),
   (ERegistryRoutes, GET, [[], ''api'', ''admin'', ''api_rule'', ''routes'']),
   (ECreateTemplate, POST, [[], ''api'', ''admin'', ''template'', ''create'']),
   (EQueryTemplates, GET, [[], ''api'', ''admin'', ''template'', ''query'']),
   (EUpdateTemplate, PATCH, [[], ''api'', ''admin'', ''template'', ''update'']),
   (EDeleteTemplate, DELETE, [[], ''api'', ''admin'', ''template'', ''delete'', ''{template_id}'']),
   (EModifyTemplateStatus, PATCH, [[], ''api'', ''admin'', ''template'', ''modify_status'']),
   (ECategories, GET, [[], ''api'', ''admin'', ''template'', ''all_categories'']),
   (EPassword, PATCH, [[], ''api'', ''user'', ''password'']),
   (EAvatarUrl, POST, [[], ''api'', ''user'', ''avatar'', ''presigned'']),
   (EUpdateAvatar, PATCH, [[], ''api'', ''user'', ''avatar'', ''{file_id}'']),
   (EMe, GET, [[], ''api'', ''user'', ''me'']), (EUpdateMe, PATCH, [[], ''api'', ''user'', ''update'']),
   (EMyRoutes, GET, [[], ''api'', ''user'', ''routes'']),
   (ECreateRecord, POST, [[], ''api'', ''archive'', ''{template_id}'', ''create'']),
   (EQueryRecords, POST, [[], ''api'', ''archive'', ''{template_id}'', ''query'']),
   (EInitUpload, GET, [[], ''api'', ''archive'', ''{template_id}'', ''init_upload'']),
   (EUploadUrl, POST, [[], ''api'', ''archive'', ''{template_id}'', ''presigned'']),
   (EDeleteRecord, DELETE, [[], ''api'', ''archive'', ''{template_id}'', ''delete'', ''{record_id}'']),
   (ETemplateInfo, GET, [[], ''api'', ''archive'', ''{template_id}'', ''info''])]"
  by code_simp

text \<open>What a pattern says of a path: literal segments are met, the others are free.\<close>

definition literal_fits :: "string \<Rightarrow> string \<Rightarrow> bool" where
  "literal_fits pat txt \<longleftrightarrow> (pat \<noteq> [] \<and> hd pat = CHR ''{'') \<or> txt = pat"

lemma literal_fits_simps [simp]: "literal_fits [] txt \<longleftrightarrow> txt = []" "literal_fits (CHR ''{'' # s) txt"
  "c \<noteq> CHR ''{'' \<Longrightarrow> literal_fits (c # s) txt \<longleftrightarrow> txt = c # s"
  by (auto simp: literal_fits_def)

lemma routedE:
  assumes "routed X req call"
  obtains m psegs where "(endpoint_of call, m, psegs) \<in> set route_segments" and "req_method req = method_as_str m"
    and "list_all2 literal_fits psegs (split_on (CHR ''/'') (req_path req))"
proof -
  from assms obtain m pat where r: "(m, pat, endpoint_of call) \<in> set (open_routes @ protected_routes)"
    and m: "req_method req = method_as_str m"
    and fits: "list_all2 (segment_fits X (path_args call)) (split_on (CHR ''/'') pat) (split_on (CHR ''/'') (req_path req))"
    by (auto simp: routed_def path_fits_def list_ex_iff simp del: set_append)
  from r have "(endpoint_of call, m, split_on (CHR ''/'') pat) \<in> set route_segments"
    unfolding route_segments_def set_map by (rule rev_image_eqI) simp
  moreover from fits have "list_all2 literal_fits (split_on (CHR ''/'') pat) (split_on (CHR ''/'') (req_path req))"
    by (rule list_all2_mono) (auto simp: segment_fits_def literal_fits_def split: if_splits)
  ultimately show thesis using m by (intro that)
qed

lemma under_segments:
  assumes "CHR ''/'' \<notin> set a" and "CHR ''/'' \<notin> set b"
  shows "prefix (''/'' @ a @ ''/'' @ b @ ''/'') p \<longleftrightarrow> (\<exists>segs. segs \<noteq> [] \<and> split_on (CHR ''/'') p = [] # a # b # segs)"
proof -
  have whole: "CHR ''/'' \<notin> set u \<Longrightarrow> split_on (CHR ''/'') u = [u]" for u by (induction u) auto
  show ?thesis
  proof
    assume "prefix (''/'' @ a @ ''/'' @ b @ ''/'') p"
    then obtain t where "p = [] @ CHR ''/'' # a @ CHR ''/'' # b @ CHR ''/'' # t" by (auto simp: prefix_def)
    then have "split_on (CHR ''/'') p = [] # a # b # split_on (CHR ''/'') t"
      by (simp only: split_on_append whole [OF assms(1)] whole [OF assms(2)]) simp
    then show "\<exists>segs. segs \<noteq> [] \<and> split_on (CHR ''/'') p = [] # a # b # segs" by auto
  next
    assume "\<exists>segs. segs \<noteq> [] \<and> split_on (CHR ''/'') p = [] # a # b # segs"
    then obtain segs where "segs \<noteq> []" "split_on (CHR ''/'') p = [] # a # b # segs" by blast
    with split_on_join [of "CHR ''/''" p] show "prefix (''/'' @ a @ ''/'' @ b @ ''/'') p" by (auto simp: prefix_def)
  qed
qed

definition own_account :: "endpoint set" where
  "own_account = {EPassword, EAvatarUrl, EUpdateAvatar, EMe, EUpdateMe, EMyRoutes}"

lemma own_account_segments:
  assumes "(e, m, psegs) \<in> set route_segments" and "list_all2 literal_fits psegs segs"
  shows "(\<exists>rest. rest \<noteq> [] \<and> segs = [] # ''api'' # ''user'' # rest) \<longleftrightarrow> e \<in> own_account"
  using assms unfolding route_segments_eval list.set own_account_def
  by (elim insertE emptyE Pair_inject) (clarsimp simp: list_all2_Cons1)+

text \<open>C37: The permission every account has opens its own data and nothing else: of all routes of the server, those with a
  path under \<open>/api/user/\<close> are the six about the own account.\<close>

theorem basic_permission_is_own_account:
  assumes "routed X req call"
  shows "prefix ''/api/user/'' (req_path req) \<longleftrightarrow> endpoint_of call \<in> own_account"
proof -
  from assms obtain m psegs where "(endpoint_of call, m, psegs) \<in> set route_segments"
    and "list_all2 literal_fits psegs (split_on (CHR ''/'') (req_path req))" by (rule routedE)
  then show ?thesis using own_account_segments under_segments [of "''api''" "''user''" "req_path req"] by simp
qed

section \<open>The registry and the router\<close>

text \<open>A listed route that a rule may name, for the method of a request, and that opens its path.\<close>

definition listed_for :: "http_request \<Rightarrow> route_info list \<Rightarrow> bool" where
  "listed_for req routes \<longleftrightarrow> list_ex (\<lambda>r. req_method req = method_as_str (route_method r) \<and> opens (path r) (req_path req)) routes"

definition grantable_routes :: "route_info list" where
  "grantable_routes = filter (\<lambda>r. api_pattern_ok (path r)) route_registry"

lemma grantable_keys: "map route_key grantable_routes =
  [(''/api/admin/api_rule/grant/'', POST), (''/api/admin/api_rule/query/'', GET), (''/api/admin/api_rule/revoke/'', DELETE),
   (''/api/admin/api_rule/routes/'', GET), (''/api/admin/template/all_categories/'', GET), (''/api/admin/template/create/'', POST),
   (''/api/admin/template/delete/'', DELETE), (''/api/admin/template/modify_status/'', PATCH), (''/api/admin/template/query/'', GET),
   (''/api/admin/template/update/'', PATCH), (''/api/admin/user/create/'', POST),
   (''/api/admin/user/modify_status/'', PATCH), (''/api/admin/user/password/'', PATCH), (''/api/admin/user/query/'', GET)]"
  by code_simp

lemma listed_for_keys: "listed_for req routes \<longleftrightarrow>
    (\<exists>(p, m)\<in>set (map route_key routes). req_method req = method_as_str m \<and> opens p (req_path req))"
  by (auto simp: listed_for_def list_ex_iff route_key_def)

lemma listed_forI: "(p, m) \<in> set (map route_key routes) \<Longrightarrow> req_method req = method_as_str m \<Longrightarrow> opens p (req_path req) \<Longrightarrow>
    listed_for req routes"
  unfolding listed_for_keys by (rule bexI [of _ "(p, m)"]) simp_all

lemma opens_prefix: "prefix pat p \<Longrightarrow> opens pat p"
  by (auto simp: opens_def prefix_def list.rel_refl)

lemma opens_trimmed: "opens (p @ ''/'') p"
  by (simp add: opens_def)

text \<open>The administrative routes: the literal part of the path is a listed pattern, which ends the path or has one more segment below.\<close>

definition literal_part :: "string list \<Rightarrow> string" where
  "literal_part psegs = concat (map (\<lambda>s. s @ ''/'') (filter (\<lambda>s. s = [] \<or> hd s \<noteq> CHR ''{'') psegs))"

lemma admin_literal:
  assumes "(e, m, psegs) \<in> set route_segments" and "list_all2 literal_fits psegs segs" and "take 3 segs = [[], ''api'', ''admin'']"
  shows "(literal_part psegs, m) \<in> set (map route_key grantable_routes) \<longleftrightarrow> e \<noteq> EDeleteUser"
    and "concat (map (\<lambda>s. s @ ''/'') (butlast segs)) @ last segs = p \<Longrightarrow> prefix (literal_part psegs) p \<or> literal_part psegs = p @ ''/''"
  using assms unfolding route_segments_eval grantable_keys list.set literal_part_def
  by (elim insertE emptyE Pair_inject; clarsimp simp: list_all2_Cons1 literal_fits_def)+


lemma split_on_whole: "c \<notin> set u \<Longrightarrow> split_on c u = [u]"
  by (induction u) auto

lemma under_admin: "prefix ''/api/admin/'' p \<Longrightarrow> take 3 (split_on (CHR ''/'') p) = [[], ''api'', ''admin'']"
  using under_segments [of "''api''" "''admin''" p] by auto

lemma deletion_unlisted:
  assumes "req_method req = ''DELETE''" and "req_path req = ''/api/admin/user/delete/'' @ s"
  shows "\<not> listed_for req grantable_routes"
  using assms unfolding listed_for_keys grantable_keys by (simp add: opens_def)

lemma admin_routes_listed:
  assumes "routed X req call" and "prefix ''/api/admin/'' (req_path req)"
  shows "listed_for req grantable_routes \<longleftrightarrow> endpoint_of call \<noteq> EDeleteUser"
proof -
  from assms(1) obtain m psegs where r: "(endpoint_of call, m, psegs) \<in> set route_segments"
    and m: "req_method req = method_as_str m"
    and fits: "list_all2 literal_fits psegs (split_on (CHR ''/'') (req_path req))" by (rule routedE)
  note adm = under_admin [OF assms(2)]
  note path = split_on_join [of "CHR ''/''" "req_path req"]
  show ?thesis
  proof (cases "endpoint_of call = EDeleteUser")
    case False
    then have "(literal_part psegs, m) \<in> set (map route_key grantable_routes)"
      using admin_literal(1) [OF r fits adm] by simp
    moreover have "opens (literal_part psegs) (req_path req)"
      using admin_literal(2) [OF r fits adm path] opens_prefix opens_trimmed by metis
    ultimately have "listed_for req grantable_routes" using m by (intro listed_forI)
    with False show ?thesis by simp
  next
    case True
    with r have "m = DELETE" "psegs = [[], ''api'', ''admin'', ''user'', ''delete'', ''{user_id}'']"
      by (auto simp: route_segments_eval)
    with fits obtain s where "split_on (CHR ''/'') (req_path req) = [[], ''api'', ''admin'', ''user'', ''delete'', s]"
      by (auto simp: list_all2_Cons1)
    with path have "req_path req = ''/api/admin/user/delete/'' @ s" by simp
    with True m \<open>m = DELETE\<close> deletion_unlisted [of req s] show ?thesis by simp
  qed
qed

lemma registry_has_template:
  assumes "t \<in> set (templates d)" and "t_active t" and "r \<in> set (build_template_route_info X (t_id t) (t_name t) (t_category t))"
  shows "route_key r \<in> route_key ` set (registry_routes_of X d)"
proof -
  let ?f = "\<lambda>t routes. routes_extend (build_template_route_info X (t_id t) (t_name t) (t_category t)) routes"
  have mono: "route_key ` set routes \<subseteq> route_key ` set (fold ?f ts routes)" for ts routes
  proof (induction ts arbitrary: routes)
    case (Cons a ts)
    have "route_key ` set routes \<subseteq> route_key ` set (?f a routes)" by (simp add: keys_routes_extend)
    also have "\<dots> \<subseteq> route_key ` set (fold ?f ts (?f a routes))" by (rule Cons.IH)
    finally show ?case by simp
  qed simp
  have "t \<in> set ts \<Longrightarrow> route_key r \<in> route_key ` set (fold ?f ts routes)" for ts routes
  proof (induction ts arbitrary: routes)
    case (Cons a ts)
    show ?case
    proof (cases "t = a")
      case True
      then have "route_key r \<in> route_key ` set (?f a routes)" using assms(3) by (simp add: keys_routes_extend)
      with mono [of "?f a routes" ts] show ?thesis by auto
    qed (use Cons in simp)
  qed simp
  with assms(1,2) show ?thesis by (simp add: registry_routes_of_def)
qed


text \<open>The routes below a template: a literal end, or one more segment below \<open>/delete/\<close>.\<close>

definition archive_ends :: "(http_method \<times> string) set" where
  "archive_ends = {(POST, ''create''), (POST, ''query''), (GET, ''init_upload''), (POST, ''presigned''), (GET, ''info'')}"

lemma archive_segments:
  assumes "(e, m, psegs) \<in> set route_segments" and "list_all2 literal_fits psegs ([] # ''api'' # ''archive'' # u # segs)"
  shows "(\<exists>k. (m, k) \<in> archive_ends \<and> segs = [k]) \<or> (\<exists>s. m = DELETE \<and> segs = [''delete'', s])"
  using assms unfolding route_segments_eval list.set archive_ends_def
  by (elim insertE emptyE Pair_inject; clarsimp simp: list_all2_Cons1 literal_fits_def)

lemma template_route:
  "(m, k) \<in> insert (DELETE, ''delete'') archive_ends \<Longrightarrow>
     \<exists>r\<in>set (build_template_route_info X tid nm cat).
       route_key r = (''/api/archive/'' @ x_uuid_str X tid @ ''/'' @ k @ ''/'', m)"
  unfolding archive_ends_def
  by (elim insertE emptyE Pair_inject) (simp_all add: build_template_route_info_def Let_def route_key_def)

lemma archive_routes_listed:
  assumes "routed X req call" and "uuid_codec X" and "t \<in> set (templates d)" and "t_active t"
    and "prefix (''/api/archive/'' @ x_uuid_str X (t_id t) @ ''/'') (req_path req)"
  shows "listed_for req (registry_routes_of X d)"
proof -
  let ?u = "x_uuid_str X (t_id t)" and ?base = "''/api/archive/'' @ x_uuid_str X (t_id t) @ ''/''"
  from assms(1) obtain m psegs where r: "(endpoint_of call, m, psegs) \<in> set route_segments"
    and m: "req_method req = method_as_str m"
    and fits: "list_all2 literal_fits psegs (split_on (CHR ''/'') (req_path req))" by (rule routedE)
  have "CHR ''/'' \<notin> set ?u" using assms(2) by (simp add: uuid_codec_def)
  then have whole: "split_on (CHR ''/'') ?u = [?u]" by (rule split_on_whole)
  from assms(5) obtain b where p: "req_path req = ''/api/archive'' @ CHR ''/'' # ?u @ CHR ''/'' # b" by (auto simp: prefix_def)
  have segs: "split_on (CHR ''/'') (req_path req) = [] # ''api'' # ''archive'' # ?u # split_on (CHR ''/'') b"
    unfolding p split_on_append whole by simp
  note cases = archive_segments [OF r fits [unfolded segs]]
  have listed: "listed_for req (registry_routes_of X d)"
    if "(m, k) \<in> insert (DELETE, ''delete'') archive_ends" and "opens (?base @ k @ ''/'') (req_path req)" for k
  proof -
    from template_route [OF that(1), of X "t_id t" "t_name t" "t_category t"]
    obtain ri where ri: "ri \<in> set (build_template_route_info X (t_id t) (t_name t) (t_category t))"
      and "route_key ri = (?base @ k @ ''/'', m)" by auto
    with registry_has_template [OF assms(3,4) ri] have "(?base @ k @ ''/'', m) \<in> set (map route_key (registry_routes_of X d))"
      by simp
    with m that(2) show ?thesis by (intro listed_forI)
  qed
  from cases show ?thesis
  proof (elim disjE exE conjE)
    fix k assume k: "(m, k) \<in> archive_ends" "split_on (CHR ''/'') b = [k]"
    then have "req_path req = ?base @ k" using p split_on_join [of "CHR ''/''" b] by simp
    with k(1) listed [of k] opens_trimmed [of "?base @ k"] show ?thesis by simp
  next
    fix s assume k: "m = DELETE" "split_on (CHR ''/'') b = [''delete'', s]"
    then have "req_path req = ?base @ ''delete'' @ ''/'' @ s" using p split_on_join [of "CHR ''/''" b] by simp
    then have "opens (?base @ ''delete'' @ ''/'') (req_path req)" by (intro opens_prefix) simp
    moreover have "(m, ''delete'') \<in> insert (DELETE, ''delete'') archive_ends" using k(1) by simp
    ultimately show ?thesis by (intro listed)
  qed
qed
text \<open>C38: The route list shown to administrators fits the router, except for one entry. Every administrative request that
  reaches a handler is opened by a listed route that a rule may name with the same method, save the deletion of
  users: its entry ends in a literal placeholder, which the pattern check refuses. Every request below an
  active template whose id is spelled the way the server prints it is opened by a listed route of that template.\<close>

theorem listed_routes_reach_their_endpoints:
  assumes "routed X req call" and "uuid_codec X"
  shows "(prefix ''/api/admin/'' (req_path req) \<longrightarrow>
       (listed_for req grantable_routes \<longleftrightarrow> endpoint_of call \<noteq> EDeleteUser))
     \<and> (\<forall>t\<in>set (templates d). t_active t \<and> prefix (''/api/archive/'' @ x_uuid_str X (t_id t) @ ''/'') (req_path req)
          \<longrightarrow> listed_for req (registry_routes_of X d))"
  using admin_routes_listed [OF assms(1)] archive_routes_listed [OF assms] by blast


text \<open>A request for the archive of template 1, and one for the own account.\<close>

definition demo_archive_request :: http_request where
  "demo_archive_request = \<lparr>authorization = None, req_path = ''/api/archive/a/info'', req_method = ''GET''\<rparr>"

lemmas route_tables = open_routes_def protected_routes_def admin_config_def admin_user_config_def api_rule_config_def
  template_config_def user_config_def archive_config_def scope_def

lemma demo_routed: "routed demo_externs demo_archive_request (TemplateInfo 1)"
  unfolding routed_def list_ex_iff
  by (rule bexI [of _ "(GET, ''/api/archive/{template_id}/info'', ETemplateInfo)"])
    (simp_all add: route_tables demo_archive_request_def path_fits_def segment_fits_def demo_externs_def demo_uuid_parse_def)

lemma demo_me_routed: "routed demo_externs (demo_request ''Ua'' ''/api/user/me'' ''GET'') Me"
  unfolding routed_def list_ex_iff
  by (rule bexI [of _ "(GET, ''/api/user/me'', EMe)"])
    (simp_all add: route_tables demo_request_def path_fits_def segment_fits_def)

theorem basic_permission_is_own_account_witness:
  "prefix ''/api/user/'' (req_path (demo_request ''Ua'' ''/api/user/me'' ''GET'')) \<longleftrightarrow> endpoint_of Me \<in> own_account"
  by (rule basic_permission_is_own_account [OF demo_me_routed])

definition demo_listed_db :: database where
  "demo_listed_db = empty_db\<lparr>templates := [\<lparr>t_id = 1, t_name = ''award'', t_category = ''c'', t_desc = None, t_schema = JObj [],
     t_active = True, t_by = None, t_created = 0, t_updated = 0\<rparr>]\<rparr>"

theorem listed_routes_reach_their_endpoints_witness:
  "listed_for demo_archive_request (registry_routes_of demo_externs demo_listed_db)"
proof -
  let ?t = "\<lparr>t_id = 1, t_name = ''award'', t_category = ''c'', t_desc = None, t_schema = JObj [],
     t_active = True, t_by = None, t_created = 0, t_updated = 0\<rparr>"
  have mem: "?t \<in> set (templates demo_listed_db)" by (simp add: demo_listed_db_def)
  have pre: "prefix (''/api/archive/'' @ x_uuid_str demo_externs (t_id ?t) @ ''/'') (req_path demo_archive_request)"
    by (simp add: demo_externs_def demo_uuid_str_def demo_archive_request_def)
  show ?thesis
    by (rule mp [OF bspec [OF conjunct2 [OF listed_routes_reach_their_endpoints [OF demo_routed demo_uuid_codec]] mem]])
      (rule conjI [OF _ pre], simp)
qed

end
