(* ===== verification/Documentation.thy ===== *)
theory Documentation
  imports Routing
begin

text \<open>
  The OpenAPI document of the server (\<open>documentation.rs\<close> and the \<open>utoipa::path\<close> attributes of the handlers),
  and whether the server keeps to it: the documented operations are those of the router, and every
  answer has a documented status. Descriptions are left out, tags are given English names.
\<close>

section \<open>Operations\<close>

datatype doc_tag = TagUser | TagAuth | TagTemplates | TagAccounts | TagRules | TagRecords

datatype param_place = InPath | InQuery

text \<open>The type of an answer: wrapped in \<open>AppResponse\<close>, or bare.\<close>

datatype doc_body = NoBody | Enveloped string | Bare string

record operation =
  op_method :: http_method
  op_path :: string
  op_tag :: doc_tag
  op_security :: "string list"
  op_request :: "string option"
  op_params :: "(string \<times> string \<times> param_place) list"
  op_responses :: "(nat \<times> doc_body) list"

definition doc_login_user_handler :: operation where
  "doc_login_user_handler = \<lparr>op_method = POST, op_path = ''/api/auth/login'', op_tag = TagAuth, op_security = [],
     op_request = Some ''LoginRequest'', op_params = [],
     op_responses = [(200, Enveloped ''LoginResponse''), (400, NoBody), (401, NoBody)]\<rparr>"

definition doc_change_password_handler :: operation where
  "doc_change_password_handler = \<lparr>op_method = PATCH, op_path = ''/api/user/password'',
     op_tag = TagUser, op_security = [''bearer_auth''],
     op_request = Some ''ChangePasswordRequest'', op_params = [],
     op_responses = [(200, NoBody), (400, NoBody), (403, NoBody)]\<rparr>"

definition doc_presigned_avatar_url_handler :: operation where
  "doc_presigned_avatar_url_handler = \<lparr>op_method = POST, op_path = ''/api/user/avatar/presigned'',
     op_tag = TagUser, op_security = [''bearer_auth''],
     op_request = Some ''PresignedAvatarUrlRequest'', op_params = [],
     op_responses = [(201, Bare ''PresignedAvatarUrlResponse''), (400, NoBody)]\<rparr>"

definition doc_update_avatar_handler :: operation where
  "doc_update_avatar_handler = \<lparr>op_method = PATCH, op_path = ''/api/user/avatar/{file_id}'',
     op_tag = TagUser, op_security = [''bearer_auth''],
     op_request = None, op_params = [(''file_id'', ''Uuid'', InPath)],
     op_responses = [(200, Bare ''String''), (400, NoBody), (404, NoBody)]\<rparr>"

definition doc_update_user_info_handler :: operation where
  "doc_update_user_info_handler = \<lparr>op_method = PATCH, op_path = ''/api/user/update'',
     op_tag = TagUser, op_security = [''bearer_auth''],
     op_request = Some ''UpdateUserInfoRequest'', op_params = [],
     op_responses = [(200, NoBody), (400, NoBody)]\<rparr>"

definition doc_get_user_info_handler :: operation where
  "doc_get_user_info_handler = \<lparr>op_method = GET, op_path = ''/api/user/me'',
     op_tag = TagUser, op_security = [''bearer_auth''],
     op_request = None, op_params = [],
     op_responses = [(200, Bare ''UserInfoDTO'')]\<rparr>"

definition doc_get_user_effective_routes_handler :: operation where
  "doc_get_user_effective_routes_handler = \<lparr>op_method = GET, op_path = ''/api/user/routes'',
     op_tag = TagUser, op_security = [''bearer_auth''],
     op_request = None, op_params = [],
     op_responses = [(200, Bare ''Vec<RouteInfo>'')]\<rparr>"

definition doc_create_user_handler :: operation where
  "doc_create_user_handler = \<lparr>op_method = POST, op_path = ''/api/admin/user/create'',
     op_tag = TagAccounts, op_security = [''bearer_auth''],
     op_request = Some ''RegisterUserRequest'', op_params = [],
     op_responses = [(201, Enveloped ''UserDTO''), (400, NoBody), (409, NoBody)]\<rparr>"

definition doc_modify_user_status_handler :: operation where
  "doc_modify_user_status_handler = \<lparr>op_method = PATCH, op_path = ''/api/admin/user/modify_status'',
     op_tag = TagAccounts, op_security = [''bearer_auth''],
     op_request = Some ''ModifyUserStatusRequest'', op_params = [],
     op_responses = [(200, NoBody), (400, NoBody), (404, NoBody), (403, NoBody)]\<rparr>"

definition doc_query_users_handler :: operation where
  "doc_query_users_handler = \<lparr>op_method = GET, op_path = ''/api/admin/user/query'',
     op_tag = TagAccounts, op_security = [''bearer_auth''],
     op_request = None,
     op_params = [(''user_id'', ''Option<Uuid>'', InQuery), (''username'', ''Option<String>'', InQuery), (''nickname'', ''Option<String>'', InQuery),
       (''is_active'', ''Option<bool>'', InQuery), (''role'', ''Option<UserRole>'', InQuery),
       (''page'', ''Option<i64>'', InQuery), (''page_size'', ''Option<i64>'', InQuery)],
     op_responses = [(200, Enveloped ''PageData<UserDTO>''), (400, NoBody)]\<rparr>"

definition doc_admin_change_user_password_handler :: operation where
  "doc_admin_change_user_password_handler = \<lparr>op_method = PATCH, op_path = ''/api/admin/user/password'',
     op_tag = TagAccounts, op_security = [''bearer_auth''],
     op_request = Some ''ChangeUserPasswordRequest'', op_params = [],
     op_responses = [(200, NoBody), (400, NoBody), (404, NoBody)]\<rparr>"

definition doc_admin_delete_user_handler :: operation where
  "doc_admin_delete_user_handler = \<lparr>op_method = DELETE, op_path = ''/api/admin/user/delete/{user_id}'',
     op_tag = TagAccounts, op_security = [''bearer_auth''],
     op_request = None, op_params = [(''user_id'', ''Uuid'', InPath)],
     op_responses = [(200, NoBody), (404, NoBody), (403, NoBody)]\<rparr>"

definition doc_grant_user_api_rule_handler :: operation where
  "doc_grant_user_api_rule_handler = \<lparr>op_method = POST, op_path = ''/api/admin/api_rule/grant'',
     op_tag = TagRules, op_security = [''bearer_auth''],
     op_request = Some ''GrantUserApiRuleRequest'', op_params = [],
     op_responses = [(201, Enveloped ''ApiRuleDTO''), (400, NoBody), (404, NoBody), (409, NoBody)]\<rparr>"

definition doc_revoke_user_api_rule_handler :: operation where
  "doc_revoke_user_api_rule_handler = \<lparr>op_method = DELETE, op_path = ''/api/admin/api_rule/revoke/{rule_id}'',
     op_tag = TagRules, op_security = [''bearer_auth''],
     op_request = None, op_params = [(''rule_id'', ''Uuid'', InPath)],
     op_responses = [(200, NoBody), (404, NoBody)]\<rparr>"

definition doc_query_user_api_access_rules_handler :: operation where
  "doc_query_user_api_access_rules_handler = \<lparr>op_method = GET, op_path = ''/api/admin/api_rule/query'',
     op_tag = TagRules, op_security = [''bearer_auth''],
     op_request = None,
     op_params = [(''user_id'', ''Option<Uuid>'', InQuery),
       (''page'', ''Option<i64>'', InQuery), (''page_size'', ''Option<i64>'', InQuery)],
     op_responses = [(200, Enveloped ''PageData<ApiRuleDTO>''), (400, NoBody)]\<rparr>"

definition doc_get_registry_routes_handler :: operation where
  "doc_get_registry_routes_handler = \<lparr>op_method = GET, op_path = ''/api/admin/api_rule/routes'',
     op_tag = TagRules, op_security = [''bearer_auth''],
     op_request = None,
     op_params = [(''prefix'', ''Option<String>'', InQuery), (''method'', ''Option<HttpMethod>'', InQuery), (''user_id'', ''Option<Uuid>'', InQuery)],
     op_responses = [(200, Enveloped ''Vec<RouteInfo>'')]\<rparr>"

definition doc_create_template_handler :: operation where
  "doc_create_template_handler = \<lparr>op_method = POST, op_path = ''/api/admin/template/create'',
     op_tag = TagTemplates, op_security = [''bearer_auth''],
     op_request = Some ''CreateTemplateRequest'', op_params = [],
     op_responses = [(201, Enveloped ''TemplateDTO''), (400, NoBody)]\<rparr>"

definition doc_query_templates_handler :: operation where
  "doc_query_templates_handler = \<lparr>op_method = GET, op_path = ''/api/admin/template/query'',
     op_tag = TagTemplates, op_security = [''bearer_auth''],
     op_request = None,
     op_params = [(''template_id'', ''Option<uuid::Uuid>'', InQuery), (''name'', ''Option<String>'', InQuery), (''category'', ''Option<String>'', InQuery),
       (''page'', ''i64'', InQuery), (''page_size'', ''i64'', InQuery)],
     op_responses = [(200, Enveloped ''PageData<TemplateDTO>''), (400, NoBody)]\<rparr>"

definition doc_update_template_handler :: operation where
  "doc_update_template_handler = \<lparr>op_method = PATCH, op_path = ''/api/admin/template/update'',
     op_tag = TagTemplates, op_security = [''bearer_auth''],
     op_request = Some ''UpdateTemplateRequest'', op_params = [],
     op_responses = [(200, Enveloped ''TemplateDTO''), (400, NoBody), (404, NoBody), (409, NoBody)]\<rparr>"

definition doc_delete_template_handler :: operation where
  "doc_delete_template_handler = \<lparr>op_method = DELETE, op_path = ''/api/admin/template/delete/{template_id}'',
     op_tag = TagTemplates, op_security = [''bearer_auth''],
     op_request = None, op_params = [(''template_id'', ''uuid::Uuid'', InPath)],
     op_responses = [(200, NoBody), (404, NoBody), (409, NoBody)]\<rparr>"

definition doc_modify_template_status_handler :: operation where
  "doc_modify_template_status_handler = \<lparr>op_method = PATCH, op_path = ''/api/admin/template/modify_status'',
     op_tag = TagTemplates, op_security = [''bearer_auth''],
     op_request = Some ''ModifyTemplateStatusRequest'', op_params = [],
     op_responses = [(200, NoBody), (400, NoBody), (404, NoBody)]\<rparr>"

definition doc_get_all_template_categories :: operation where
  "doc_get_all_template_categories = \<lparr>op_method = GET, op_path = ''/api/admin/template/all_categories'',
     op_tag = TagTemplates, op_security = [''bearer_auth''],
     op_request = None, op_params = [],
     op_responses = [(200, Enveloped ''Vec<String>'')]\<rparr>"

definition doc_create_archive_record_handler :: operation where
  "doc_create_archive_record_handler = \<lparr>op_method = POST, op_path = ''/api/archive/{template_id}/create'',
     op_tag = TagRecords, op_security = [''bearer_auth''],
     op_request = Some ''CreateArchiveRecordRequest'', op_params = [],
     op_responses = [(201, Enveloped ''ArchiveRecordDTO''), (400, NoBody), (404, NoBody)]\<rparr>"

definition doc_query_archive_records_handler :: operation where
  "doc_query_archive_records_handler = \<lparr>op_method = POST, op_path = ''/api/archive/{template_id}/query'',
     op_tag = TagRecords, op_security = [''bearer_auth''],
     op_request = Some ''QueryArchiveRecordsRequest'', op_params = [],
     op_responses = [(200, Enveloped ''PageData<ArchiveRecordDTO>''), (400, NoBody), (400, NoBody)]\<rparr>"

definition doc_init_upload_session_handler :: operation where
  "doc_init_upload_session_handler = \<lparr>op_method = GET, op_path = ''/api/archive/{template_id}/init_upload'',
     op_tag = TagRecords, op_security = [''bearer_auth''],
     op_request = None, op_params = [],
     op_responses = [(201, Enveloped ''Uuid''), (404, NoBody), (404, NoBody)]\<rparr>"

definition doc_presigned_upload_url_handler :: operation where
  "doc_presigned_upload_url_handler = \<lparr>op_method = POST, op_path = ''/api/archive/{template_id}/presigned'',
     op_tag = TagRecords, op_security = [''bearer_auth''],
     op_request = Some ''PreSignedRequests'', op_params = [],
     op_responses = [(201, Enveloped ''PresignedResponse''), (400, NoBody), (400, NoBody), (404, NoBody), (404, NoBody),
       (403, NoBody), (403, NoBody)]\<rparr>"

definition doc_delete_archive_record_handler :: operation where
  "doc_delete_archive_record_handler = \<lparr>op_method = DELETE, op_path = ''/api/archive/{template_id}/delete/{record_id}'',
     op_tag = TagRecords, op_security = [''bearer_auth''],
     op_request = None, op_params = [(''template_id'', ''uuid::Uuid'', InPath), (''record_id'', ''uuid::Uuid'', InPath)],
     op_responses = [(200, NoBody), (404, NoBody)]\<rparr>"

definition doc_get_template_info_handler :: operation where
  "doc_get_template_info_handler = \<lparr>op_method = GET, op_path = ''/api/archive/{template_id}/info'',
     op_tag = TagRecords, op_security = [''bearer_auth''],
     op_request = None, op_params = [(''template_id'', ''uuid::Uuid'', InPath)],
     op_responses = [(200, Enveloped ''TemplateDTO''), (404, NoBody)]\<rparr>"

section \<open>The document\<close>

record open_api =
  doc_operations :: "(endpoint \<times> operation) list"
  doc_schemas :: "string list"
  doc_tags :: "doc_tag list"
  doc_schemes :: "(string \<times> string \<times> string) list"

text \<open>\<open>SecurityAddon\<close> declares the scheme \<open>bearer_auth\<close> of the operations.\<close>

definition security_addon :: "open_api \<Rightarrow> open_api" where
  "security_addon doc = doc\<lparr>doc_schemes := doc_schemes doc @ [(''bearer_auth'', ''Bearer'', ''JWT'')]\<rparr>"

definition documented_paths :: "(endpoint \<times> operation) list" where
  "documented_paths =
     [(ECreateUser, doc_create_user_handler),
      (ELogin, doc_login_user_handler),
      (EPassword, doc_change_password_handler),
      (EAvatarUrl, doc_presigned_avatar_url_handler),
      (EUpdateAvatar, doc_update_avatar_handler),
      (EMe, doc_get_user_info_handler),
      (EUpdateMe, doc_update_user_info_handler),
      (EMyRoutes, doc_get_user_effective_routes_handler),
      (EModifyUserStatus, doc_modify_user_status_handler),
      (EGrantRule, doc_grant_user_api_rule_handler),
      (ERevokeRule, doc_revoke_user_api_rule_handler),
      (EQueryRules, doc_query_user_api_access_rules_handler),
      (ERegistryRoutes, doc_get_registry_routes_handler),
      (EQueryUsers, doc_query_users_handler),
      (EAdminPassword, doc_admin_change_user_password_handler),
      (EDeleteUser, doc_admin_delete_user_handler),
      (ECreateTemplate, doc_create_template_handler),
      (EQueryTemplates, doc_query_templates_handler),
      (EUpdateTemplate, doc_update_template_handler),
      (EDeleteTemplate, doc_delete_template_handler),
      (EModifyTemplateStatus, doc_modify_template_status_handler),
      (ECategories, doc_get_all_template_categories),
      (ECreateRecord, doc_create_archive_record_handler),
      (EQueryRecords, doc_query_archive_records_handler),
      (EInitUpload, doc_init_upload_session_handler),
      (EUploadUrl, doc_presigned_upload_url_handler),
      (EDeleteRecord, doc_delete_archive_record_handler),
      (ETemplateInfo, doc_get_template_info_handler)]"

definition documented_schemas :: "string list" where
  "documented_schemas =
     [''RegisterUserRequest'', ''UserDTO'', ''LoginRequest'', ''LoginResponse'', ''ChangePasswordRequest'',
      ''ChangeUserPasswordRequest'', ''ModifyUserStatusRequest'', ''GrantUserApiRuleRequest'',
      ''QueryUserApiRuleRequest'', ''QueryUserRequest'', ''ApiRuleDTO'', ''HttpMethod'', ''AppResponse<UserDTO>'',
      ''AppResponse<LoginResponse>'', ''AppResponse<PageData<ApiRuleDTO>>'', ''AppResponse<PageData<UserDTO>>'',
      ''PageData<ApiRuleDTO>'', ''UserRole'', ''CreateTemplateRequest'', ''TemplateDTO'', ''AppResponse<TemplateDTO>'',
      ''AppResponse<PageData<TemplateDTO>>'', ''PageData<TemplateDTO>'', ''ModifyTemplateStatusRequest'',
      ''CreateArchiveRecordRequest'', ''ArchiveRecordDTO'', ''QueryArchiveRecordsRequest'',
      ''AppResponse<ArchiveRecordDTO>'', ''AppResponse<PageData<ArchiveRecordDTO>>'', ''PresignedResponse'']"

definition api_doc :: open_api where
  "api_doc = security_addon \<lparr>doc_operations = documented_paths, doc_schemas = documented_schemas,
     doc_tags = [TagUser, TagAuth, TagTemplates, TagAccounts, TagRules], doc_schemes = []\<rparr>"


section \<open>The documented operations are those of the router\<close>

text \<open>The placeholders of a path.\<close>

definition placeholders :: "string \<Rightarrow> string list" where
  "placeholders p = map (\<lambda>s. butlast (tl s)) (filter (\<lambda>s. s \<noteq> [] \<and> hd s = CHR ''{'') (split_on (CHR ''/'') p))"

definition documented_routes :: "route list" where
  "documented_routes = map (\<lambda>(e, op). (op_method op, op_path op, e)) (doc_operations api_doc)"

lemmas doc_defs = doc_login_user_handler_def doc_change_password_handler_def doc_presigned_avatar_url_handler_def
  doc_update_avatar_handler_def doc_update_user_info_handler_def doc_get_user_info_handler_def
  doc_get_user_effective_routes_handler_def doc_create_user_handler_def doc_modify_user_status_handler_def
  doc_query_users_handler_def doc_admin_change_user_password_handler_def doc_admin_delete_user_handler_def
  doc_grant_user_api_rule_handler_def doc_revoke_user_api_rule_handler_def doc_query_user_api_access_rules_handler_def
  doc_get_registry_routes_handler_def doc_create_template_handler_def doc_query_templates_handler_def
  doc_update_template_handler_def doc_delete_template_handler_def doc_modify_template_status_handler_def
  doc_get_all_template_categories_def doc_create_archive_record_handler_def doc_query_archive_records_handler_def
  doc_init_upload_session_handler_def doc_presigned_upload_url_handler_def doc_delete_archive_record_handler_def
  doc_get_template_info_handler_def

lemmas protected_routes_eval = protected_routes_def admin_config_def user_config_def archive_config_def admin_user_config_def
  api_rule_config_def template_config_def scope_def

text \<open>C39: The OpenAPI document describes the server that runs: its operations are exactly the routes of the program's own handlers without
  the health check (the pages that show the document are served by a library and are no handlers of the program), each once, with the same method and path; those that need a token are exactly
  the ones behind the middleware, under a scheme the document declares; and a documented path parameter is a
  placeholder of its path.\<close>

theorem documentation_describes_the_router:
  "set documented_routes = set (open_routes @ protected_routes) - {(GET, ''/health_check'', EHealth)}
    \<and> distinct (map fst (doc_operations api_doc))
    \<and> list_all (\<lambda>(e, op). (op_security op \<noteq> []) = ((op_method op, op_path op, e) \<in> set protected_routes)
         \<and> set (op_security op) \<subseteq> set (map fst (doc_schemes api_doc))
         \<and> list_all (\<lambda>(p, _, _). p \<in> set (placeholders (op_path op)))
              (filter (\<lambda>(_, _, place). place = InPath) (op_params op)))
       (doc_operations api_doc)"
proof (intro conjI)
  show "set documented_routes = set (open_routes @ protected_routes) - {(GET, ''/health_check'', EHealth)}" by code_simp
  show "distinct (map fst (doc_operations api_doc))" by (simp add: api_doc_def security_addon_def documented_paths_def)
  show "list_all (\<lambda>(e, op). (op_security op \<noteq> []) = ((op_method op, op_path op, e) \<in> set protected_routes)
         \<and> set (op_security op) \<subseteq> set (map fst (doc_schemes api_doc))
         \<and> list_all (\<lambda>(p, _, _). p \<in> set (placeholders (op_path op)))
              (filter (\<lambda>(_, _, place). place = InPath) (op_params op)))
       (doc_operations api_doc)"
    by (simp add: api_doc_def security_addon_def documented_paths_def doc_defs placeholders_def protected_routes_eval
        del: set_map set_filter)
qed


section \<open>The errors and the answers of a program\<close>

text \<open>
  Effects of programs, as a type system would have them: the statuses of the errors a program can
  end with, and what its results have in common.
\<close>

named_theorems raise_rules \<open>the errors of programs\<close>
named_theorems end_rules \<open>the results of programs\<close>

definition raises :: "nat set \<Rightarrow> (world, app_error, 'a) prog \<Rightarrow> bool" where
  "raises S m \<longleftrightarrow> (\<forall>w e. fst (m w) = Err e \<longrightarrow> status_code e \<in> S)"

definition ends :: "('a \<Rightarrow> bool) \<Rightarrow> ('s, 'e, 'a) prog \<Rightarrow> bool" where
  "ends P m \<longleftrightarrow> (\<forall>w x. fst (m w) = Ok x \<longrightarrow> P x)"

lemma raises_mono: "raises S m \<Longrightarrow> S \<subseteq> T \<Longrightarrow> raises T m"
  by (auto simp: raises_def)

lemma raises_return [raise_rules]: "raises S (return x)"
  by (simp add: raises_def return_def)

lemma raises_throw [raise_rules]: "status_code e \<in> S \<Longrightarrow> raises S (throw e)"
  by (simp add: raises_def throw_def)

lemma raises_modify [raise_rules]: "raises S (modify f)" "raises S (gets g)" "raises S new_uuid"
  by (simp_all add: raises_def modify_def gets_def new_uuid_def)

lemma raises_and_then [raise_rules]: "raises S m \<Longrightarrow> (\<And>x. raises S (f x)) \<Longrightarrow> raises S (and_then m f)"
  by (auto simp: raises_def and_then_def split: result.splits prod.splits) (metis fst_conv)+

lemma raises_attempt [raise_rules]: "(\<And>x. raises S (f x)) \<Longrightarrow> raises S (attempt m f)"
  by (auto simp: raises_def attempt_def split: result.splits prod.splits)

lemma raises_if [raise_rules]: "(b \<Longrightarrow> raises S m) \<Longrightarrow> (\<not> b \<Longrightarrow> raises S m') \<Longrightarrow> raises S (if b then m else m')"
  by simp

lemma raises_case_option [raise_rules]:
  "raises S m \<Longrightarrow> (\<And>x. raises S (f x)) \<Longrightarrow> raises S (case o' of None \<Rightarrow> m | Some x \<Rightarrow> f x)"
  by (cases o') simp_all

lemma raises_case_sum [raise_rules]:
  "(\<And>x. raises S (f x)) \<Longrightarrow> (\<And>y. raises S (g y)) \<Longrightarrow> raises S (case s of Inl x \<Rightarrow> f x | Inr y \<Rightarrow> g y)"
  by (cases s) simp_all

lemma raises_case_prod [raise_rules]: "(\<And>x y. raises S (f x y)) \<Longrightarrow> raises S (case p of (x, y) \<Rightarrow> f x y)"
  by (cases p) simp

lemma raises_for_each [raise_rules]: "(\<And>x. raises S (f x)) \<Longrightarrow> raises S (for_each f xs)"
  by (induction xs) (simp_all add: raises_def and_then_def split: result.splits prod.splits, metis fst_conv)

lemma raises_map_err [raise_rules]: "(\<And>e. status_code (g e) \<in> S) \<Longrightarrow> raises S (map_err g m)"
  by (auto simp: raises_def map_err_def split: result.splits prod.splits)

lemma raises_unexpected [raise_rules]: "500 \<in> S \<Longrightarrow> raises S (unexpected m)"
  unfolding unexpected_def by (rule raises_map_err) simp

lemma raises_lift [raise_rules]: "(\<And>e. r = Err e \<Longrightarrow> status_code (g e) \<in> S) \<Longrightarrow> raises S (lift_result g r)"
  by (auto simp: raises_def lift_result_def split: result.splits)

lemma raises_valid [raise_rules]: "400 \<in> S \<Longrightarrow> raises S (require_valid f)"
  by (auto simp: raises_def require_valid_def split: list.splits)

lemma raises_or_drop [raise_rules]: "raises S m \<Longrightarrow> raises S (or_drop snap m)"
  by (auto simp: raises_def or_drop_def split: result.splits prod.splits) (metis fst_conv)+

lemma raises_token [raise_rules]: "500 \<in> S \<Longrightarrow> raises S (generate_jwt X e u nm ro)"
  by (simp add: raises_def generate_jwt_def split: option.splits)

lemma ends_return [end_rules]: "P x \<Longrightarrow> ends P (return x)"
  by (simp add: ends_def return_def)

lemma ends_throw [end_rules]: "ends P (throw e)"
  by (simp add: ends_def throw_def)

lemma ends_and_then [end_rules]: "(\<And>x. ends P (f x)) \<Longrightarrow> ends P (and_then m f)"
  by (auto simp: ends_def and_then_def split: result.splits prod.splits)

lemma ends_if [end_rules]: "ends P m \<Longrightarrow> ends P m' \<Longrightarrow> ends P (if b then m else m')"
  by simp

lemma ends_case_option [end_rules]: "ends P m \<Longrightarrow> (\<And>x. ends P (f x)) \<Longrightarrow> ends P (case o' of None \<Rightarrow> m | Some x \<Rightarrow> f x)"
  by (cases o') simp_all

lemma ends_case_sum [end_rules]: "(\<And>x. ends P (f x)) \<Longrightarrow> (\<And>y. ends P (g y)) \<Longrightarrow> ends P (case s of Inl x \<Rightarrow> f x | Inr y \<Rightarrow> g y)"
  by (cases s) simp_all

lemma ends_case_prod [end_rules]: "(\<And>x y. ends P (f x y)) \<Longrightarrow> ends P (case p of (x, y) \<Rightarrow> f x y)"
  by (cases p) simp

section \<open>The errors of the handlers\<close>

lemma raises_login: "raises {400, 401, 500} (login_user_handler X e nm p)"
  unfolding login_user_handler_def by (intro raise_rules) simp_all

lemma raises_avatar_link [raise_rules]: "500 \<in> S \<Longrightarrow> raises S (parse_avatar_key_to_url X k)"
  unfolding parse_avatar_key_to_url_def Let_def by (intro raise_rules) simp_all

lemma raises_avatar_links [raise_rules]: "500 \<in> S \<Longrightarrow> raises S (view_avatars X us)"
  by (induction us) (auto intro!: raise_rules)

lemma raises_create_user: "raises {400, 409, 500} (create_user_handler X r)"
  unfolding create_user_handler_def store_user_def by (intro raise_rules) simp_all

lemma raises_user_status: "raises {403, 404, 500} (modify_user_status_handler uid act c)"
  unfolding modify_user_status_handler_def modify_user_status_def by (intro raise_rules) simp_all

lemma raises_query_users: "raises {400, 500} (query_users_handler X q)"
  unfolding query_users_handler_def query_users_def by (intro raise_rules) simp_all

lemma raises_admin_password: "raises {400, 404, 500} (admin_change_user_password_handler X uid p)"
  unfolding admin_change_user_password_handler_def admin_change_user_password_def by (intro raise_rules) simp_all

lemma raises_delete_account: "raises {403, 404, 500} (admin_delete_user_handler uid c)"
  unfolding admin_delete_user_handler_def delete_user_def by (intro raise_rules) simp_all

lemma raises_change_password: "raises {400, 403, 500} (change_password_handler X c raw new)"
  unfolding change_password_handler_def change_user_password_def by (intro raise_rules) simp_all

lemma raises_avatar_url: "raises {400, 500} (presigned_avatar_url_handler X r)"
  unfolding presigned_avatar_url_handler_def presigned_avatar_url_def Let_def by (intro raise_rules) simp_all

lemma avatar_key_error: "build_avatar_key k n = Inl e \<Longrightarrow> status_code e = 500"
  by (auto simp: build_avatar_key_def split: option.splits)

lemma raises_avatar_key:
  "500 \<in> S \<Longrightarrow> (\<And>key. raises S (g key)) \<Longrightarrow> raises S (case build_avatar_key k n of Inl e \<Rightarrow> throw e | Inr key \<Rightarrow> g key)"
  using avatar_key_error [of k n] by (auto split: sum.splits intro!: raises_throw)

lemma raises_update_avatar: "raises {404, 500} (update_avatar_handler X c f)"
  unfolding update_avatar_handler_def store_user_avatar_def save_user_avatar_into_database_def Let_def
  by (intro raises_and_then raises_avatar_key raises_unexpected raises_lift raises_map_err raises_if raises_throw raises_return
      raises_avatar_link) simp_all

lemma raises_me: "raises {500} (get_user_info_handler X c)"
  unfolding get_user_info_handler_def get_user_info_by_id_def by (intro raise_rules) simp_all

lemma raises_update_me: "raises {400, 500} (update_user_info_handler X c email phone)"
  unfolding update_user_info_handler_def update_user_info_def by (intro raise_rules) simp_all

lemma raises_my_routes: "raises {500} (get_user_effective_routes_handler X c)"
  unfolding get_user_effective_routes_handler_def get_user_effective_routes_def get_effective_rules_for_user_def
    get_registry_routes_def
  by (intro raise_rules) simp_all


lemma raises_registry: "raises {500} (get_registry_routes_handler X f)"
  unfolding get_registry_routes_handler_def get_registry_routes_def do_filter_with_user_exists_rules_def
    get_effective_rules_for_user_def Let_def
  by (intro raise_rules) simp_all

lemma raises_query_rules: "raises {400, 500} (query_user_api_access_rules_handler q)"
  unfolding query_user_api_access_rules_handler_def query_user_api_access_rules_def by (intro raise_rules) simp_all

lemma raises_revoke: "raises {404, 500} (revoke_user_api_rule_handler rid)"
  unfolding revoke_user_api_rule_handler_def revoke_user_api_access_rule_def by (intro raise_rules) simp_all

lemma raises_grant: "raises {400, 404, 409, 500} (grant_user_api_rule_handler X r c)"
  unfolding grant_user_api_rule_handler_def check_api_rule_validity_def get_registry_routes_def
    grant_user_api_access_rule_def check_api_rule_conflict_def
  by (intro raise_rules) simp_all

text \<open>Writing a file definition into a schema panics or succeeds.\<close>

lemma into_schema_no_error: "into_schema c f s t \<noteq> Err e"
  by (auto simp: into_schema_def Let_def split: option.splits json.splits result.splits)

lemma define_files_no_error: "define_files fs s \<noteq> Err e"
  by (induction fs arbitrary: s) (simp_all add: into_schema_no_error split: result.splits)

lemma raises_create_template: "raises {400, 500} (create_template_handler X r c)"
  unfolding create_template_handler_def create_template_def
  by (intro raise_rules) (simp_all add: define_files_no_error split: option.splits)

lemma raises_query_templates: "raises {400, 500} (query_templates_handler q)"
  unfolding query_templates_handler_def query_templates_def by (intro raise_rules) simp_all

lemma raises_categories: "raises {500} get_all_template_categories"
  unfolding get_all_template_categories_def by (intro raise_rules) simp_all

lemma raises_clear [raise_rules]: "raises S (clear_template_cache tid)" "raises S (cache_insert tid c)"
  unfolding clear_template_cache_def cache_insert_def by (rule raises_modify)+

lemma raises_any_record [raise_rules]: "500 \<in> S \<Longrightarrow> raises S (check_any_record_exists tid)"
  unfolding check_any_record_exists_def by (intro raise_rules)

lemma raises_enabled [raise_rules]: "{403, 404, 500} \<subseteq> S \<Longrightarrow> raises S (check_template_is_enabled tid)"
  unfolding check_template_is_enabled_def by (intro raise_rules) simp_all

lemma updated_schema_no_error: "updated_schema r \<noteq> Err e"
  by (simp add: updated_schema_def define_files_no_error del: define_files.simps split: option.splits list.splits result.splits)

lemma raises_update_template: "raises {400, 404, 409, 500} (update_template_handler X r)"
  unfolding update_template_handler_def update_template_def
  by (intro raise_rules) (simp_all add: updated_schema_no_error)

lemma raises_delete_template: "raises {404, 409, 500} (delete_template_handler tid)"
  unfolding delete_template_handler_def Templates.delete_template_def by (intro raise_rules) simp_all

lemma raises_template_status: "raises {404, 500} (modify_template_status_handler tid act)"
  unfolding modify_template_status_handler_def modify_template_status_def by (intro raise_rules) simp_all

lemma raises_load [raise_rules]: "{404, 500} \<subseteq> S \<Longrightarrow> raises S (get_or_load_template_context X tid)"
  unfolding get_or_load_template_context_def from_database_get_template_context_def by (intro raise_rules) simp_all

lemma raises_validate [raise_rules]: "{400, 404, 500} \<subseteq> S \<Longrightarrow> raises S (validate_instance_by_id X tid v)"
  unfolding validate_instance_by_id_def by (intro raise_rules) simp_all

lemma raises_template_info: "raises {404, 500} (get_template_info_handler tid)"
  unfolding get_template_info_handler_def get_template_info_by_id_def by (intro raise_rules) simp_all

lemma raises_init_upload: "raises {403, 404, 500} (init_upload_session_handler X c tid)"
  unfolding init_upload_session_handler_def init_upload_session_def by (intro raise_rules) simp_all

lemma validity_error: "check_file_validity cfg n l = Err e \<Longrightarrow> status_code e = 400"
  by (auto simp: check_file_validity_def split: if_splits option.splits)

lemma raises_upload_url: "raises {400, 403, 404, 500} (presigned_upload_url_handler X r c)"
  unfolding presigned_upload_url_handler_def presigned_upload_url_def try_to_get_field_quota_def quota_error_def Let_def
  by (intro raise_rules) (auto dest: validity_error)

lemma raises_sign [raise_rules]: "500 \<in> S \<Longrightarrow> raises S (sign_files X fs urls)"
  by (induction fs arbitrary: urls) (auto intro!: raise_rules)

lemma raises_enrich [raise_rules]: "500 \<in> S \<Longrightarrow> raises S (enrich_archive_records_with_urls X cfgs rs)"
  unfolding enrich_archive_records_with_urls_def Let_def by (intro raise_rules) simp_all

lemma raises_search: "raises {400, 404, 500} (query_archive_records_handler X tid req)"
  unfolding query_archive_records_handler_def query_archive_records_def schema_query_error_def by (intro raise_rules) simp_all

text \<open>Records.\<close>

lemma raises_process_file [raise_rules]: "{404, 500} \<subseteq> S \<Longrightarrow> raises S (process_single_file X sid uid fid rid)"
  unfolding process_single_file_def get_file_metadata_def move_temp_file_to_save_def save_file_metadata_def Let_def
  by (intro raise_rules) (auto split: sum.splits head_error.splits intro!: raise_rules)

lemma raises_field_files [raise_rules]: "{400, 404, 500} \<subseteq> S \<Longrightarrow> raises S (create_field_files X rid sid uid v fc)"
  unfolding create_field_files_def check_required_def
  by (cases fc) (auto split: option.splits json.splits intro!: raise_rules)

lemma raises_rethrow:
  assumes "raises S m" and "\<And>x. raises S (g x)" and "\<And>e. status_code e \<in> S \<Longrightarrow> raises S (f e)"
  shows "raises S (attempt m (\<lambda>r. case r of Inl e \<Rightarrow> f e | Inr x \<Rightarrow> g x))"
  using assms unfolding raises_def attempt_def by (auto split: result.splits prod.splits) (metis fst_conv)+

lemma raises_rollback [raise_rules]: "raises S (tx_rollback snap)" "raises S (submit_cleanup ks)"
  unfolding submit_cleanup_def by (simp add: raises_def tx_rollback_def split: prod.splits, intro raise_rules)

lemma raises_copy_or_roll_back [raise_rules]:
  assumes "{400, 404, 500} \<subseteq> S"
  shows "raises S (copy_or_roll_back X snap rd cfgs sid uid v)"
proof -
  have "raises S (copy_files X rd cfgs sid uid v)"
    unfolding copy_files_def check_upload_session_exists_def create_files_record_def
    by (intro raise_rules) (use assms in simp_all)
  then show ?thesis
    unfolding copy_or_roll_back_def Let_def by (intro raises_rethrow raise_rules)
qed

lemma need_file_error: "check_need_file c req = Err e \<Longrightarrow> status_code e = 400"
  by (auto simp: check_need_file_def split: if_splits option.splits)

lemma raises_create_record: "raises {400, 403, 404, 500} (create_archive_record_handler X tid req c)"
  unfolding create_archive_record_handler_def create_in_transaction_def create_archive_record_def delete_upload_session_def
  by (intro raise_rules) (auto dest: need_file_error)

lemma raises_delete_record: "raises {404, 500} (delete_archive_record_handler tid rid)"
  unfolding delete_archive_record_handler_def delete_archive_record_by_id_def delete_files_by_object_keys_def by (intro raise_rules) simp_all


lemmas raises_handlers = raises_login raises_create_user raises_user_status raises_query_users raises_admin_password
  raises_delete_account raises_change_password raises_avatar_url raises_update_avatar raises_me raises_update_me raises_my_routes
  raises_registry raises_query_rules raises_revoke raises_grant raises_create_template raises_query_templates raises_categories
  raises_update_template raises_delete_template raises_template_status raises_template_info raises_init_upload raises_upload_url
  raises_search raises_create_record raises_delete_record

section \<open>The answers of the handlers\<close>

text \<open>The status of an answer, and whether it carries data.\<close>

definition shape :: "'a app_response \<Rightarrow> nat \<times> bool" where
  "shape r = (code r, data r \<noteq> None)"

lemma shapes [simp]: "shape (resp_success_msg d m) = (200, True)" "shape (resp_created d m) = (201, True)"
  "shape (resp_ok_msg m) = (200, False)"
  by (simp_all add: shape_def resp_success_msg_def resp_created_def resp_ok_msg_def)

abbreviation shaped :: "nat \<Rightarrow> bool \<Rightarrow> ('s, 'e, 'a app_response) prog \<Rightarrow> bool" where
  "shaped c d \<equiv> ends (\<lambda>r. shape r = (c, d))"

lemma shaped_accounts: "shaped 200 True (login_user_handler X e nm p)" "shaped 201 True (create_user_handler X r)"
  "shaped 200 False (modify_user_status_handler uid act c)" "shaped 200 True (query_users_handler X q)"
  "shaped 200 False (admin_change_user_password_handler X uid p)" "shaped 200 False (admin_delete_user_handler uid c)"
  "shaped 200 False (change_password_handler X c raw new)" "shaped 201 True (presigned_avatar_url_handler X ar)"
  "shaped 200 True (update_avatar_handler X c f)" "shaped 200 True (get_user_info_handler X c)"
  "shaped 200 False (update_user_info_handler X c email phone)" "shaped 200 True (get_user_effective_routes_handler X c)"
  unfolding login_user_handler_def create_user_handler_def modify_user_status_handler_def query_users_handler_def
    admin_change_user_password_handler_def admin_delete_user_handler_def change_password_handler_def presigned_avatar_url_handler_def
    update_avatar_handler_def get_user_info_handler_def update_user_info_handler_def get_user_effective_routes_handler_def Let_def
  by (intro end_rules; simp)+

lemma shaped_administration: "shaped 200 True (get_registry_routes_handler X f)" "shaped 200 True (query_user_api_access_rules_handler q)"
  "shaped 200 False (revoke_user_api_rule_handler rid)" "shaped 201 True (grant_user_api_rule_handler X g c)"
  "shaped 201 True (create_template_handler X ct c)" "shaped 200 True (query_templates_handler qt)"
  "shaped 200 True get_all_template_categories" "shaped 200 True (update_template_handler X ut)"
  "shaped 200 False (delete_template_handler tid)" "shaped 200 False (modify_template_status_handler tid act)"
  "shaped 200 True (get_template_info_handler tid)"
  unfolding get_registry_routes_handler_def query_user_api_access_rules_handler_def revoke_user_api_rule_handler_def
    grant_user_api_rule_handler_def create_template_handler_def query_templates_handler_def get_all_template_categories_def
    update_template_handler_def delete_template_handler_def modify_template_status_handler_def get_template_info_handler_def Let_def
  by (intro end_rules; simp)+

lemma shaped_records: "shaped 201 True (create_archive_record_handler X tid req c)" "shaped 200 True (query_archive_records_handler X tid q)"
  "shaped 201 True (init_upload_session_handler X c tid)" "shaped 201 True (presigned_upload_url_handler X r c)"
  "shaped 200 False (delete_archive_record_handler tid rid)"
  unfolding create_archive_record_handler_def query_archive_records_handler_def init_upload_session_handler_def
    presigned_upload_url_handler_def delete_archive_record_handler_def Let_def
  by (intro end_rules; simp)+

section \<open>Answers and their documentation\<close>

fun reply_shape :: "reply \<Rightarrow> nat \<times> bool" where
  "reply_shape (Done r) = shape r"
| "reply_shape (TextReply r) = shape r"
| "reply_shape (TextsReply r) = shape r"
| "reply_shape (UserReply r) = shape r"
| "reply_shape (UsersReply r) = shape r"
| "reply_shape (InfoReply r) = shape r"
| "reply_shape (RuleReply r) = shape r"
| "reply_shape (RulesReply r) = shape r"
| "reply_shape (RoutesReply r) = shape r"
| "reply_shape (TemplateReply r) = shape r"
| "reply_shape (TemplatesReply r) = shape r"
| "reply_shape (RecordReply r) = shape r"
| "reply_shape (RecordsReply r) = shape r"
| "reply_shape (SessionReply r) = shape r"
| "reply_shape (UploadReply r) = shape r"

text \<open>What each handler answers: its success, and the statuses of its errors.\<close>

fun handler_answers :: "endpoint \<Rightarrow> (nat \<times> bool) \<times> nat list" where
  "handler_answers EHealth = ((200, False), [])"
| "handler_answers ELogin = ((200, True), [400, 401, 500])"
| "handler_answers ECreateUser = ((201, True), [400, 409, 500])"
| "handler_answers EModifyUserStatus = ((200, False), [403, 404, 500])"
| "handler_answers EQueryUsers = ((200, True), [400, 500])"
| "handler_answers EAdminPassword = ((200, False), [400, 404, 500])"
| "handler_answers EDeleteUser = ((200, False), [403, 404, 500])"
| "handler_answers EGrantRule = ((201, True), [400, 404, 409, 500])"
| "handler_answers ERevokeRule = ((200, False), [404, 500])"
| "handler_answers EQueryRules = ((200, True), [400, 500])"
| "handler_answers ERegistryRoutes = ((200, True), [500])"
| "handler_answers ECreateTemplate = ((201, True), [400, 500])"
| "handler_answers EQueryTemplates = ((200, True), [400, 500])"
| "handler_answers EUpdateTemplate = ((200, True), [400, 404, 409, 500])"
| "handler_answers EDeleteTemplate = ((200, False), [404, 409, 500])"
| "handler_answers EModifyTemplateStatus = ((200, False), [404, 500])"
| "handler_answers ECategories = ((200, True), [500])"
| "handler_answers EPassword = ((200, False), [400, 403, 500])"
| "handler_answers EAvatarUrl = ((201, True), [400, 500])"
| "handler_answers EUpdateAvatar = ((200, True), [404, 500])"
| "handler_answers EMe = ((200, True), [500])"
| "handler_answers EUpdateMe = ((200, False), [400, 500])"
| "handler_answers EMyRoutes = ((200, True), [500])"
| "handler_answers ECreateRecord = ((201, True), [400, 403, 404, 500])"
| "handler_answers EQueryRecords = ((200, True), [400, 404, 500])"
| "handler_answers EInitUpload = ((201, True), [403, 404, 500])"
| "handler_answers EUploadUrl = ((201, True), [400, 403, 404, 500])"
| "handler_answers EDeleteRecord = ((200, False), [404, 500])"
| "handler_answers ETemplateInfo = ((200, True), [404, 500])"

lemma raises_answer: "raises S m \<Longrightarrow> raises S (answer f m)"
  unfolding answer_def by (intro raise_rules)

lemma shaped_answer:
  assumes "shaped c d m" and "\<And>r. reply_shape (f r) = shape r"
  shows "ends (\<lambda>r. reply_shape r = (c, d)) (answer f m)"
  using assms by (auto simp: ends_def answer_def and_then_def return_def split: result.splits prod.splits) (metis fst_conv)+

lemma handler_errors: "needs_login call \<Longrightarrow> raises (set (snd (handler_answers (endpoint_of call)))) (handle_call X c call)"
  by (cases call) (simp_all add: needs_login_def raises_answer raises_handlers)

lemma handler_success: "ends (\<lambda>r. reply_shape r = fst (handler_answers (endpoint_of call))) (handle_call X c call)"
  by (cases call) (simp_all add: shaped_answer shaped_accounts shaped_administration shaped_records ends_throw)

text \<open>The middleware adds its own refusals.\<close>

lemma raises_mw:
  assumes "\<And>c. raises S (next c)" and "{401, 403, 500} \<subseteq> S"
  shows "raises S (mw_authentication X req next)"
proof -
  have en: "raises S (check_user_enabled c)" for c
    unfolding check_user_enabled_def by (intro raise_rules) (use assms(2) in simp_all)
  have ro: "raises S (check_user_role u p m)" for u p m
    unfolding check_user_role_def by (intro raise_rules) (use assms(2) in simp_all)
  have run: "raises S (and_then (check_user_enabled c) (\<lambda>_.
      and_then (if role c = USER then check_user_role (sub c) (req_path req) (req_method req) else return ()) (\<lambda>_. next c)))" for c
    by (intro raise_rules en ro assms(1))
  have token: "check_token X now t = Inl e \<Longrightarrow> status_code e = 401" for now t e
    by (auto simp: check_token_def split: sum.splits jwt_error.splits)
  show ?thesis using run token assms(2)
    by (fastforce simp: raises_def mw_authentication_def throw_def split: option.splits sum.splits)
qed

lemma ends_mw: "(\<And>c. ends P (next c)) \<Longrightarrow> ends P (mw_authentication X req next)"
  unfolding mw_authentication_def
  by (auto simp: ends_def and_then_def throw_def split: option.splits sum.splits result.splits prod.splits)


text \<open>
  The statuses an operation documents, with those every operation may answer without saying so: an internal
  error, the refusals of the middleware, and, for the query of records, the missing template.
\<close>

definition answered_statuses :: "endpoint \<Rightarrow> operation \<Rightarrow> nat list" where
  "answered_statuses e op = map fst (op_responses op) @ [500] @ (if op_security op = [] then [] else [401, 403])
     @ (if e = EQueryRecords then [404] else [])"

definition documented_answer :: "operation \<Rightarrow> nat \<times> bool" where
  "documented_answer op = (case op_responses op of [] \<Rightarrow> (0, False) | (c, b) # _ \<Rightarrow> (c, b \<noteq> NoBody))"

lemma documented_handlers:
  "list_all (\<lambda>(e, op). fst (handler_answers e) = documented_answer op
     \<and> list_all (\<lambda>c. c \<in> set (answered_statuses e op)) (snd (handler_answers e))) (doc_operations api_doc)"
  by (simp add: api_doc_def security_addon_def documented_paths_def documented_answer_def answered_statuses_def doc_defs)

lemma documented_security:
  "list_all (\<lambda>(e, op). op_security op = [] \<longleftrightarrow> e \<in> {EHealth, ELogin}) (doc_operations api_doc)"
  by (simp add: api_doc_def security_addon_def documented_paths_def doc_defs)

text \<open>C40: Answers are as documented. Whatever the state and whichever calls fail, an operation of the OpenAPI document that
  succeeds answers with the documented status, and with data exactly when a type is documented for it; one that fails
  answers with a documented status, with 500, with 401 or 403 where a token is needed, or, for the query of records only,
  with the undocumented 404 of a missing template.\<close>

theorem answers_are_documented:
  assumes "(endpoint_of call, op) \<in> set (doc_operations api_doc)" and "serve X expiration req call w = (r, w')"
  shows "case r of Ok a \<Rightarrow> reply_shape a = documented_answer op
    | Err e \<Rightarrow> status_code e \<in> set (answered_statuses (endpoint_of call) op) | Panic \<Rightarrow> True"
proof -
  let ?e = "endpoint_of call" let ?S = "set (answered_statuses ?e op)"
  from assms(1) documented_handlers have ok: "fst (handler_answers ?e) = documented_answer op"
    and errors: "set (snd (handler_answers ?e)) \<subseteq> ?S" by (auto simp: list_all_iff)
  from assms(1) documented_security have opened: "op_security op = [] \<longleftrightarrow> ?e \<in> {EHealth, ELogin}" by (auto simp: list_all_iff)
  have "raises ?S (serve X expiration req call) \<and> ends (\<lambda>a. reply_shape a = fst (handler_answers ?e)) (serve X expiration req call)"
  proof (cases "needs_login call")
    case True
    then have "{401, 403, 500} \<subseteq> ?S" using opened by (auto simp: needs_login_def answered_statuses_def)
    with True show ?thesis
      by (auto simp: serve_protected intro!: raises_mw raises_mono [OF handler_errors errors] ends_mw handler_success)
  next
    case False
    then show ?thesis
    proof (cases call)
      case (Login nm p)
      with errors have "raises ?S (answer TextReply (login_user_handler X expiration nm p))"
        by (auto intro!: raises_answer raises_mono [OF raises_login])
      with Login show ?thesis by (simp add: shaped_answer shaped_accounts)
    qed (auto simp: needs_login_def raises_return intro!: ends_return, simp add: shape_def)
  qed
  then have "\<forall>er. r = Err er \<longrightarrow> status_code er \<in> ?S" and "\<forall>a. r = Ok a \<longrightarrow> reply_shape a = fst (handler_answers ?e)"
    using arg_cong [OF assms(2), of fst] by (auto simp: raises_def ends_def)
  with ok show ?thesis by (cases r) simp_all
qed

theorem answers_are_documented_witness:
  "\<exists>r w'. serve demo_externs 3600 (demo_request ''Ua'' ''/api/user/me'' ''GET'') Me (demo_access []) = (r, w')
    \<and> (case r of Ok a \<Rightarrow> reply_shape a = (200, True)
       | Err e \<Rightarrow> status_code e \<in> {200, 500, 401, 403} | Panic \<Rightarrow> True)"
proof -
  obtain r w' where run: "serve demo_externs 3600 (demo_request ''Ua'' ''/api/user/me'' ''GET'') Me (demo_access []) = (r, w')"
    by (metis surj_pair)
  have "(endpoint_of Me, doc_get_user_info_handler) \<in> set (doc_operations api_doc)"
    by (simp add: api_doc_def security_addon_def documented_paths_def)
  from answers_are_documented [OF this run] run show ?thesis
    by (auto simp: documented_answer_def answered_statuses_def doc_get_user_info_handler_def split: result.splits)
qed

end
