(* ===== verification/Runs.thy ===== *)
theory Runs
  imports Server
begin

text \<open>
  Runs of the whole server: requests of any clients, the task system, cleanups, restarts and
  outages in any order. Every reachable state has well-formed tables, and a deleted account stays
  locked out.
\<close>

section \<open>The start\<close>

text \<open>
  \<open>Application::build\<close> on a database whose migrations have run: the first administrator, then the
  task runtime with the checked settings. The caches and the task queue of a new process are empty.
\<close>

definition application_build :: "externs \<Rightarrow> (uuid \<Rightarrow> string) \<Rightarrow> task_settings \<Rightarrow>
    (world, anyhow, (string \<times> string) option \<times> task_runtime) prog" where
  "application_build X simple s =
     and_then (modify (\<lambda>w. w\<lparr>schema_cache := \<lambda>_. None\<rparr>)) (\<lambda>_.
     and_then (ensure_bootstrap_admin_if_empty X simple) (\<lambda>login.
     and_then (setup_task_runtime (sanitize_task_settings s)) (\<lambda>runtime.
     return (login, runtime))))"

section \<open>Events\<close>

datatype server_event =
    Request http_request api_call
  | Task event
  | CleanupRun bool duration
  | Restart task_settings

fun server_step :: "externs \<Rightarrow> (uuid \<Rightarrow> string) \<Rightarrow> 64 word \<Rightarrow> nat \<Rightarrow> server_event \<Rightarrow> task_system \<Rightarrow> task_system" where
  "server_step X simple expiration m (Request req call) s = s\<lparr>shared := snd (serve X expiration req call (shared s))\<rparr>"
| "server_step X simple expiration m (Task e) s = step m e s"
| "server_step X simple expiration m (CleanupRun free age) s =
     s\<lparr>shared := snd (cleanup_orphan_persistent_objects free age (shared s))\<rparr>"
| "server_step X simple expiration m (Restart settings) s =
     (let s' = step m Crash s in s'\<lparr>shared := snd (application_build X simple settings (shared s'))\<rparr>)"

text \<open>The tables as the migrations leave them; the process starts with an empty cache.\<close>

definition fresh_tables :: "database \<Rightarrow> bool" where
  "fresh_tables d \<longleftrightarrow> users d = [] \<and> rules d = [] \<and> templates d = [] \<and> records d = [] \<and> files d = [] \<and> outbox d = []"

inductive server_reachable :: "externs \<Rightarrow> (uuid \<Rightarrow> string) \<Rightarrow> 64 word \<Rightarrow> nat \<Rightarrow> task_system \<Rightarrow> bool"
  for X simple expiration m where
  start: "fresh_tables (db w) \<Longrightarrow> schema_cache w = (\<lambda>_. None) \<Longrightarrow> server_reachable X simple expiration m \<lparr>shared = w, in_flight = [], stopping = False\<rparr>"
| step: "server_reachable X simple expiration m s \<Longrightarrow> server_reachable X simple expiration m (server_step X simple expiration m e s)"

text \<open>The command of outbox row \<open>i\<close> succeeds with the event, or during the run.\<close>

fun command_succeeds :: "nat \<Rightarrow> server_event \<Rightarrow> task_system \<Rightarrow> bool" where
  "command_succeeds i (Task e) s = succeeds_now i e s"
| "command_succeeds i e s = False"

fun succeeds_in :: "externs \<Rightarrow> (uuid \<Rightarrow> string) \<Rightarrow> 64 word \<Rightarrow> nat \<Rightarrow> nat \<Rightarrow> server_event list \<Rightarrow> task_system \<Rightarrow> bool" where
  "succeeds_in X simple expiration m i [] s = False"
| "succeeds_in X simple expiration m i (e # es) s =
     (command_succeeds i e s \<or> succeeds_in X simple expiration m i es (server_step X simple expiration m e s))"

section \<open>Every event keeps the invariants of the tables\<close>

context server_invariant
begin

lemma keeps_answer: "keeps I m \<Longrightarrow> keeps I (answer f m)"
  unfolding answer_def by (intro keeps_rules)

lemma keeps_handle_call: "keeps I (handle_call X c call)"
  by (cases call) (simp_all add: keeps_answer keeps_throw keeps_accounts keeps_administration keeps_records)

lemma keeps_serve: "keeps I (serve X expiration req call)"
proof -
  have mw: "keeps I (mw_authentication X req (\<lambda>user. handle_call X user call))"
    unfolding mw_then [of X req "\<lambda>user. handle_call X user call"]
    by (intro keeps_and_then mw_keeps faults_free keeps_handle_call)
  show ?thesis
  proof (cases "needs_login call")
    case True
    with mw show ?thesis by (simp add: serve_protected)
  next
    case False
    then show ?thesis by (cases call) (simp_all add: needs_login_def keeps_return keeps_answer keeps_login)
  qed
qed

lemma keeps_build: "keeps I (application_build X simple s)"
  unfolding application_build_def by (intro keeps_rules keeps_modify_calm keeps_bootstrap keeps_setup) simp

lemma settle_step:
  assumes "\<And>i. k < length (in_flight s) \<Longrightarrow> outbox_id (in_flight s ! k) = Some i \<Longrightarrow> res = Inr () \<Longrightarrow> may i"
  shows "I (shared s) \<Longrightarrow> I (shared (settle k res s))"
  using assms by (auto simp: settle_def intro!: keepsD [OF keeps_settle])

lemma receive_step: "I (shared s) \<Longrightarrow> I (shared (receive m s))"
  by (auto simp: receive_def split: list.splits elim: quiet)

lemma task_step:
  assumes "\<And>i. succeeds_now i e s \<Longrightarrow> may i"
  shows "I (shared s) \<Longrightarrow> I (shared (step m e s))"
proof (cases e)
  case (Settle k res)
  assume "I (shared s)"
  with assms Settle show ?thesis by (auto simp: succeeds_now_def intro!: settle_step)
qed (auto simp: receive_step keepsD [OF keeps_submit] keepsD [OF keeps_in_memory]
      keepsD [OF keeps_pull] keepsD [OF keeps_recover] elim: quiet)

lemma step_keeps:
  assumes "\<And>i. command_succeeds i e s \<Longrightarrow> may i"
  shows "I (shared s) \<Longrightarrow> I (shared (server_step X simple expiration m e s))"
proof (cases e)
  case (Restart settings)
  assume "I (shared s)"
  then have "I (shared (step m Crash s))" by (rule task_step [rotated]) (simp add: succeeds_now_def)
  with keepsD [OF keeps_build] Restart show ?thesis by (simp add: Let_def)
next
  case (Task te)
  assume "I (shared s)"
  with assms Task show ?thesis by (simp add: task_step)
qed (simp_all add: keepsD [OF keeps_serve] keepsD [OF keeps_cleanup])

lemma run_keeps_unless:
  "I (shared s) \<Longrightarrow> (\<And>i. succeeds_in X simple expiration m i es s \<Longrightarrow> may i)
    \<Longrightarrow> I (shared (fold (server_step X simple expiration m) es s))"
proof (induction es arbitrary: s)
  case (Cons e es)
  then have "I (shared (server_step X simple expiration m e s))" by (intro step_keeps) simp_all
  with Cons show ?case by simp
qed simp

lemma run_keeps: "(\<And>i. may i) \<Longrightarrow> I (shared s) \<Longrightarrow> I (shared (fold (server_step X simple expiration m) es s))"
  by (rule run_keeps_unless)

end

section \<open>Reachable states\<close>

text \<open>C2: In every reachable state of the server, whatever clients request, whatever calls fail and whenever the process
  is restarted, the tables are consistent: the ids of users, rules, templates, records, files and outbox rows, user names and the user, pattern and method
  of rules are unique, no row refers to a user, template or record that is not there, every stored rule has a well-formed
  pattern and a known method, and every outbox row holds a command.\<close>

theorem reachable_tables_are_consistent:
  assumes "server_reachable X simple expiration m s"
  shows "tables_ok (db (shared s))"
  using assms
proof induction
  case (start w)
  then show ?case by (simp add: fresh_tables_def tables_ok_def refs_ok_def keys_ok_def rule_rows_ok_def wf_outbox_def)
qed (simp add: tables.step_keeps)

theorem reachable_tables_are_consistent_witness:
  "tables_ok (db (shared (server_step demo_externs (\<lambda>u. []) 3600 4 (Request (demo_request ''Ua'' ''/api/user/me'' ''GET'') Me)
     (server_step demo_externs (\<lambda>u. []) 3600 4 (Restart default_task_settings)
        \<lparr>shared = demo_world [] [], in_flight = [], stopping = False\<rparr>))))"
  by (rule reachable_tables_are_consistent [OF server_reachable.step [OF server_reachable.step [OF server_reachable.start]]])
    (simp_all add: fresh_tables_def demo_world_def empty_db_def)

section \<open>Deleted accounts\<close>

interpretation undrawn: table_invariant "\<lambda>u. u \<noteq> uid" "\<lambda>_. True" "\<lambda>w. \<forall>n\<ge>drawn w. fresh_uuids w n \<noteq> uid" for uid
  by unfold_locales auto

lemma deletion_leaves_gone:
  assumes "handle_call X c (DeleteUser uid) w = (Ok resp, w')" and "\<forall>n\<ge>drawn w. fresh_uuids w n \<noteq> uid"
  shows "gone uid w'"
proof -
  from assms(1) obtain x where "admin_delete_user_handler uid c w = (Ok x, w')"
    by (auto simp: answer_def return_def elim!: and_then_OkE)
  from delete_user_OkD(1) [OF this] have "uid \<notin> u_id ` set (users (db w'))" by auto
  moreover have "\<forall>n\<ge>drawn w'. fresh_uuids w' n \<noteq> uid"
    using keepsE [OF undrawn.keeps_handle_call assms(1,2)] .
  ultimately show ?thesis by (simp add: gone_def)
qed

lemma gone_refused:
  assumes "gone uid w" and "needs_login call" and "authorization req = Some (''Bearer '' @ token)"
    and "x_jwt_decode X (clock w) token = Inr c" and "sub c = uid"
  shows "\<exists>e fs. serve X expiration req call w = (Err e, w\<lparr>faults := fs\<rparr>)"
proof -
  have run: "serve X expiration req call w = and_then (check_user_enabled c) (\<lambda>_.
      and_then (if role c = USER then check_user_role (sub c) (req_path req) (req_method req) else return ()) (\<lambda>_. handle_call X c call)) w"
    using assms(2-4) parse_token_iff [of req token] by (simp add: serve_protected mw_authentication_def check_token_def)
  show ?thesis
  proof (cases rule: check_user_enabled_cases [of c w])
    case (err e fs)
    with run show ?thesis by (auto simp: and_then_def)
  next
    case (ok fs u)
    from ok(2) have "uid \<in> u_id ` set (users (db w))" unfolding assms(5) [symmetric] ok(3) [symmetric] by (rule imageI)
    with assms(1) show ?thesis by (simp add: gone_def)
  qed
qed

text \<open>C14: A deleted account stays locked out. After an administrator's deletion succeeded, no sequence of requests,
  background work, restarts and outages brings the account back: every later request with one of its
  tokens is answered with an error and changes nothing (given that an id is never drawn twice).\<close>

theorem deleted_account_stays_locked_out:
  assumes "handle_call X c (DeleteUser uid) w = (Ok resp, shared s)" and "\<forall>n\<ge>drawn w. fresh_uuids w n \<noteq> uid"
    and "t = fold (server_step X simple expiration m) es s" and "needs_login call"
    and "authorization req = Some (''Bearer '' @ token)" and "x_jwt_decode X (clock (shared t)) token = Inr c'" and "sub c' = uid"
  shows "\<exists>e fs. serve X expiration req call (shared t) = (Err e, (shared t)\<lparr>faults := fs\<rparr>)"
  using gone_refused [OF absent.run_keeps [OF TrueI deletion_leaves_gone [OF assms(1,2)], of X simple expiration m es, folded assms(3)]
      assms(4-7)] .

definition demo_deletion :: world where
  "demo_deletion = (demo_access [demo_rule 7 1 ''/api/archive/'' ''GET''])\<lparr>fresh_uuids := \<lambda>_. 99\<rparr>"

lemma demo_account_deletion:
  "\<exists>resp v. handle_call demo_externs (demo_claims ADMIN 2) (DeleteUser 1) demo_deletion = (Ok resp, v) \<and> clock v = 0"
  by (simp add: answer_def admin_delete_user_handler_def demo_claims_def Users.delete_user_def and_then_def unexpected_def map_err_def
      sql_def demo_deletion_def demo_access_def demo_world_def delete_user_stmt_def count_where_def demo_user_def return_def)

theorem deleted_account_stays_locked_out_witness:
  "\<exists>v resp. handle_call demo_externs (demo_claims ADMIN 2) (DeleteUser 1) demo_deletion = (Ok resp, v)
     \<and> (\<exists>e fs. serve demo_externs 3600 (demo_request ''Ua'' ''/api/user/me'' ''GET'') Me v = (Err e, v\<lparr>faults := fs\<rparr>))"
proof -
  from demo_account_deletion obtain resp v where run: "handle_call demo_externs (demo_claims ADMIN 2) (DeleteUser 1) demo_deletion = (Ok resp, v)"
    and clk: "clock v = 0" by blast
  let ?s = "\<lparr>shared = v, in_flight = [], stopping = False\<rparr>"
  have del: "handle_call demo_externs (demo_claims ADMIN 2) (DeleteUser 1) demo_deletion = (Ok resp, shared ?s)" using run by simp
  have ids: "\<forall>n\<ge>drawn demo_deletion. fresh_uuids demo_deletion n \<noteq> 1" by (simp add: demo_deletion_def)
  have none: "?s = fold (server_step demo_externs (\<lambda>_. []) 3600 4) [] ?s" by simp
  have dec: "x_jwt_decode demo_externs (clock (shared ?s)) ''Ua'' = Inr (demo_claims USER 1)"
    by (simp add: demo_externs_def demo_uuid_parse_def)
  have "\<exists>e fs. serve demo_externs 3600 (demo_request ''Ua'' ''/api/user/me'' ''GET'') Me (shared ?s) = (Err e, (shared ?s)\<lparr>faults := fs\<rparr>)"
    by (rule deleted_account_stays_locked_out [OF del ids none _ _ dec]) (simp_all add: needs_login_def demo_request_def demo_claims_def)
  then have "\<exists>e fs. serve demo_externs 3600 (demo_request ''Ua'' ''/api/user/me'' ''GET'') Me v = (Err e, v\<lparr>faults := fs\<rparr>)"
    by (simp only: task_system.simps)
  with run show ?thesis by blast
qed

section \<open>From the login to a request\<close>

lemma login_OkD:
  assumes "serve X expiration req0 (Login nm p) w = (Ok r, w')"
  obtains u t m where "u \<in> set (users (db w))" "u_name u = nm" "x_verify X (u_hash u) p"
    "generate_jwt_token X expiration (clock w) (u_id u) nm (role_from (u_role u)) = Some t"
    "r = TextReply (resp_success_msg t m)" "db w' = db w" "clock w' = clock w"
proof -
  from assms obtain resp where run: "login_user_handler X expiration nm p w = (Ok resp, w')" and r: "r = TextReply resp"
    by (auto simp: answer_def return_def elim!: and_then_OkE)
  let ?f = "\<lambda>_::int. nonempty_error ''username'' ''the user name is empty'' nm
                 @ nonempty_error ''password'' ''the password is empty'' p"
  have "require_valid ?f w = (Ok (), w)"
    using run by (cases rule: require_valid_cases [of ?f w]) (simp_all add: login_user_handler_def and_then_def)
  with run have "and_then (map_err (\<lambda>_. LoginFailed) (validate_user_password X nm p)) (\<lambda>(uid, ro).
      and_then (generate_jwt X expiration uid nm ro) (\<lambda>jwt. return (resp_success_msg jwt ''logged in''))) w = (Ok resp, w')"
    by (simp add: login_user_handler_def and_then_def)
  then obtain a w1 where v0: "validate_user_password X nm p w = (Ok a, w1)"
    and g0: "(case a of (uid, ro) \<Rightarrow> and_then (generate_jwt X expiration uid nm ro)
        (\<lambda>jwt. return (resp_success_msg jwt ''logged in''))) w1 = (Ok resp, w')"
    by (rule and_then_OkE) simp
  obtain uid ro where a: "a = (uid, ro)" by (cases a)
  note v = v0 [unfolded a]
  from g0 have g: "and_then (generate_jwt X expiration uid nm ro) (\<lambda>jwt. return (resp_success_msg jwt ''logged in'')) w1 = (Ok resp, w')"
    by (simp add: a)
  note V = validate_user_password_cases [OF v]
  have same: "db w1 = db w" "clock w1 = clock w"
    using arg_cong [OF conjunct1 [OF V], of db] arg_cong [OF conjunct1 [OF V], of clock] by simp_all
  from V obtain u where u: "u \<in> set (users (db w))" "u_name u = nm" "u_id u = uid" "role_from (u_role u) = ro" "x_verify X (u_hash u) p"
    by blast
  from g obtain t where "generate_jwt_token X expiration (clock w) uid nm ro = Some t" "resp = resp_success_msg t ''logged in''" "w' = w1"
    by (auto simp: generate_jwt_def and_then_def return_def same split: option.splits)
  with u r same show thesis by (intro that [of u t "''logged in''"]) simp_all
qed

text \<open>C15: A login opens the server. The token of a successful login belongs to an account of that name; until it
  expires, and while that account is active and the services answer, a request that carries it and asks for a
  path the account's role or rules allow is handled with the identity, name and role of the account, in an unchanged
  state (given that the token library decodes what it encoded until it expires).\<close>

theorem login_opens_the_server:
  assumes codec: "\<And>c t now. x_jwt_encode X c = Some t \<Longrightarrow> now div 1000000 < uint (exp c) \<Longrightarrow> x_jwt_decode X now t = Inr c"
    and login: "serve X expiration req0 (Login nm p) w = (Ok (TextReply resp), w')"
    and keys: "distinct (map u_name (users (db w)))" "u \<in> set (users (db w))" "u_name u = nm"
    and later: "faults v = []" "tables_ok (db v)" "u \<in> set (users (db v))" "u_active u"
    and unexpired: "0 \<le> sint expiration" "0 \<le> clock w" "clock w div 1000000 + sint expiration < 2 ^ 64"
      "clock v div 1000000 < clock w div 1000000 + sint expiration"
    and request: "authorization req = Some (''Bearer '' @ the (data resp))" "needs_login call"
    and allowed: "role_from (u_role u) = USER \<Longrightarrow>
      prefix ''/api/user/'' (req_path req) \<or> (\<exists>r\<in>set (rules (db v)). rule_opens (clock v) (u_id u) req r)"
  shows "\<exists>c. sub c = u_id u \<and> username c = nm \<and> role c = role_from (u_role u) \<and> serve X expiration req call v = handle_call X c call v"
proof -
  from login obtain u' t m where u': "u' \<in> set (users (db w))" "u_name u' = nm"
    and tok: "generate_jwt_token X expiration (clock w) (u_id u') nm (role_from (u_role u')) = Some t"
    and resp: "resp = resp_success_msg t m" by (elim login_OkD) auto
  have "u' = u" using keys u' by (auto simp: distinct_map inj_on_def)
  define c where "c = \<lparr>sub = u_id u, exp = word_of_int (clock w div 1000000 + sint expiration) :: 64 word,
    iat = word_of_int (clock w div 1000000), username = nm, role = role_from (u_role u)\<rparr>"
  have "uint (word_of_int k :: 64 word) = k" if "0 \<le> k" "k < 2 ^ 64" for k
    using that by (simp add: unsigned_of_int take_bit_int_eq_self)
  from this [of "clock w div 1000000 + sint expiration"] have "uint (exp c) = clock w div 1000000 + sint expiration"
    using unexpired(1-3) by (simp only: c_def claims.simps)
  then have dec: "x_jwt_decode X (clock v) t = Inr c"
    using codec [of c t "clock v"] tok unexpired(4) \<open>u' = u\<close> by (simp add: generate_jwt_token_def c_def)
  have parse: "parse_token req = Some t" using request(1) resp by (simp add: parse_token_iff resp_success_msg_def)
  have dist: "distinct (map u_id (users (db v)))" and rows: "rule_rows_ok (db v)" using later(2) by (simp_all add: tables_ok_def refs_ok_def)
  have "row_by u_id (sub c) (users (db v)) = Some u" using row_by_distinct [OF dist later(3)] by (simp add: c_def)
  then have en: "check_user_enabled c v = (Ok (), v)"
    using later(1,4) by (simp add: check_user_enabled_def fetch_one_def unexpected_def map_err_def and_then_def select_no_fault return_def)
  have ro: "(if role c = USER then check_user_role (sub c) (req_path req) (req_method req) else return ()) v = (Ok (), v)"
  proof (cases "role c = USER \<and> \<not> prefix ''/api/user/'' (req_path req)")
    case True
    then have "has_permission (clock v) (db v) (sub c) (req_path req) (req_method req)"
      using allowed permission_opens [OF rows] by (simp add: c_def)
    with True later(1) show ?thesis by (simp add: check_user_role_def basic_permissions_def and_then_def return_def)
  qed (auto simp: check_user_role_def basic_permissions_def return_def)
  from parse dec en ro request(2) have "serve X expiration req call v = handle_call X c call v"
    by (simp add: serve_protected mw_authentication_def check_token_def and_then_def)
  then show ?thesis by (intro exI [of _ c]) (simp add: c_def)
qed


text \<open>Concrete runs.\<close>

definition demo_token :: claims where
  "demo_token = \<lparr>sub = 1, exp = 3600, iat = 0, username = ''usera'', role = USER\<rparr>"

definition token_externs :: externs where
  "token_externs = demo_externs\<lparr>x_jwt_encode := (\<lambda>c. if c = demo_token then Some ''t'' else None),
     x_jwt_decode := (\<lambda>now t. if t = ''t'' \<and> now div 1000000 < 3600 then Inr demo_token else Inl ExpiredSignature)\<rparr>"

lemma demo_login_run:
  "\<exists>resp v. serve token_externs 3600 (demo_request [] ''/api/auth/login'' ''POST'') (Login ''usera'' ''secret'') (demo_access [])
     = (Ok (TextReply resp), v) \<and> data resp = Some ''t''"
  by (simp add: answer_def login_user_handler_def require_valid_def nonempty_error_def char_count_def and_then_def map_err_def
      validate_user_password_def get_stored_credentials_def select_no_fault verify_password_def guard_def generate_jwt_def
      generate_jwt_token_def token_externs_def demo_externs_def demo_access_def demo_world_def demo_user_def demo_uuid_str_def
      role_from_def to_uppercase_def upper_char_def is_lower_def demo_token_def return_def resp_success_msg_def)

lemma demo_access_tables: "tables_ok (db (demo_access []))" "faults (demo_access []) = []" "clock (demo_access []) = 0"
  by (simp_all add: tables_ok_def refs_ok_def refers_def keys_ok_def rule_rows_ok_def wf_outbox_def demo_access_def demo_world_def
      demo_user_def empty_db_def)

theorem login_opens_the_server_witness:
  "\<exists>resp v c. serve token_externs 3600 (demo_request [] ''/api/auth/login'' ''POST'') (Login ''usera'' ''secret'') (demo_access [])
       = (Ok (TextReply resp), v)
     \<and> sub c = 1 \<and> serve token_externs 3600 (demo_request ''t'' ''/api/user/me'' ''GET'') Me (demo_access [])
       = handle_call token_externs c Me (demo_access [])"
proof -
  from demo_login_run obtain resp v where run: "serve token_externs 3600 (demo_request [] ''/api/auth/login'' ''POST'')
      (Login ''usera'' ''secret'') (demo_access []) = (Ok (TextReply resp), v)" and t: "data resp = Some ''t''" by blast
  have u: "demo_user 1 \<in> set (users (db (demo_access [])))" "u_name (demo_user 1) = ''usera''" "u_active (demo_user 1)"
    "u_id (demo_user 1) = 1"
    by (simp_all add: demo_access_def demo_user_def demo_uuid_str_def)
  have names: "distinct (map u_name (users (db (demo_access []))))" by (simp add: demo_access_def demo_user_def)
  have codec: "x_jwt_decode token_externs now t = Inr c"
    if "x_jwt_encode token_externs c = Some t" "now div 1000000 < uint (exp c)" for c t now
    using that by (auto simp: token_externs_def demo_token_def split: if_splits)
  have "\<exists>c. sub c = u_id (demo_user 1) \<and> username c = ''usera'' \<and> role c = role_from (u_role (demo_user 1))
      \<and> serve token_externs 3600 (demo_request ''t'' ''/api/user/me'' ''GET'') Me (demo_access [])
        = handle_call token_externs c Me (demo_access [])"
    by (rule login_opens_the_server [OF codec run names u(1,2) _ _ u(1,3)])
      (simp_all add: demo_access_tables t demo_request_def needs_login_def)
  with run u(4) show ?thesis by auto
qed

section \<open>Commands that are stored\<close>

lemma stored_write:
  assumes "table_write ok (\<lambda>j. j \<noteq> i) rec tmpl d d'" and "stored_command i c d"
  shows "stored_command i c d'"
  using assms(1)
proof cases
  case (update_outbox q f)
  with stored_stable [of i c] assms(2) show ?thesis by (simp add: db_stable_def)
next
  case (delete_outbox j)
  with assms(2) show ?thesis by (auto simp: stored_command_def)
next
  case (upsert_rule req fresh granter now y)
  from upsert_rule(2) show ?thesis by (cases rule: upsert_rule_cases) (use assms(2) in \<open>simp_all add: stored_command_def\<close>)
next
  case (delete_record tid rid now n)
  then show ?thesis by (cases rule: delete_record_tables) (use assms(2) in \<open>simp_all add: stored_command_def\<close>)
qed (use assms(2) in \<open>auto simp: insert_user_def insert_first_admin_def update_user_def delete_user_stmt_def insert_template_def
  update_template_row_def delete_template_stmt_def insert_record_def insert_file_def insert_outbox_def Let_def stored_command_def
  split: if_splits option.splits\<close>)

interpretation kept: table_invariant "\<lambda>_. True" "\<lambda>j. j \<noteq> i" "\<lambda>w. stored_command i c (db w)" for i c
  by unfold_locales (auto intro: stored_write)

lemma commands_survive:
  assumes "stored_command i c (db (shared s))" and "\<not> succeeds_in X simple expiration m i es s"
  shows "stored_command i c (db (shared (fold (server_step X simple expiration m) es s)))"
  using kept.run_keeps_unless [OF assms(1)] assms(2) by blast

text \<open>C10: No object of a deleted record is forgotten. After a successful deletion during which at most one call failed, every object
  of the record that is still in the storage is named in a command of the outbox, and whatever then
  happens to the server, requests, failing calls, full channels, crashes and restarts, this command
  stays in the outbox until a run of it has succeeded.\<close>

theorem deleted_files_are_not_forgotten:
  assumes "bad_calls w \<le> 1" and "handle_call X user (DeleteRecord tid rid) w = (Ok resp, shared s)"
    and "k \<in> set (of_record rid (db w))" and "k \<in> stored_keys (shared s)"
  shows "\<exists>i ks. k \<in> set ks \<and> (\<forall>es. succeeds_in X simple expiration m i es s
      \<or> stored_command i (DeleteArchiveObjects ks) (db (shared (fold (server_step X simple expiration m) es s))))"
proof -
  obtain x where run: "delete_archive_record_handler tid rid w = (Ok x, shared s)"
    using assms(2) by (auto simp: answer_def return_def elim!: and_then_OkE)
  note A = record_deletion_outcome [OF assms(1) run]
  then have "cleanup_stored (set (of_record rid (db w)) \<inter> stored_keys (shared s)) (db (shared s))"
    by (auto split: if_splits)
  with assms(3,4) obtain i ks where "stored_command i (DeleteArchiveObjects ks) (db (shared s))" "k \<in> set ks"
    by (auto simp: cleanup_stored_def)
  then show ?thesis using commands_survive by blast
qed


text \<open>A deletion whose object storage answers too late.\<close>

lemma demo_delete_call:
  obtains resp v where "handle_call demo_externs (demo_claims USER 1) (DeleteRecord 5 7) demo_delete_world = (Ok resp, v)"
    "bucket v = bucket demo_delete_world"
proof -
  obtain v where run: "delete_archive_record_handler 5 7 demo_delete_world = (Ok (resp_ok_msg ''archive record deleted''), v)"
    using demo_deletion_run by (metis prod.collapse)
  have "bucket (snd (delete_archive_record_handler 5 7 demo_delete_world)) = bucket demo_delete_world"
    by (simp add: demo_delete_world_def demo_world_def empty_db_def delete_archive_record_handler_def tx_begin_def select_def sql_def
      next_fault_def unexpected_def map_err_def and_then_def or_drop_def delete_archive_record_by_id_def delete_record_stmt_def Let_def
      demo_record_def count_where_def tx_commit_def delete_files_by_object_keys_def delete_objects_def attempt_def
      delete_objects_with_report_def max_delete_per_request_def chunks.simps delete_request_def submit_def insert_outbox_def
      try_enqueue_outbox_task_def try_reserve_slot_def mark_running_def update_outbox_def permit_send_def modify_def return_def
      update_where_def delete_where_def from_outbox_def)
  with run have "bucket v = bucket demo_delete_world" by simp
  moreover have "handle_call demo_externs (demo_claims USER 1) (DeleteRecord 5 7) demo_delete_world
      = (Ok (Done (resp_ok_msg ''archive record deleted'')), v)"
    using run by (simp add: answer_def and_then_def return_def)
  ultimately show thesis by (rule that [rotated])
qed

theorem deleted_files_are_not_forgotten_witness:
  "\<exists>resp s i ks. handle_call demo_externs (demo_claims USER 1) (DeleteRecord 5 7) demo_delete_world = (Ok resp, shared s)
     \<and> build_archive_dest_key demo_externs 7 1 \<in> set ks
     \<and> stored_command i (DeleteArchiveObjects ks) (db (shared (server_step demo_externs (\<lambda>_. []) 3600 4 (Restart default_task_settings) s)))"
proof -
  obtain resp v where run: "handle_call demo_externs (demo_claims USER 1) (DeleteRecord 5 7) demo_delete_world = (Ok resp, v)"
    and b: "bucket v = bucket demo_delete_world" by (rule demo_delete_call)
  let ?s = "\<lparr>shared = v, in_flight = [], stopping = False\<rparr>" and ?k = "build_archive_dest_key demo_externs 7 1"
  have run': "handle_call demo_externs (demo_claims USER 1) (DeleteRecord 5 7) demo_delete_world = (Ok resp, shared ?s)" using run by simp
  have few: "bad_calls demo_delete_world \<le> 1" by (simp add: bad_calls_def demo_delete_world_def demo_world_def)
  have "?k \<in> set (of_record 7 (db demo_delete_world))" by (simp add: of_record_def demo_delete_world_def)
  moreover have "?k \<in> stored_keys (shared ?s)" by (simp add: stored_keys_def b demo_delete_world_def demo_world_def)
  ultimately obtain i ks where "?k \<in> set ks" and all: "\<forall>es. succeeds_in demo_externs (\<lambda>_. []) 3600 4 i es ?s
      \<or> stored_command i (DeleteArchiveObjects ks) (db (shared (fold (server_step demo_externs (\<lambda>_. []) 3600 4) es ?s)))"
    using deleted_files_are_not_forgotten [OF few run', where k = ?k and simple = "\<lambda>_. []" and expiration = 3600 and m = 4] by blast
  moreover from all [THEN spec, of "[Restart default_task_settings]"]
  have "stored_command i (DeleteArchiveObjects ks) (db (shared (server_step demo_externs (\<lambda>_. []) 3600 4 (Restart default_task_settings) ?s)))"
    by simp
  ultimately show ?thesis using run' by blast
qed


end
