(* ===== verification/Validity.thy ===== *)
theory Validity
  imports Runs
begin

text \<open>
  The invariant the program exists for: in every reachable state, every stored record is valid for
  the schema its template has now, and every cached context is that of the stored schema.
\<close>

section \<open>Records that fit their templates\<close>

definition schema_of :: "database \<Rightarrow> uuid \<Rightarrow> json option" where
  "schema_of d tid = map_option t_schema (row_by t_id tid (templates d))"

definition valid_for :: "externs \<Rightarrow> database \<Rightarrow> uuid \<Rightarrow> json \<Rightarrow> bool" where
  "valid_for X d tid v \<longleftrightarrow> (case schema_of d tid of None \<Rightarrow> False | Some s \<Rightarrow> x_schema_errors X s v = [])"

definition records_fit :: "externs \<Rightarrow> database \<Rightarrow> bool" where
  "records_fit X d \<longleftrightarrow> (\<forall>a\<in>set (records d). valid_for X d (a_template a) (a_data a))"

definition records_ok :: "externs \<Rightarrow> world \<Rightarrow> bool" where
  "records_ok X w \<longleftrightarrow> cache_ok X w \<and> records_fit X (db w)"

lemma true_context_schema:
  "true_context X d tid = (case schema_of d tid of None \<Rightarrow> None
     | Some s \<Rightarrow> if x_schema_error X s = None then Some (context_of s) else None)"
  by (simp add: true_context_def schema_of_def split: option.splits)

lemma valid_for_schemas: "schema_of d' tid = schema_of d tid \<Longrightarrow> valid_for X d' tid v = valid_for X d tid v"
  by (simp add: valid_for_def)

lemma cache_ok_schemas:
  assumes "cache_ok X w" and "schema_cache w' \<subseteq>\<^sub>m schema_cache w" and "schema_of (db w') = schema_of (db w)"
  shows "cache_ok X w'"
proof -
  have "dm_get k (schema_cache w) = Some v" if "dm_get k (schema_cache w') = Some v" for k v
    using assms(2) that by (auto simp: dm_get_def map_le_def dom_def)
  moreover have "true_context X (db w') = true_context X (db w)" using assms(3) by (simp add: true_context_schema fun_eq_iff)
  ultimately show ?thesis using assms(1) by (simp add: cache_ok_def)
qed

text \<open>A write that is not to the templates changes no schema, and adds only records that are allowed.\<close>

lemma write_schemas:
  assumes "table_write ok may rec False d d'"
  shows "schema_of d' = schema_of d"
  using assms
proof cases
  case (upsert_rule req fresh granter now y)
  from upsert_rule(2) show ?thesis by (cases rule: upsert_rule_cases) (simp_all add: schema_of_def fun_eq_iff)
next
  case (delete_record tid rid now n)
  then show ?thesis by (cases rule: delete_record_tables) (simp_all add: schema_of_def fun_eq_iff)
next
  case (delete_user uid now n)
  then show ?thesis
    by (auto simp: delete_user_stmt_def schema_of_def fun_eq_iff row_by_map option.map_comp comp_def split: if_splits)
qed (auto simp: insert_user_def insert_first_admin_def update_user_def insert_record_def insert_file_def insert_outbox_def Let_def
    schema_of_def fun_eq_iff split: if_splits)

lemma write_records:
  assumes "table_write ok may rec False d d'" and "a \<in> set (records d')"
  shows "(\<exists>a'\<in>set (records d). a_template a' = a_template a \<and> a_data a' = a_data a) \<or> rec (a_template a) (a_data a)"
  using assms(1)
proof cases
  case (upsert_rule req fresh granter now y)
  from upsert_rule(2) show ?thesis by (cases rule: upsert_rule_cases) (use assms(2) in auto)
next
  case (delete_record tid rid now n)
  then show ?thesis by (cases rule: delete_record_tables) (use assms(2) in auto)
next
  case (delete_user uid now n)
  then have "records d' = records d \<or> records d' = map (\<lambda>a. a\<lparr>a_by := forget_user uid (a_by a)\<rparr>) (records d)"
    by (auto simp: delete_user_stmt_def split: if_splits)
  with assms(2) show ?thesis by force
qed (use assms(2) in \<open>auto simp: insert_user_def insert_first_admin_def update_user_def insert_record_def
    insert_file_def insert_outbox_def Let_def split: if_splits\<close>)

lemma write_fit:
  assumes "table_write ok may rec False d d'" and "records_fit X d" and "\<And>tid v. rec tid v \<Longrightarrow> valid_for X d tid v"
  shows "records_fit X d'"
  unfolding records_fit_def
proof
  fix a assume "a \<in> set (records d')"
  with write_records [OF assms(1)] assms(2,3) have "valid_for X d (a_template a) (a_data a)"
    by (fastforce simp: records_fit_def)
  then show "valid_for X d' (a_template a) (a_data a)" using valid_for_schemas write_schemas [OF assms(1)] by metis
qed

lemma write_ok:
  assumes "table_write ok may rec False (db w) d'" and "records_ok X w" and "\<And>tid v. rec tid v \<Longrightarrow> valid_for X (db w) tid v"
  shows "records_ok X (w\<lparr>db := d'\<rparr>)" and "valid_for X d' tid v = valid_for X (db w) tid v"
proof -
  note schemas = write_schemas [OF assms(1)]
  have "cache_ok X (w\<lparr>db := d'\<rparr>)"
    by (rule cache_ok_schemas [of X w]) (use assms(2) schemas in \<open>simp_all add: records_ok_def\<close>)
  moreover have "records_fit X d'" using write_fit [OF assms(1) _ assms(3)] assms(2) by (simp add: records_ok_def)
  ultimately show "records_ok X (w\<lparr>db := d'\<rparr>)" by (simp add: records_ok_def)
  show "valid_for X d' tid v = valid_for X (db w) tid v" by (rule valid_for_schemas) (simp add: schemas)
qed

section \<open>The handlers\<close>

text \<open>While the data of a request is known to fit, it may be stored as a record.\<close>

interpretation fitting: row_invariant "\<lambda>_. True" "\<lambda>_. True" "\<lambda>t v. t = tid \<and> v = data" "\<lambda>w. records_ok X w \<and> valid_for X (db w) tid data"
  for X tid data
proof
  fix w w' :: world assume *: "records_ok X w \<and> valid_for X (db w) tid data" "db w' = db w" "schema_cache w' \<subseteq>\<^sub>m schema_cache w"
  then show "records_ok X w' \<and> valid_for X (db w') tid data" using cache_ok_schemas [of X w w'] by (simp add: records_ok_def)
next
  fix w :: world and d' assume *: "records_ok X w \<and> valid_for X (db w) tid data" "table_write (\<lambda>_. True) (\<lambda>_. True) (\<lambda>t v. t = tid \<and> v = data) False (db w) d'"
  from *(1) have "records_ok X w" and "\<And>t v. t = tid \<and> v = data \<Longrightarrow> valid_for X (db w) t v" by simp_all
  from write_ok [OF *(2) this] *(1) show "records_ok X (w\<lparr>db := d'\<rparr>) \<and> valid_for X (db (w\<lparr>db := d'\<rparr>)) tid data" by simp
qed simp

text \<open>The records alone, while no record is of the template \<open>tid\<close> (if one is given).\<close>

definition unused :: "uuid option \<Rightarrow> database \<Rightarrow> bool" where
  "unused tid d \<longleftrightarrow> (\<forall>a\<in>set (records d). Some (a_template a) \<noteq> tid)"

interpretation untouched: row_invariant "\<lambda>_. True" "\<lambda>_. True" "\<lambda>_ _. False" "\<lambda>w. records_fit X (db w) \<and> unused tid (db w)"
  for X tid
proof
  fix w :: world and d' assume *: "records_fit X (db w) \<and> unused tid (db w)"
    "table_write (\<lambda>_. True) (\<lambda>_. True) (\<lambda>_ _. False) False (db w) d'"
  then have "records_fit X d'" using write_fit [OF *(2)] by blast
  moreover have "unused tid d'" using * write_records [OF *(2)] unfolding unused_def by (metis (full_types))
  ultimately show "records_fit X (db (w\<lparr>db := d'\<rparr>)) \<and> unused tid (db (w\<lparr>db := d'\<rparr>))" by simp
qed simp_all

interpretation fit: row_invariant "\<lambda>_. True" "\<lambda>_. True" "\<lambda>_ _. False" "records_ok X" for X
proof
  fix w w' :: world assume "records_ok X w" "db w' = db w" "schema_cache w' \<subseteq>\<^sub>m schema_cache w"
  then show "records_ok X w'" using cache_ok_schemas [of X w w'] by (simp add: records_ok_def)
next
  fix w :: world and d' assume *: "records_ok X w" "table_write (\<lambda>_. True) (\<lambda>_. True) (\<lambda>_ _. False) False (db w) d'"
  show "records_ok X (w\<lparr>db := d'\<rparr>)" by (rule write_ok(1) [OF *(2,1)]) simp
qed simp


text \<open>Loading reads the tables; it fills the cache with the context of the stored schema.\<close>

lemma load_keeps_ok: "keeps (records_ok X) (get_or_load_template_context X tid)"
proof (rule keepsI)
  fix w assume I: "records_ok X w"
  have "cache_ok X (snd (get_or_load_template_context X tid w))"
    using keepsD [OF keeps_cache_load] I by (simp add: records_ok_def)
  moreover have "db (snd (get_or_load_template_context X tid w)) = db w"
    by (cases rule: load_cases [of tid w X]) simp_all
  ultimately show "records_ok X (snd (get_or_load_template_context X tid w))" using I by (simp add: records_ok_def)
qed

interpretation fit: loading_invariant "\<lambda>_. True" "\<lambda>_. True" "\<lambda>_ _. False" "records_ok X" X for X
  by unfold_locales (rule load_keeps_ok)

text \<open>The cache and the records are looked at separately where templates are written.\<close>

lemma keeps_ok:
  assumes "keeps (cache_ok X) m" and "keeps (\<lambda>w. records_fit X (db w) \<and> unused None (db w)) m"
  shows "keeps (records_ok X) m"
proof (rule keepsI)
  fix w assume "records_ok X w"
  then show "records_ok X (snd (m w))"
    using keepsD [OF assms(1), of w] keepsD [OF assms(2), of w] by (simp add: records_ok_def unused_def)
qed

lemma schemas_elsewhere:
  assumes "records_fit X d \<and> unused tid d" and "records d' = records d"
    and "\<And>k s. Some k \<noteq> tid \<Longrightarrow> schema_of d k = Some s \<Longrightarrow> schema_of d' k = Some s"
  shows "records_fit X d' \<and> unused tid d'"
proof -
  have "valid_for X d' (a_template a) (a_data a)" if "a \<in> set (records d)" for a
  proof -
    have "Some (a_template a) \<noteq> tid" "valid_for X d (a_template a) (a_data a)"
      using assms(1) that by (auto simp: records_fit_def unused_def)
    with assms(3) [of "a_template a"] show ?thesis by (auto simp: valid_for_def split: option.splits)
  qed
  with assms(1,2) show ?thesis by (simp add: records_fit_def unused_def)
qed

lemma keeps_templates_statement:
  assumes "\<And>now d x d'. st now d = Inr (x, d') \<Longrightarrow> records d' = records d"
    and "\<And>now d x d' k s. st now d = Inr (x, d') \<Longrightarrow> Some k \<noteq> tid \<Longrightarrow> schema_of d k = Some s \<Longrightarrow> schema_of d' k = Some s"
  shows "keeps (\<lambda>w. records_fit X (db w) \<and> unused tid (db w)) (sql st)"
proof (rule keeps_sql [OF untouched.faults_free])
  fix w x d assume I: "records_fit X (db w) \<and> unused tid (db w)" and run: "st (clock w) (db w) = Inr (x, d)"
  have "records_fit X d \<and> unused tid d" by (rule schemas_elsewhere [OF I]) (use assms run in blast)+
  then show "records_fit X (db (w\<lparr>db := d\<rparr>)) \<and> unused tid (db (w\<lparr>db := d\<rparr>))" by simp
qed

lemma update_row_records:
  "update_template_row tid f now d = Inr (row, d') \<Longrightarrow> records d' = records d"
  by (auto simp: update_template_row_def split: option.splits if_splits)

text \<open>The handlers that change a template look first for a record of it.\<close>

lemma keeps_after_check:
  assumes "keeps (\<lambda>w. records_fit X (db w) \<and> unused (Some tid) (db w)) m"
  shows "keeps (\<lambda>w. records_fit X (db w) \<and> unused None (db w)) (and_then (check_any_record_exists tid) (\<lambda>there. if there then throw e else m))"
proof (rule keepsI)
  let ?q = "\<lambda>_ d. list_ex (\<lambda>a. a_template a = tid) (records d)"
  fix w :: world assume I: "records_fit X (db w) \<and> unused None (db w)"
  show "records_fit X (db (snd (and_then (check_any_record_exists tid) (\<lambda>there. if there then throw e else m) w)))
    \<and> unused None (db (snd (and_then (check_any_record_exists tid) (\<lambda>there. if there then throw e else m) w)))"
  proof (cases rule: unexpected_select_cases [of ?q w])
    case (err e' fs)
    with I show ?thesis by (simp add: check_any_record_exists_def and_then_def)
  next
    case (ok fs)
    show ?thesis
    proof (cases "?q (clock w) (db w)")
      case True
      with ok I show ?thesis by (simp add: check_any_record_exists_def and_then_def throw_def)
    next
      case False
      then have "unused (Some tid) (db w)" by (auto simp: unused_def list_ex_iff)
      with I keepsD [OF assms, of "w\<lparr>faults := fs\<rparr>"]
      show ?thesis using ok False by (simp add: check_any_record_exists_def and_then_def unused_def)
    qed
  qed
qed

lemma create_template_keeps_ok: "keeps (records_ok X) (create_template_handler X r c)"
proof (rule keeps_ok [OF keeps_cache_create])
  show "keeps (\<lambda>w. records_fit X (db w) \<and> unused None (db w)) (create_template_handler X r c)"
    unfolding create_template_handler_def create_template_def
    by (intro keeps_rules table_rules keeps_lift_result keeps_templates_statement)
      (auto simp: insert_template_def Let_def schema_of_def row_by_append split: if_splits option.splits)
qed

lemma update_template_keeps_ok: "keeps (records_ok X) (update_template_handler X r)"
proof (rule keeps_ok [OF keeps_cache_update_handler])
  have "keeps (\<lambda>w. records_fit X (db w) \<and> unused (Some (ut_id r)) (db w)) (update_template r)"
    unfolding update_template_def
    by (intro keeps_rules table_rules keeps_lift_result keeps_templates_statement)
      (auto simp: update_row_records schema_of_def update_template_row_other)
  then show "keeps (\<lambda>w. records_fit X (db w) \<and> unused None (db w)) (update_template_handler X r)"
    unfolding update_template_handler_def by (intro keeps_and_then keeps_after_check keeps_return keeps_cache_valid)
qed

lemma delete_template_keeps_ok: "keeps (records_ok X) (delete_template_handler tid)"
proof (rule keeps_ok [OF keeps_cache_delete_handler])
  have "keeps (\<lambda>w. records_fit X (db w) \<and> unused (Some tid) (db w)) (Templates.delete_template tid)"
    unfolding Templates.delete_template_def
    by (intro keeps_rules table_rules keeps_templates_statement)
      (auto simp: delete_template_stmt_def schema_of_def row_by_delete_where split: if_splits)
  then show "keeps (\<lambda>w. records_fit X (db w) \<and> unused None (db w)) (delete_template_handler tid)"
    unfolding delete_template_handler_def by (intro keeps_and_then keeps_after_check keeps_return)
qed

lemma template_status_keeps_ok: "keeps (records_ok X) (modify_template_status_handler tid act)"
proof (rule keeps_ok [OF keeps_cache_status])
  show "keeps (\<lambda>w. records_fit X (db w) \<and> unused None (db w)) (modify_template_status_handler tid act)"
    unfolding modify_template_status_handler_def modify_template_status_def
    by (intro keeps_rules table_rules keeps_templates_statement)
      (auto simp: update_template_row_def schema_of_def row_by_update_where split: if_splits option.splits)
qed


text \<open>The creation stores what the preparation has validated.\<close>

lemma create_record_keeps_ok: "keeps (records_ok X) (create_archive_record_handler X tid req user)"
proof (rule keepsI)
  fix w assume I: "records_ok X w"
  obtain r1 w1 where before: "before_creation X tid req w = (r1, w1)" by (cases "before_creation X tid req w")
  have I1: "records_ok X w1" by (rule keepsE [OF fit.keeps_before before I])
  show "records_ok X (snd (create_archive_record_handler X tid req user w))"
  proof (cases r1)
    case (Ok c)
    from I have "cache_ok X w" by (simp add: records_ok_def)
    then obtain t where "row_by t_id tid (templates (db w)) = Some t" "x_schema_errors X (t_schema t) (cr_data req) = []"
      by (rule before_creation_OkD) (use before Ok in simp)
    then have "valid_for X (db w1) tid (cr_data req)"
      using quietE [OF quiet_before before] by (simp add: valid_for_def schema_of_def)
    with I1 have both: "records_ok X w1 \<and> valid_for X (db w1) tid (cr_data req)" ..
    obtain r2 w2 where tx: "create_in_transaction X req tid (sub user) (files_of_request c req) w1 = (r2, w2)" by (metis surj_pair)
    have "records_ok X w2 \<and> valid_for X (db w2) tid (cr_data req)"
      by (rule keepsE [OF fitting.keeps_create_in_transaction tx both]) simp
    then have I2: "records_ok X w2" ..
    have "keeps (records_ok X) (after_creation X req c rd)" for rd
      unfolding after_creation_def delete_upload_session_def redis_del_def by (intro keeps_rules table_rules)
    from keepsD [OF this I2] show ?thesis
      using before Ok tx I2 by (simp add: creation_stages and_then_def split: result.splits)
  qed (use before I1 in \<open>simp_all add: creation_stages and_then_def\<close>)
qed

interpretation fit: server_invariant "\<lambda>_. True" "\<lambda>_. True" "\<lambda>_ _. False" "records_ok X" X for X
  by unfold_locales (rule create_template_keeps_ok update_template_keeps_ok delete_template_keeps_ok
      template_status_keeps_ok create_record_keeps_ok)+

section \<open>Reachable states\<close>

text \<open>C3: Every stored record fits its template. In every reachable state of the server, whatever clients request,
  whatever calls fail and whenever the process is restarted, the data of every stored record is valid for the
  schema that its template has in the same state, and every context in the cache is the one of the
  schema stored now.\<close>

theorem stored_records_fit_their_templates:
  assumes "server_reachable X simple expiration m s"
  shows "(\<forall>a\<in>set (records (db (shared s))). \<exists>t. row_by t_id (a_template a) (templates (db (shared s))) = Some t
      \<and> x_schema_errors X (t_schema t) (a_data a) = [])
    \<and> (\<forall>tid c. dm_get tid (schema_cache (shared s)) = Some c \<longrightarrow> true_context X (db (shared s)) tid = Some c)"
proof -
  from assms have "records_ok X (shared s)"
  proof induction
    case (start w)
    then show ?case by (simp add: fresh_tables_def records_ok_def records_fit_def cache_ok_def dm_get_def)
  qed (simp add: fit.step_keeps)
  then show ?thesis
    by (auto simp: records_ok_def records_fit_def cache_ok_def valid_for_def schema_of_def split: option.splits)
qed


section \<open>A run that stores a record\<close>

text \<open>From empty tables: the server starts, the first administrator creates a template and then a record of it.\<close>

definition strict_externs :: externs where
  "strict_externs = demo_externs\<lparr>x_schema_errors := \<lambda>s v. if v = JNull then [([], ''null'')] else []\<rparr>"

definition demo_admin :: user_row where
  "demo_admin = \<lparr>u_id = 4, u_name = ''bootstrap_admin_'', u_nickname = ''system administrator'',
     u_hash = ''Adm!'', u_role = ''ADMIN'', u_email = None, u_phone = None, u_avatar = None, u_major = None,
     u_college = None, u_active = True, u_created = 0\<rparr>"

definition demo_started :: "template_row list \<Rightarrow> archive_row list \<Rightarrow> nat \<Rightarrow> world" where
  "demo_started ts rs n = (demo_world [] [])\<lparr>db := empty_db\<lparr>users := [demo_admin], templates := ts, records := rs\<rparr>,
     queue_capacity := 1024, drawn := n\<rparr>"

abbreviation demo_event :: "server_event \<Rightarrow> task_system \<Rightarrow> task_system" where
  "demo_event \<equiv> server_step strict_externs (\<lambda>_. []) 3600 4"

definition idle_system :: "world \<Rightarrow> task_system" where
  "idle_system w = \<lparr>shared = w, in_flight = [], stopping = False\<rparr>"

lemma recover_nothing:
  assumes "faults w = []" and "outbox (db w) = []"
  shows "\<exists>r. recover_outbox_tasks t w = (Ok r, w)"
proof -
  have "w\<lparr>db := db w\<lparr>outbox := []\<rparr>\<rparr> = w" using assms(2) by simp
  then have "\<exists>n. reclaim_stale_running_outbox t w = (Ok n, w)"
    using assms by (simp add: reclaim_stale_running_outbox_def return_def sql_def update_outbox_def update_where_def)
  with assms show ?thesis
    by (auto simp: recover_outbox_tasks_def and_then_def select_no_fault due_rows_def return_def)
qed

lemma demo_restart: "demo_event (Restart default_task_settings) (idle_system (demo_world [] [])) = idle_system (demo_started [] [] 5)"
proof -
  have boot: "\<exists>x. ensure_bootstrap_admin_if_empty strict_externs (\<lambda>_. []) (demo_world [] []) = (Ok x, (demo_started [] [] 5)\<lparr>queue_capacity := 2\<rparr>)"
    by (simp add: demo_started_def demo_admin_def ensure_bootstrap_admin_if_empty_def
      create_first_admin_def demo_world_def empty_db_def select_no_fault and_then_def map_err_def new_uuid_def hash_password_def
      strict_externs_def demo_externs_def sql_def insert_first_admin_def admin_row_def user_fits_def fits_def char_count_def
      demo_uuid_str_def return_def Let_def)
  obtain r where rec: "recover_outbox_tasks (from_secs 300) (demo_started [] [] 5) = (Ok r, demo_started [] [] 5)"
    using recover_nothing [of "demo_started [] [] 5" "from_secs 300"]
    by (auto simp: demo_started_def demo_world_def empty_db_def)
  have crash: "step 4 Crash (idle_system (demo_world [] [])) = idle_system (demo_world [] [])"
    by (simp add: idle_system_def demo_world_def)
  have start: "(demo_world [] [])\<lparr>schema_cache := \<lambda>_. None\<rparr> = demo_world [] []" by (simp add: demo_world_def)
  have queue: "(demo_started [] [] 5)\<lparr>queue := [], queue_capacity := 1024, queue_closed := False,
      dropped_full := 0, dropped_closed := 0\<rparr> = demo_started [] [] 5"
    by (simp add: demo_started_def demo_world_def)
  show ?thesis using boot rec crash
    by (auto simp: idle_system_def application_build_def start queue modify_def and_then_def setup_task_runtime_def new_pair_def Let_def
        default_task_settings_def sanitize_task_settings_def or_default_def attempt_def return_def)
qed

definition demo_album :: create_template_request where
  "demo_album = \<lparr>ct_name = ''album'', ct_category = ''general'', ct_desc = None,
     ct_schema = \<lparr>schema_def = JObj [], inst = None\<rparr>, ct_files = None\<rparr>"

definition demo_row :: template_row where
  "demo_row = \<lparr>t_id = 5, t_name = ''album'', t_category = ''general'', t_desc = None, t_schema = JObj [], t_active = True,
     t_by = Some 4, t_created = 0, t_updated = 0\<rparr>"

lemma demo_admitted_admin:
  "mw_authentication strict_externs (demo_request ''Aaaaa'' p m) f (demo_started ts rs n) = f (demo_claims ADMIN 4) (demo_started ts rs n)"
proof -
  have "parse_token (demo_request ''Aaaaa'' p m) = Some ''Aaaaa''" by (simp add: parse_token_iff demo_request_def)
  then show ?thesis
    by (simp add: mw_authentication_def check_token_def demo_started_def demo_world_def strict_externs_def demo_externs_def
        demo_uuid_parse_def demo_claims_def demo_admin_def check_user_enabled_def fetch_one_def unexpected_def map_err_def
        and_then_def select_no_fault return_def)
qed

lemma demo_template_request:
  "demo_event (Request (demo_request ''Aaaaa'' p m) (CreateTemplate demo_album)) (idle_system (demo_started [] [] 5))
     = idle_system (demo_started [demo_row] [] 6)"
  by (simp add: idle_system_def demo_admitted_admin answer_def)
     (simp add: demo_started_def demo_row_def demo_album_def create_template_handler_def validate_create_template_def
      length_error_def char_count_def option_errors_def schema_validation_errors_def template_schema_validate_def Let_def
      create_template_def insert_template_def new_uuid_def demo_claims_def demo_admin_def resp_created_def template_to_dto_def
      demo_world_def empty_db_def strict_externs_def demo_externs_def select_no_fault and_then_def unexpected_def map_err_def
      return_def lift_result_def require_valid_def sql_def)

definition demo_data :: create_record_request where
  "demo_data = \<lparr>cr_data = JObj [], cr_session = None\<rparr>"

definition demo_stored :: "archive_row list \<Rightarrow> nat \<Rightarrow> world" where
  "demo_stored rs n = (demo_started [demo_row] rs n)\<lparr>schema_cache := [5 \<mapsto> context_of (JObj [])]\<rparr>"

lemma strict_errors: "x_schema_errors strict_externs s v = (if v = JNull then [([], ''null'')] else [])"
  by (simp add: strict_externs_def)

lemma demo_before:
  "before_creation strict_externs 5 demo_data (demo_started [demo_row] [] 6) = (Ok (context_of (JObj [])), demo_stored [] 6)"
proof -
  have load: "get_or_load_template_context strict_externs 5 (demo_started [demo_row] [] 6) = (Ok (context_of (JObj [])), demo_stored [] 6)"
    by (simp add: demo_stored_def demo_started_def demo_world_def empty_db_def demo_row_def get_or_load_template_context_def
        from_database_get_template_context_def gets_def dm_get_def dm_insert_def cache_insert_def modify_def select_no_fault and_then_def
        unexpected_def map_err_def return_def strict_externs_def demo_externs_def)
  have hit: "get_or_load_template_context strict_externs 5 (demo_stored [] 6) = (Ok (context_of (JObj [])), demo_stored [] 6)"
    by (simp add: demo_stored_def get_or_load_template_context_def gets_def dm_get_def and_then_def return_def)
  have "check_template_is_enabled 5 (demo_started [demo_row] [] 6) = (Ok (), demo_started [demo_row] [] 6)"
    by (simp add: check_template_is_enabled_def demo_started_def demo_world_def empty_db_def demo_row_def select_no_fault and_then_def
        unexpected_def map_err_def return_def)
  moreover have "try_from_schema (JObj []) = None" by (simp add: try_from_schema_def)
  ultimately show ?thesis
    by (simp add: before_creation_def validate_instance_by_id_def and_then_def load hit lift_result_def validate_instance_def
        check_need_file_def demo_data_def context_of_def strict_errors return_def)
qed

lemma demo_record_request:
  "\<exists>a. a_template a = 5 \<and> a_data a = JObj [] \<and>
     demo_event (Request (demo_request ''Aaaaa'' p m) (CreateRecord 5 demo_data)) (idle_system (demo_started [demo_row] [] 6))
     = idle_system (demo_stored [a] 7)"
proof -
  have none: "files_of_request c demo_data = None" for c
    by (simp add: files_of_request_def demo_data_def split: option.splits)
  have "\<exists>rd a. a_template a = 5 \<and> a_data a = JObj []
      \<and> create_in_transaction strict_externs demo_data 5 4 None (demo_stored [] 6) = (Ok rd, demo_stored [a] 7)"
    by (simp add: demo_stored_def demo_started_def demo_row_def demo_data_def demo_world_def empty_db_def demo_admin_def
        create_in_transaction_def create_archive_record_def tx_begin_def tx_commit_def or_drop_def insert_record_def
        new_uuid_def Let_def select_no_fault and_then_def unexpected_def map_err_def return_def sql_def)
  then obtain rd a where tx: "a_template a = 5" "a_data a = JObj []"
    "create_in_transaction strict_externs demo_data 5 4 None (demo_stored [] 6) = (Ok rd, demo_stored [a] 7)" by blast
  have "\<exists>x. after_creation strict_externs demo_data (context_of (JObj [])) rd (demo_stored [a] 7) = (Ok x, demo_stored [a] 7)"
    by (simp add: after_creation_def none) (simp add: demo_data_def and_then_def return_def)
  then obtain x where "after_creation strict_externs demo_data (context_of (JObj [])) rd (demo_stored [a] 7) = (Ok x, demo_stored [a] 7)" by blast
  with tx show ?thesis
    by (intro exI [of _ a])
      (simp add: idle_system_def demo_admitted_admin answer_def creation_stages demo_before and_then_def none demo_claims_def return_def)
qed

theorem stored_records_fit_their_templates_witness:
  "\<exists>a s. s = demo_event (Request (demo_request ''Aaaaa'' ''/api/archive/'' ''POST'') (CreateRecord 5 demo_data))
       (demo_event (Request (demo_request ''Aaaaa'' ''/api/admin/template/'' ''POST'') (CreateTemplate demo_album))
       (demo_event (Restart default_task_settings) (idle_system (demo_world [] []))))
     \<and> a \<in> set (records (db (shared s)))
     \<and> (\<exists>t. row_by t_id (a_template a) (templates (db (shared s))) = Some t \<and> x_schema_errors strict_externs (t_schema t) (a_data a) = [])"
proof -
  let ?s = "demo_event (Request (demo_request ''Aaaaa'' ''/api/archive/'' ''POST'') (CreateRecord 5 demo_data))
       (demo_event (Request (demo_request ''Aaaaa'' ''/api/admin/template/'' ''POST'') (CreateTemplate demo_album))
       (demo_event (Restart default_task_settings) (idle_system (demo_world [] []))))"
  obtain a where "?s = idle_system (demo_stored [a] 7)"
    using demo_record_request [of "''/api/archive/''" "''POST''"] unfolding demo_restart demo_template_request by auto
  then have a: "a \<in> set (records (db (shared ?s)))" by (simp add: idle_system_def demo_stored_def demo_started_def)
  have "fresh_tables (db (demo_world [] []))" "schema_cache (demo_world [] []) = (\<lambda>_. None)"
    by (simp_all add: fresh_tables_def demo_world_def empty_db_def)
  from server_reachable.start [OF this] have "server_reachable strict_externs (\<lambda>_. []) 3600 4 (idle_system (demo_world [] []))"
    by (simp add: idle_system_def)
  then have "server_reachable strict_externs (\<lambda>_. []) 3600 4 ?s" by (intro server_reachable.step)
  from stored_records_fit_their_templates [OF this] a show ?thesis by blast
qed

end
