(* ===== verification/Panics.thy ===== *)
theory Panics
  imports Runs
begin

text \<open>
  Which requests and jobs can panic. A panic in the source (\<open>unwrap\<close>, \<open>expect\<close>) is the result \<open>Panic\<close> of the model; the
  lemmas below go through all handlers.
\<close>

section \<open>Programs that do not panic\<close>

named_theorems calm_rules

definition calm :: "('s, 'e, 'a) prog \<Rightarrow> bool" where
  "calm m \<longleftrightarrow> (\<forall>w. fst (m w) \<noteq> Panic)"

lemma calm_return [calm_rules]: "calm (return x)"
  by (simp add: calm_def return_def)

lemma calm_throw [calm_rules]: "calm (throw e)"
  by (simp add: calm_def throw_def)

lemma calm_modify [calm_rules]: "calm (modify f)"
  by (simp add: calm_def modify_def)

lemma calm_and_then [calm_rules]: "calm m \<Longrightarrow> (\<And>x. calm (f x)) \<Longrightarrow> calm (and_then m f)"
  by (auto simp: calm_def and_then_def split: result.splits prod.splits) (metis fst_conv)

lemma calm_attempt [calm_rules]: "calm m \<Longrightarrow> (\<And>x. calm (f x)) \<Longrightarrow> calm (attempt m f)"
  by (auto simp: calm_def attempt_def split: result.splits prod.splits) (metis fst_conv)

lemma calm_if [calm_rules]: "calm m \<Longrightarrow> calm m' \<Longrightarrow> calm (if b then m else m')"
  by simp

lemma calm_case_option [calm_rules]: "calm m \<Longrightarrow> (\<And>x. calm (f x)) \<Longrightarrow> calm (case o' of None \<Rightarrow> m | Some x \<Rightarrow> f x)"
  by (cases o') simp_all

lemma calm_case_sum [calm_rules]: "(\<And>x. calm (f x)) \<Longrightarrow> (\<And>y. calm (g y)) \<Longrightarrow> calm (case s of Inl x \<Rightarrow> f x | Inr y \<Rightarrow> g y)"
  by (cases s) simp_all

lemma calm_case_prod [calm_rules]: "(\<And>x y. calm (f x y)) \<Longrightarrow> calm (case p of (x, y) \<Rightarrow> f x y)"
  by (cases p) simp

lemma calm_sql [calm_rules]: "calm (sql st)"
  using sql_no_panic by (force simp: calm_def prod_eq_iff)

lemma calm_select [calm_rules]: "calm (select q)"
  unfolding select_def by (rule calm_sql)

lemma calm_delete_request: "calm (delete_request ks)"
  using delete_request_no_panic by (force simp: calm_def prod_eq_iff)

lemma calm_slot: "calm try_reserve_slot"
  by (simp add: calm_def try_reserve_slot_def return_def modify_def)

lemma calm_pull: "calm (pull_outbox_tasks batch timeout)"
proof -
  have "calm (pump_rows rows n)" for rows n
    by (induction rows n rule: pump_rows.induct)
      (auto simp: permit_send_def mark_outbox_dead_def intro!: calm_rules calm_slot split: option.splits)
  then show ?thesis
    by (auto simp: pull_outbox_tasks_def reclaim_stale_running_outbox_def pump_outbox_once_def requeue_outbox_rows_def
        intro!: calm_rules)
qed

lemma calm_cleanup: "calm (cleanup_orphan_persistent_objects free age)"
proof -
  have "calm (list_object_keys_with_prefix_older_than pre age)" for pre
    using listing_outcome [of pre age] by (metis calm_def surjective_pairing)
  moreover have "calm (delete_chunks cs rep)" for cs rep
    by (induction cs arbitrary: rep) (auto intro!: calm_rules calm_delete_request)
  ultimately show ?thesis
    by (auto simp: cleanup_orphan_persistent_objects_def remove_orphans_def delete_objects_def delete_objects_with_report_def Let_def
        intro!: calm_rules)
qed

lemma calm_map_err [calm_rules]: "calm m \<Longrightarrow> calm (map_err g m)"
  by (auto simp: calm_def map_err_def split: result.splits prod.splits) (metis fst_conv)

lemma calm_unexpected [calm_rules]: "calm m \<Longrightarrow> calm (unexpected m)"
  unfolding unexpected_def by (rule calm_map_err)

lemma calm_gets [calm_rules]: "calm (gets f)"
  by (simp add: calm_def gets_def)

lemma calm_guard [calm_rules]: "calm (guard b e)"
  by (simp add: calm_def guard_def)

lemma calm_for_each [calm_rules]: "(\<And>x. calm (f x)) \<Longrightarrow> calm (for_each f xs)"
  by (induction xs) (simp_all add: calm_def and_then_def split: result.splits prod.splits, metis fst_conv)

lemma calm_lift: "r \<noteq> Panic \<Longrightarrow> calm (lift_result g r)"
  by (simp add: calm_def lift_result_def split: result.splits)

lemma calm_new_uuid [calm_rules]: "calm new_uuid"
  by (simp add: calm_def new_uuid_def)

lemma calm_redis [calm_rules]: "calm (redis_call f)"
  by (simp add: calm_def redis_call_def split: prod.splits)

lemma calm_s3 [calm_rules]: "calm (s3_call ctx f)"
  by (simp add: calm_def s3_call_def split: prod.splits fault.splits)

lemma calm_valid [calm_rules]: "calm (require_valid f)"
  by (simp add: calm_def require_valid_def split: list.splits)

lemma calm_head [calm_rules]: "calm (get_head_object_output k)"
  by (simp add: calm_def get_head_object_output_def split: prod.splits fault.splits option.splits)

lemma calm_copy [calm_rules]: "calm (copy_source_to_dest k k')"
  by (simp add: calm_def copy_source_to_dest_def split: prod.splits fault.splits option.splits)

lemma calm_links [calm_rules]: "calm (generate_view_url X n k)" "calm (generate_presigned_url X k c l n)" "calm (delete_object k)"
  unfolding generate_view_url_def generate_presigned_url_def delete_object_def by (rule calm_s3)+

lemma calm_object_exists [calm_rules]: "calm (object_exists k)"
  unfolding object_exists_def by (intro calm_rules) (auto split: sum.splits head_error.splits intro: calm_rules)

lemma calm_hash [calm_rules]: "calm (hash_password X p)"
  unfolding hash_password_def by (intro calm_rules)

lemma calm_one_row [calm_rules]: "calm (fetch_one q)"
  unfolding fetch_one_def by (intro calm_rules)

lemma calm_token [calm_rules]: "calm (generate_jwt X e u nm ro)"
  by (simp add: calm_def generate_jwt_def split: option.splits)

section \<open>Handlers that never panic\<close>

lemma calm_check_password [calm_rules]: "calm (validate_user_password X nm p)"
  unfolding validate_user_password_def get_stored_credentials_def verify_password_def Let_def by (intro calm_rules)

lemma calm_login: "calm (login_user_handler X e nm p)"
  unfolding login_user_handler_def by (intro calm_rules)

lemma calm_avatar_link [calm_rules]: "calm (parse_avatar_key_to_url X k)"
  unfolding parse_avatar_key_to_url_def Let_def by (intro calm_rules)

lemma calm_avatar_links [calm_rules]: "calm (view_avatars X us)"
  by (induction us) (auto intro!: calm_rules)

lemma calm_create_user: "calm (create_user_handler X r)"
  unfolding create_user_handler_def store_user_def by (intro calm_rules)

lemma calm_user_status: "calm (modify_user_status_handler uid act c)"
  unfolding modify_user_status_handler_def modify_user_status_def by (intro calm_rules)

lemma calm_query_users: "calm (query_users_handler X q)"
  unfolding query_users_handler_def query_users_def by (intro calm_rules)

lemma calm_admin_password: "calm (admin_change_user_password_handler X uid p)"
  unfolding admin_change_user_password_handler_def admin_change_user_password_def by (intro calm_rules)

lemma calm_delete_account: "calm (admin_delete_user_handler uid c)"
  unfolding admin_delete_user_handler_def delete_user_def by (intro calm_rules)

lemma calm_change_password: "calm (change_password_handler X c raw new)"
  unfolding change_password_handler_def change_user_password_def by (intro calm_rules)

lemma calm_avatar_url: "calm (presigned_avatar_url_handler X r)"
  unfolding presigned_avatar_url_handler_def presigned_avatar_url_def Let_def by (intro calm_rules)

lemma try_from_head_no_panic: "try_from_head X ob \<noteq> Panic"
  by (simp add: try_from_head_def split: option.splits)

lemma calm_update_avatar: "calm (update_avatar_handler X c f)"
  unfolding update_avatar_handler_def store_user_avatar_def save_user_avatar_into_database_def Let_def
  by (intro calm_rules calm_lift try_from_head_no_panic)

lemma calm_me: "calm (get_user_info_handler X c)"
  unfolding get_user_info_handler_def get_user_info_by_id_def by (intro calm_rules)

lemma calm_update_me: "calm (update_user_info_handler X c email phone)"
  unfolding update_user_info_handler_def update_user_info_def by (intro calm_rules)

lemma calm_my_routes: "calm (get_user_effective_routes_handler X c)"
  unfolding get_user_effective_routes_handler_def get_user_effective_routes_def get_effective_rules_for_user_def
    get_registry_routes_def
  by (intro calm_rules)

lemmas calm_accounts = calm_login calm_create_user calm_user_status calm_query_users calm_admin_password
  calm_delete_account calm_change_password calm_avatar_url calm_update_avatar calm_me calm_update_me calm_my_routes

lemma calm_registry: "calm (get_registry_routes_handler X f)"
  unfolding get_registry_routes_handler_def get_registry_routes_def do_filter_with_user_exists_rules_def
    get_effective_rules_for_user_def Let_def
  by (intro calm_rules)

lemma calm_query_rules: "calm (query_user_api_access_rules_handler q)"
  unfolding query_user_api_access_rules_handler_def query_user_api_access_rules_def by (intro calm_rules)

lemma calm_revoke: "calm (revoke_user_api_rule_handler rid)"
  unfolding revoke_user_api_rule_handler_def revoke_user_api_access_rule_def by (intro calm_rules)

lemma calm_grant: "calm (grant_user_api_rule_handler X r c)"
  unfolding grant_user_api_rule_handler_def check_api_rule_validity_def get_registry_routes_def
    grant_user_api_access_rule_def check_api_rule_conflict_def
  by (intro calm_rules)

lemma calm_query_templates: "calm (query_templates_handler q)"
  unfolding query_templates_handler_def query_templates_def by (intro calm_rules)

lemma calm_categories: "calm get_all_template_categories"
  unfolding get_all_template_categories_def by (intro calm_rules)

lemma calm_cache [calm_rules]: "calm (clear_template_cache tid)" "calm (cache_insert tid c)"
  unfolding clear_template_cache_def cache_insert_def by (rule calm_modify)+

lemma calm_any_record [calm_rules]: "calm (check_any_record_exists tid)" "calm (check_template_is_enabled tid)"
  unfolding check_any_record_exists_def check_template_is_enabled_def by (intro calm_rules)+

lemma calm_delete_template: "calm (delete_template_handler tid)"
  unfolding delete_template_handler_def delete_template_def by (intro calm_rules)

lemma calm_template_status: "calm (modify_template_status_handler tid act)"
  unfolding modify_template_status_handler_def modify_template_status_def by (intro calm_rules)

lemma calm_load [calm_rules]: "calm (get_or_load_template_context X tid)"
  unfolding get_or_load_template_context_def from_database_get_template_context_def by (intro calm_rules)

lemma calm_validate [calm_rules]: "calm (validate_instance_by_id X tid v)"
  unfolding validate_instance_by_id_def
  by (intro calm_rules calm_lift) (simp add: validate_instance_def Let_def)

lemma calm_template_info: "calm (get_template_info_handler tid)"
  unfolding get_template_info_handler_def get_template_info_by_id_def by (intro calm_rules)

lemmas calm_administration = calm_registry calm_query_rules calm_revoke calm_grant calm_query_templates calm_categories
  calm_delete_template calm_template_status calm_template_info


text \<open>Records, uploads and searches.\<close>

lemma calm_init_upload: "calm (init_upload_session_handler X c tid)"
  unfolding init_upload_session_handler_def init_upload_session_def redis_set_ex_def by (intro calm_rules)

lemma check_file_validity_no_panic: "check_file_validity cfg f n \<noteq> Panic"
  by (simp add: check_file_validity_def split: option.splits)

lemma calm_upload_url: "calm (presigned_upload_url_handler X r c)"
  unfolding presigned_upload_url_handler_def presigned_upload_url_def try_to_get_field_quota_def deduct_quota_script_def Let_def
  by (intro calm_rules calm_lift check_file_validity_no_panic)

lemma calm_sign [calm_rules]: "calm (sign_files X fs urls)"
  by (induction fs arbitrary: urls) (auto intro!: calm_rules)

lemma calm_enrich [calm_rules]: "calm (enrich_archive_records_with_urls X cfgs rs)"
  unfolding enrich_archive_records_with_urls_def Let_def by (intro calm_rules)

lemma calm_search: "calm (query_archive_records_handler X tid req)"
  unfolding query_archive_records_handler_def query_archive_records_def by (intro calm_rules)

lemma calm_submit [calm_rules]: "calm (submit c)"
  using submit_no_panic by (force simp: calm_def prod_eq_iff)

lemma calm_or_drop [calm_rules]: "calm m \<Longrightarrow> calm (or_drop snap m)"
  by (auto simp: calm_def or_drop_def split: result.splits prod.splits) (metis fst_conv)

lemma calm_transaction [calm_rules]: "calm tx_begin" "calm (tx_commit snap)" "calm (tx_rollback snap)"
  unfolding tx_begin_def by (rule calm_select) (simp_all add: calm_def tx_commit_def tx_rollback_def split: prod.splits)

lemma calm_process_file [calm_rules]: "calm (process_single_file X sid uid fid rid)"
  unfolding process_single_file_def get_file_metadata_def move_temp_file_to_save_def save_file_metadata_def Let_def
  by (intro calm_rules calm_lift try_from_head_no_panic)
    (auto split: sum.splits head_error.splits intro!: calm_rules calm_lift try_from_head_no_panic)

lemma calm_field_files [calm_rules]: "calm (create_field_files X rid sid uid v fc)"
  unfolding create_field_files_def check_required_def
  by (cases fc) (auto split: option.splits json.splits intro!: calm_rules)

lemma calm_copy_or_roll_back [calm_rules]: "calm (copy_or_roll_back X snap rd cfgs sid uid v)"
  unfolding copy_or_roll_back_def copy_files_def check_upload_session_exists_def redis_exists_def create_files_record_def
    submit_cleanup_def Let_def
  by (intro calm_rules)

lemma check_need_file_no_panic: "check_need_file c req \<noteq> Panic"
  by (simp add: check_need_file_def split: option.splits)

lemma calm_create_record: "calm (create_archive_record_handler X tid req c)"
  unfolding create_archive_record_handler_def create_in_transaction_def create_archive_record_def delete_upload_session_def redis_del_def
  by (intro calm_rules calm_lift check_need_file_no_panic)

lemma calm_delete_record: "calm (delete_archive_record_handler tid rid)"
proof -
  have "calm (delete_chunks cs rep)" for cs rep
    by (induction cs arbitrary: rep) (auto intro!: calm_rules calm_delete_request)
  then show ?thesis
    unfolding delete_archive_record_handler_def delete_archive_record_by_id_def delete_files_by_object_keys_def delete_objects_def
      delete_objects_with_report_def
    by (intro calm_rules)
qed

lemmas calm_records = calm_init_upload calm_upload_url calm_search calm_create_record calm_delete_record

section \<open>Where a request can panic\<close>

text \<open>The file definitions of a request make writing them into the schema panic.\<close>

fun bad_file_definitions :: "api_call \<Rightarrow> bool" where
  "bad_file_definitions (CreateTemplate r) \<longleftrightarrow>
     (\<exists>fs. ct_files r = Some fs \<and> define_files fs (schema_def (ct_schema r)) = (Panic :: (app_error, json) result))"
| "bad_file_definitions (UpdateTemplate r) \<longleftrightarrow> updated_schema r = (Panic :: (app_error, json option) result)"
| "bad_file_definitions call \<longleftrightarrow> False"

lemma calm_answer: "calm m \<Longrightarrow> calm (answer f m)"
  unfolding answer_def by (intro calm_rules)

lemma calm_mw: "calm (mw_authentication X req return)"
proof -
  have en: "calm (check_user_enabled c)" for c
    unfolding check_user_enabled_def by (intro calm_rules)
  have ro: "calm (check_user_role u p m)" for u p m
    unfolding check_user_role_def by (intro calm_rules)
  have "calm (and_then (check_user_enabled c) (\<lambda>_.
      and_then (if role c = USER then check_user_role (sub c) (req_path req) (req_method req) else return ()) (\<lambda>_. return c)))" for c
    by (intro calm_rules en ro)
  then show ?thesis
    by (auto simp: calm_def mw_authentication_def throw_def split: option.splits sum.splits)
qed

lemma calm_create_template: "\<not> bad_file_definitions (CreateTemplate r) \<Longrightarrow> calm (create_template_handler X r c)"
  unfolding create_template_handler_def create_template_def
  by (intro calm_rules calm_lift) (auto split: option.splits)

lemma calm_update_template: "\<not> bad_file_definitions (UpdateTemplate r) \<Longrightarrow> calm (update_template_handler X r)"
  unfolding update_template_handler_def update_template_def
  by (intro calm_rules calm_lift) auto

lemma calm_handle_call: "\<not> bad_file_definitions call \<Longrightarrow> calm (handle_call X c call)"
  by (cases call) (simp_all add: calm_answer calm_throw calm_accounts calm_administration calm_records
      calm_create_template calm_update_template)

text \<open>A panic comes before the first write.\<close>

lemma and_then_PanicE:
  assumes "and_then m f s = (Panic, t)"
  obtains "m s = (Panic, t)" | x s' where "m s = (Ok x, s')" "f x s' = (Panic, t)"
  using assms by (auto simp: and_then_def split: result.splits prod.splits)

lemma answer_Panic: "answer f m w = (Panic, w') \<Longrightarrow> m w = (Panic, w')"
  by (auto simp: answer_def return_def elim!: and_then_PanicE)

lemma not_calm: "calm m \<Longrightarrow> m w \<noteq> (Panic, w')"
  by (metis calm_def fst_conv)

lemma create_template_Panic:
  assumes "create_template_handler X r c w = (Panic, w')"
  shows "w' = w"
  using assms unfolding create_template_handler_def
proof (cases rule: and_then_PanicE)
  case 1
  with not_calm [OF calm_valid] show ?thesis by blast
next
  case (2 u w1)
  have "w1 = w" using 2(1) by (auto simp: require_valid_def split: list.splits)
  from 2(2) show ?thesis
  proof (cases rule: and_then_PanicE)
    case 1
    then show ?thesis unfolding create_template_def \<open>w1 = w\<close>
    proof (cases rule: and_then_PanicE)
      case 1
      then show ?thesis by (auto simp: lift_result_def split: result.splits)
    next
      case (2 schema v)
      have "calm (and_then new_uuid (\<lambda>fresh. and_then (unexpected (sql (insert_template fresh r schema (sub c)))) (\<lambda>t. return (template_to_dto t))))"
        by (intro calm_rules)
      from not_calm [OF this] 2(2) show ?thesis by simp
    qed
  qed (simp add: return_def)
qed


lemma keeps_tables: "fault_free_inv (\<lambda>v. db v = d)"
  by (simp add: fault_free_inv_def)

lemma update_template_Panic:
  assumes "update_template_handler X r w = (Panic, w')"
  shows "db w' = db w"
  using assms unfolding update_template_handler_def
proof (cases rule: and_then_PanicE)
  case 1
  with not_calm [OF calm_valid] show ?thesis by blast
next
  case (2 u w1)
  have w1: "w1 = w" using 2(1) by (auto simp: require_valid_def split: list.splits)
  from 2(2) show ?thesis unfolding w1
  proof (cases rule: and_then_PanicE)
    case 1
    with not_calm [OF calm_any_record(1)] show ?thesis by blast
  next
    case (2 there v)
    have "keeps (\<lambda>v. db v = db w) (check_any_record_exists (ut_id r))"
      unfolding check_any_record_exists_def by (intro keeps_rules keeps_select keeps_tables)
    from keepsE [OF this 2(1)] have db: "db v = db w" by simp
    from 2(2) have "update_template r v = (Panic, w')"
      by (auto simp: throw_def return_def split: if_splits elim!: and_then_PanicE)
    then show ?thesis unfolding update_template_def
    proof (cases rule: and_then_PanicE)
      case 1
      then show ?thesis using db by (auto simp: lift_result_def split: result.splits)
    next
      case (2 schema v2)
      have "calm (and_then (unexpected (sql (update_template_row (ut_id r) (apply_update r schema)))) (\<lambda>row. case row of
          None \<Rightarrow> throw (DataNotFound ''template not found'')
        | Some t \<Rightarrow> and_then (clear_template_cache (ut_id r)) (\<lambda>_. return (template_to_dto t))))"
        by (intro calm_rules)
      from not_calm [OF this] 2(2) show ?thesis by simp
    qed
  qed
qed

text \<open>C7: A request panics at one place only: when the file definitions of a template that is created or
  updated cannot be written into its schema, or come without a schema. Every other request, whatever it contains, whatever the
  tables hold and whatever calls fail, is answered; and a request that panics has left the tables unchanged.\<close>

theorem requests_panic_only_in_file_definitions:
  assumes "serve X expiration req call w = (Panic, w')"
  shows "bad_file_definitions call \<and> db w' = db w"
proof (cases "needs_login call")
  case False
  then have "calm (serve X expiration req call)"
    by (cases call) (simp_all add: needs_login_def calm_return calm_answer calm_login)
  from not_calm [OF this] assms show ?thesis by simp
next
  case True
  with assms have "and_then (mw_authentication X req return) (\<lambda>user. handle_call X user call) w = (Panic, w')"
    using mw_then [of X req "\<lambda>user. handle_call X user call"] by (simp add: serve_protected)
  then obtain c w1 where mw: "mw_authentication X req return w = (Ok c, w1)" and h: "handle_call X c call w1 = (Panic, w')"
    using not_calm [OF calm_mw] by (elim and_then_PanicE) auto
  have "db w1 = db w" using keepsE [OF mw_keeps [OF keeps_tables] mw] by simp
  moreover have bad: "bad_file_definitions call" using not_calm [OF calm_handle_call] h by blast
  moreover from bad h have "db w' = db w1"
    by (cases call) (auto dest!: answer_Panic create_template_Panic update_template_Panic)
  ultimately show ?thesis by simp
qed


theorem requests_panic_only_in_file_definitions_witness:
  "\<exists>call w'. serve demo_externs 60 (demo_request ''Aa'' ''/api/admin/template/update'' ''PATCH'') call (demo_templates [demo_template 5 JNull])
      = (Panic, w') \<and> bad_file_definitions call \<and> db w' = db (demo_templates [demo_template 5 JNull])"
proof -
  let ?r = "(demo_update 5 JNull)\<lparr>ut_schema := None, ut_files := Some [demo_file_definition]\<rparr>"
  let ?w = "demo_templates [demo_template 5 JNull]"
  let ?req = "demo_request ''Aa'' ''/api/admin/template/update'' ''PATCH''"
  have "parse_token ?req = Some ''Aa''" by (simp add: parse_token_iff demo_request_def)
  moreover have "check_token demo_externs (clock ?w) ''Aa'' = Inr (demo_claims ADMIN 1)"
    by (simp add: check_token_def demo_externs_def demo_uuid_parse_def)
  moreover have "check_user_enabled (demo_claims ADMIN 1) ?w = (Ok (), ?w)"
    by (simp add: check_user_enabled_def fetch_one_def demo_templates_def demo_world_def empty_db_def demo_claims_def
        and_then_def unexpected_def map_err_def select_no_fault return_def row_by_def demo_user_def)
  moreover have "update_template_handler demo_externs ?r ?w = (Panic, ?w)"
    by (rule update_without_schema_panics)
       (simp_all add: demo_update_def validate_update_template_def option_errors_def demo_templates_def demo_world_def empty_db_def)
  ultimately have "serve demo_externs 60 ?req (UpdateTemplate ?r) ?w = (Panic, ?w)"
    by (simp add: mw_authentication_def and_then_def return_def answer_def demo_claims_def)
  then show ?thesis using requests_panic_only_in_file_definitions by blast
qed


end
