(* ===== verification/Manager.thy ===== *)
theory Manager
  imports Panics
begin

text \<open>
  \<open>tasks/manager.rs\<close>: the tasks of a server process. The command worker and the interval tasks are loops
  around \<open>tokio::select!\<close>; a branch of a loop that is ready may be taken, whichever else is ready, and one event of
  the machine below is one branch taken. All loops listen to one \<open>watch\<close> channel, by which \<open>shutdown\<close> stops them;
  it waits 30 seconds for each task and then aborts it.

  Instants are nanoseconds of the monotonic clock. A job of a timer runs in one event; what its calls
  to the services do in between is in the faults. An abort is taken between two events.
\<close>

section \<open>The interval tasks\<close>

text \<open>What the interval tasks of \<open>startup.rs\<close> do; \<open>free\<close> is the answer of the advisory lock of the cleanup.\<close>

datatype job = PullOutbox nat duration | CleanupOrphans duration

fun run_job :: "bool \<Rightarrow> job \<Rightarrow> (world, anyhow, unit) prog" where
  "run_job free (PullOutbox batch timeout) = pull_outbox_tasks batch timeout"
| "run_job free (CleanupOrphans age) = cleanup_orphan_persistent_objects free age"

datatype loop_state = Starting | Looping | Ended | Panicked | Aborted

text \<open>
  A spawned interval task: its ticker with the instant of the next tick and what it does about missed ones, and the
  instants its job was run at.
\<close>

datatype missed_tick = Burst | Delay | Skip

record timer =
  tm_job :: job
  tm_period :: duration
  tm_next :: nat
  tm_missed :: missed_tick
  tm_state :: loop_state
  tm_runs :: "nat list"

text \<open>
  \<open>add_interval_task\<close> and \<open>add_quiet_interval_task\<close>, which differ in a log line. \<open>time::interval\<close> panics for
  the period zero; its first tick is due at once. A ticker is made with \<open>Burst\<close>, \<open>set_missed_tick_behavior\<close> sets \<open>Skip\<close>.
\<close>

definition add_interval_task :: "job \<Rightarrow> duration \<Rightarrow> nat \<Rightarrow> timer list \<Rightarrow> timer list" where
  "add_interval_task j period now ts =
     ts @ [\<lparr>tm_job = j, tm_period = period, tm_next = now, tm_missed = Skip,
            tm_state = (if period = 0 then Panicked else Starting), tm_runs = []\<rparr>]"

text \<open>
  A tick that is due at \<open>d\<close> and taken at \<open>now\<close> sets the next one to \<open>due b d now p\<close>, which the runtime library
  chooses. Its documentation: a tick in time is followed by one a period later; after a missed one \<open>Burst\<close> stays a
  period behind it, \<open>Delay\<close> waits a period from now, and \<open>Skip\<close> takes the next point after now on the grid of the old
  ticks. How late a tick still counts as in time is \<open>tol\<close>: nothing by the documentation, 5 milliseconds in the library.
\<close>

type_synonym ticker = "missed_tick \<Rightarrow> nat \<Rightarrow> nat \<Rightarrow> duration \<Rightarrow> nat"

definition on_schedule :: "nat \<Rightarrow> ticker \<Rightarrow> bool" where
  "on_schedule tol due \<longleftrightarrow> (\<forall>d now p. 0 < p \<longrightarrow> d \<le> now \<longrightarrow>
     (if now \<le> d + tol then \<forall>b. due b d now p = d + p
      else due Burst d now p = d + p \<and> due Delay d now p = now + p
         \<and> (\<exists>k. due Skip d now p = d + k * p) \<and> now < due Skip d now p \<and> due Skip d now p \<le> now + p))"

text \<open>The tick before the loop, the two branches of its \<open>select!\<close>, and the end by \<open>abort\<close>. An error of the job is logged.\<close>

definition first_tick :: "ticker \<Rightarrow> nat \<Rightarrow> timer \<Rightarrow> timer" where
  "first_tick due now t =
     (if tm_state t = Starting \<and> tm_next t \<le> now
      then t\<lparr>tm_state := Looping, tm_next := due (tm_missed t) (tm_next t) now (tm_period t)\<rparr> else t)"

definition tick_due :: "nat \<Rightarrow> timer \<Rightarrow> bool" where
  "tick_due now t \<longleftrightarrow> tm_state t = Looping \<and> tm_next t \<le> now"

definition tick :: "ticker \<Rightarrow> bool \<Rightarrow> nat \<Rightarrow> world \<Rightarrow> timer \<Rightarrow> timer" where
  "tick due free now w t =
     (if tick_due now t
      then t\<lparr>tm_next := due (tm_missed t) (tm_next t) now (tm_period t), tm_runs := tm_runs t @ [now],
             tm_state := (if fst (run_job free (tm_job t) w) = Panic then Panicked else Looping)\<rparr>
      else t)"

text \<open>
  \<open>stop_rx.changed()\<close> is ready when the value was set or the sender is gone; only the value ends the loop.
\<close>

definition stop_ready :: "bool \<Rightarrow> bool \<Rightarrow> bool" where
  "stop_ready v kept \<longleftrightarrow> v \<or> \<not> kept"

definition stop_branch :: "bool \<Rightarrow> bool \<Rightarrow> timer \<Rightarrow> timer" where
  "stop_branch v kept t =
     (if tm_state t = Looping \<and> stop_ready v kept then (if v then t\<lparr>tm_state := Ended\<rparr> else t) else t)"

definition abort_timer :: "timer \<Rightarrow> timer" where
  "abort_timer t = (if tm_state t = Starting \<or> tm_state t = Looping then t\<lparr>tm_state := Aborted\<rparr> else t)"

section \<open>The process\<close>

text \<open>
  \<open>worker_limit\<close> is the concurrency of the command worker, \<open>None\<close> if there is none; \<open>worker_over\<close> says that its
  loop was left. \<open>stop_value\<close> and \<open>stop_held\<close> are the value in the \<open>watch\<close> channel and whether the sender exists.
\<close>

record manager =
  tasks :: task_system
  timers :: "timer list"
  worker_limit :: "nat option"
  worker_over :: bool
  stop_value :: bool
  stop_held :: bool
  instant :: nat

definition limit :: "manager \<Rightarrow> nat" where
  "limit g = (case worker_limit g of None \<Rightarrow> 0 | Some m \<Rightarrow> m)"

definition working :: "manager \<Rightarrow> bool" where
  "working g \<longleftrightarrow> worker_limit g \<noteq> None \<and> \<not> worker_over g"

text \<open>\<open>register_periodic_tasks\<close> adds the cleanup after the pull that \<open>setup_task_runtime\<close> added for a worker.\<close>

definition from_millis :: "nat \<Rightarrow> duration" where
  "from_millis n = n * 1000000"

definition register_periodic_tasks :: "task_settings \<Rightarrow> duration \<Rightarrow> nat \<Rightarrow> timer list \<Rightarrow> timer list" where
  "register_periodic_tasks s age now ts =
     add_interval_task (CleanupOrphans age) (from_secs (unat (orphan_cleanup_interval_seconds s))) now ts"

definition started_timers :: "task_settings \<Rightarrow> task_runtime \<Rightarrow> nat \<Rightarrow> timer list" where
  "started_timers s rt now =
     register_periodic_tasks s (rt_cleanup_age rt) now
       (case rt_pull rt of
          None \<Rightarrow> []
        | Some (batch, timeout) \<Rightarrow>
            add_interval_task (PullOutbox batch timeout) (from_millis (unat (outbox_pull_interval_millis s))) now [])"

text \<open>A process that takes over the tables and the objects a previous one left, if its start succeeds.\<close>

definition start_process :: "externs \<Rightarrow> (uuid \<Rightarrow> string) \<Rightarrow> task_settings \<Rightarrow> nat \<Rightarrow> task_system \<Rightarrow> manager option" where
  "start_process X simple s now old =
     (case application_build X simple s (shared (step 0 Crash old)) of
        (Ok (login, rt), w) \<Rightarrow>
          Some \<lparr>tasks = \<lparr>shared = w, in_flight = [], stopping = False\<rparr>,
                timers = started_timers (sanitize_task_settings s) rt now,
                worker_limit = rt_workers rt, worker_over = False, stop_value = False, stop_held = True, instant = now\<rparr>
      | _ \<Rightarrow> None)"


text \<open>
  The events of the process. \<open>Pass n d\<close> lets the monotonic clock go on by \<open>n\<close> and the system clock by \<open>d\<close>. The worker
  takes a task, a running command changes the bucket, a command ends; the worker sees the stop signal, and returns
  when it is stopping and no command runs, which drops the channel with what is in it.
\<close>

datatype manager_event =
    Pass nat nat
  | ServiceOutage "fault list"
  | Arrival http_request api_call
  | FirstTick nat
  | Tick nat bool
  | StopSeen nat
  | WorkerTakes
  | WorkerProgress "(string \<times> s3_object) list" nat
  | WorkerDone nat "command_error + unit"
  | WorkerStops
  | WorkerReturns
  | SendStop
  | DropManager
  | AbortTimer nat
  | AbortWorker

definition at_timer :: "nat \<Rightarrow> (timer \<Rightarrow> timer) \<Rightarrow> manager \<Rightarrow> manager" where
  "at_timer k f g = (if k < length (timers g) then g\<lparr>timers := (timers g)[k := f (timers g ! k)]\<rparr> else g)"

text \<open>The end of the worker task drops the receiver and the running commands.\<close>

definition end_worker :: "manager \<Rightarrow> manager" where
  "end_worker g =
     g\<lparr>tasks := \<lparr>shared = (shared (tasks g))\<lparr>queue := [], queue_closed := True\<rparr>, in_flight = [], stopping = True\<rparr>,
       worker_over := True\<rparr>"

definition tick_timer :: "ticker \<Rightarrow> nat \<Rightarrow> bool \<Rightarrow> manager \<Rightarrow> manager" where
  "tick_timer due k free g =
     (if k < length (timers g) \<and> tick_due (instant g) (timers g ! k)
      then g\<lparr>timers := (timers g)[k := tick due free (instant g) (shared (tasks g)) (timers g ! k)],
             tasks := (tasks g)\<lparr>shared := snd (run_job free (tm_job (timers g ! k)) (shared (tasks g)))\<rparr>\<rparr>
      else g)"

fun process_step :: "externs \<Rightarrow> 64 word \<Rightarrow> ticker \<Rightarrow> manager_event \<Rightarrow> manager \<Rightarrow> manager" where
  "process_step X expiration due (Pass n d) g =
     g\<lparr>instant := instant g + n,
       tasks := (tasks g)\<lparr>shared := (shared (tasks g))\<lparr>clock := clock (shared (tasks g)) + int d\<rparr>\<rparr>\<rparr>"
| "process_step X expiration due (ServiceOutage fs) g =
     g\<lparr>tasks := (tasks g)\<lparr>shared := (shared (tasks g))\<lparr>faults := fs\<rparr>\<rparr>\<rparr>"
| "process_step X expiration due (Arrival req call) g =
     g\<lparr>tasks := (tasks g)\<lparr>shared := snd (serve X expiration req call (shared (tasks g)))\<rparr>\<rparr>"
| "process_step X expiration due (FirstTick k) g = at_timer k (first_tick due (instant g)) g"
| "process_step X expiration due (Tick k free) g = tick_timer due k free g"
| "process_step X expiration due (StopSeen k) g = at_timer k (stop_branch (stop_value g) (stop_held g)) g"
| "process_step X expiration due WorkerTakes g =
     (if working g then g\<lparr>tasks := receive (limit g) (tasks g)\<rparr> else g)"
| "process_step X expiration due (WorkerProgress b d) g =
     (if working g \<and> in_flight (tasks g) \<noteq> []
      then g\<lparr>tasks := step (limit g) (Work b d) (tasks g)\<rparr> else g)"
| "process_step X expiration due (WorkerDone k res) g =
     (if working g then g\<lparr>tasks := settle k res (tasks g)\<rparr> else g)"
| "process_step X expiration due WorkerStops g =
     (if working g \<and> stop_ready (stop_value g) (stop_held g) then g\<lparr>tasks := (tasks g)\<lparr>stopping := True\<rparr>\<rparr> else g)"
| "process_step X expiration due WorkerReturns g =
     (if working g \<and> stopping (tasks g) \<and> in_flight (tasks g) = [] then end_worker g else g)"
| "process_step X expiration due SendStop g = (if stop_held g then g\<lparr>stop_value := True\<rparr> else g)"
| "process_step X expiration due DropManager g = g\<lparr>stop_held := False\<rparr>"
| "process_step X expiration due (AbortTimer k) g = (if stop_value g then at_timer k abort_timer g else g)"
| "process_step X expiration due AbortWorker g = (if stop_value g \<and> working g then end_worker g else g)"

section \<open>The process is a run of the server\<close>

text \<open>The events of the server (theory Runs) that an event of the process stands for.\<close>

fun server_events :: "manager_event \<Rightarrow> manager \<Rightarrow> server_event list" where
  "server_events (Pass n d) g = [Task (Work (bucket (shared (tasks g))) d)]"
| "server_events (ServiceOutage fs) g = [Task (Outage fs)]"
| "server_events (Arrival req call) g = [Request req call]"
| "server_events (Tick k free) g =
     (if k < length (timers g) \<and> tick_due (instant g) (timers g ! k)
      then (case tm_job (timers g ! k) of
              PullOutbox batch timeout \<Rightarrow> [Task (Pull batch timeout)]
            | CleanupOrphans age \<Rightarrow> [CleanupRun free age])
      else [])"
| "server_events WorkerTakes g = (if working g then [Task Receive] else [])"
| "server_events (WorkerProgress b d) g = (if working g \<and> in_flight (tasks g) \<noteq> [] then [Task (Work b d)] else [])"
| "server_events (WorkerDone k res) g = (if working g then [Task (Settle k res)] else [])"
| "server_events WorkerStops g = (if working g \<and> stop_ready (stop_value g) (stop_held g) then [Task Stop] else [])"
| "server_events WorkerReturns g =
     (if working g \<and> stopping (tasks g) \<and> in_flight (tasks g) = [] then [Task Crash, Task CloseChannel, Task Stop] else [])"
| "server_events AbortWorker g = (if stop_value g \<and> working g then [Task Crash, Task CloseChannel, Task Stop] else [])"
| "server_events e g = []"

lemma at_timer_fields [simp]:
  "tasks (at_timer k f g) = tasks g" "worker_limit (at_timer k f g) = worker_limit g" "worker_over (at_timer k f g) = worker_over g"
  "stop_value (at_timer k f g) = stop_value g" "stop_held (at_timer k f g) = stop_held g" "instant (at_timer k f g) = instant g"
  by (simp_all add: at_timer_def)

lemma limit_process_step [simp]: "worker_limit (process_step X expiration due e g) = worker_limit g"
  by (cases e) (simp_all add: tick_timer_def end_worker_def)

lemma process_step_simulates:
  "tasks (process_step X expiration due e g)
     = fold (server_step X simple expiration (limit g)) (server_events e g) (tasks g)"
proof (cases e)
  case (Tick k free)
  then show ?thesis
    by (cases "tm_job (timers g ! k)") (simp_all add: tick_timer_def)
qed (simp_all add: end_worker_def)

fun run_server_events :: "externs \<Rightarrow> 64 word \<Rightarrow> ticker \<Rightarrow> manager_event list \<Rightarrow> manager \<Rightarrow> server_event list" where
  "run_server_events X expiration due [] g = []"
| "run_server_events X expiration due (e # es) g =
     server_events e g @ run_server_events X expiration due es (process_step X expiration due e g)"

lemma limit_cong: "worker_limit g = worker_limit g' \<Longrightarrow> limit g = limit g'"
  by (simp add: limit_def)

lemma process_run_simulates:
  "tasks (fold (process_step X expiration due) es g)
     = fold (server_step X simple expiration (limit g)) (run_server_events X expiration due es g) (tasks g)"
proof (induction es arbitrary: g)
  case (Cons e es)
  have "limit (process_step X expiration due e g) = limit g" by (rule limit_cong) simp
  with Cons.IH [of "process_step X expiration due e g"] show ?case
    by (simp add: process_step_simulates [where simple = simple])
qed simp


lemma start_processD:
  assumes "start_process X simple s now old = Some g"
  obtains login rt w where "application_build X simple s (shared (step 0 Crash old)) = (Ok (login, rt), w)"
    "g = \<lparr>tasks = \<lparr>shared = w, in_flight = [], stopping = False\<rparr>, timers = started_timers (sanitize_task_settings s) rt now,
           worker_limit = rt_workers rt, worker_over = False, stop_value = False, stop_held = True, instant = now\<rparr>"
  using assms by (auto simp: start_process_def split: prod.splits result.splits)

lemma started_is_restarted:
  assumes "start_process X simple s now old = Some g"
  shows "tasks g = server_step X simple expiration m (Restart s) old"
  using assms by (rule start_processD) (simp add: Let_def)

text \<open>C4: A server process with its timers, its worker, its stop signal and its aborts is a run of the server: whatever happens
  in it, its state is reached from the state the previous process left by a restart with the same settings and a sequence of
  requests, task events and cleanups. So the tables stay consistent over any number of processes.\<close>

theorem process_refines_server:
  assumes "start_process X simple s now old = Some g0" and "g = fold (process_step X expiration due) es g0"
  shows "(\<exists>evs. tasks g = fold (server_step X simple expiration (limit g0)) (Restart s # evs) old)
    \<and> (tables_ok (db (shared old)) \<longrightarrow> tables_ok (db (shared (tasks g))))"
proof -
  have run: "tasks g = fold (server_step X simple expiration (limit g0)) (Restart s # run_server_events X expiration due es g0) old"
    using started_is_restarted [OF assms(1), of expiration "limit g0"] assms(2)
    by (simp add: process_run_simulates [where simple = simple])
  moreover have "tables_ok (db (shared (tasks g)))" if "tables_ok (db (shared old))"
    unfolding run using that by (rule tables.run_keeps [OF TrueI])
  ultimately show ?thesis by blast
qed

section \<open>The timers\<close>

text \<open>The number of the period an instant lies in, counted from \<open>start\<close>.\<close>

definition period_of :: "nat \<Rightarrow> duration \<Rightarrow> nat \<Rightarrow> nat" where
  "period_of start p r = (r - start) div p"

definition one_run_per_period :: "nat \<Rightarrow> timer \<Rightarrow> bool" where
  "one_run_per_period start t \<longleftrightarrow> sorted_wrt (<) (map (period_of start (tm_period t)) (tm_runs t))"

text \<open>
  What holds of a timer added at \<open>start\<close>: its period is positive, every run so far was due, the next one is on the grid,
  not before one more period and not more than a period away; if the period is longer than the tolerance, the runs lie in
  different periods, all before that of the next tick. Without a stop the loop is alive.
\<close>

definition timer_ok :: "nat \<Rightarrow> nat \<Rightarrow> nat \<Rightarrow> bool \<Rightarrow> timer \<Rightarrow> bool" where
  "timer_ok tol start now v t \<longleftrightarrow> 0 < tm_period t \<and> tm_missed t = Skip
     \<and> (\<forall>i<length (tm_runs t). start + Suc i * tm_period t \<le> tm_runs t ! i)
     \<and> (tm_state t = Starting \<longrightarrow> tm_next t = start \<and> start \<le> now \<and> tm_runs t = [])
     \<and> (tm_state t = Looping \<longrightarrow> start + Suc (length (tm_runs t)) * tm_period t \<le> tm_next t \<and> tm_next t \<le> now + tm_period t)
     \<and> (tol < tm_period t \<longrightarrow> one_run_per_period start t)
     \<and> (tm_state t = Looping \<longrightarrow> (\<exists>k. tm_next t = start + k * tm_period t
           \<and> (tol < tm_period t \<longrightarrow> (\<forall>r\<in>set (tm_runs t). period_of start (tm_period t) r < k))))
     \<and> tm_state t \<noteq> Panicked \<and> (\<not> v \<longrightarrow> tm_state t = Starting \<or> tm_state t = Looping)"

lemma next_due:
  assumes "on_schedule tol due" and "0 < p" and "d \<le> now"
  obtains k where "due Skip d now p = d + Suc k * p" "due Skip d now p \<le> now + p"
    "tol < p \<Longrightarrow> now < due Skip d now p"
proof (cases "now \<le> d + tol")
  case True
  with assms have "due Skip d now p = d + p" by (simp add: on_schedule_def)
  with True assms(3) show thesis by (intro that [of 0]) auto
next
  case False
  with assms have ex: "\<exists>k. due Skip d now p = d + k * p" and le: "now < due Skip d now p" "due Skip d now p \<le> now + p"
    by (auto simp: on_schedule_def)
  from ex obtain k where k: "due Skip d now p = d + k * p" by blast
  with le assms(3) obtain j where "k = Suc j" by (cases k) auto
  with k le show thesis by (intro that [of j]) simp_all
qed

lemma period_of_less: "0 < p \<Longrightarrow> start \<le> r \<Longrightarrow> r < start + k * p \<Longrightarrow> period_of start p r < k"
  by (simp add: period_of_def less_mult_imp_div_less)

lemma period_of_ge: "0 < p \<Longrightarrow> start + k * p \<le> r \<Longrightarrow> k \<le> period_of start p r"
  by (simp add: period_of_def less_eq_div_iff_mult_less_eq)

lemma calm_job: "fst (run_job free j w) \<noteq> Panic"
  using calm_pull calm_cleanup by (cases j) (auto simp: calm_def)

lemma ok_first_tick:
  assumes "on_schedule tol due" and ok: "timer_ok tol start now v t"
  shows "timer_ok tol start now v (first_tick due now t)"
proof (cases "tm_state t = Starting \<and> tm_next t \<le> now")
  case True
  with ok have p: "0 < tm_period t" and t: "tm_missed t = Skip" "tm_next t = start" "tm_runs t = []" "start \<le> now"
    by (auto simp: timer_ok_def)
  obtain k where "due Skip start now (tm_period t) = start + Suc k * tm_period t" "due Skip start now (tm_period t) \<le> now + tm_period t"
    using next_due [OF assms(1) p t(4)] by blast
  then show ?thesis using True ok t
    by (auto simp: first_tick_def timer_ok_def one_run_per_period_def intro!: exI [of _ "Suc k"])
qed (use ok in \<open>auto simp: first_tick_def\<close>)

lemma ok_tick:
  assumes "on_schedule tol due" and ok: "timer_ok tol start now v t"
  shows "timer_ok tol start now v (tick due free now w t)"
proof (cases "tick_due now t")
  case True
  let ?p = "tm_period t" and ?n = "length (tm_runs t)"
  from True have L: "tm_state t = Looping" "tm_next t \<le> now" by (auto simp: tick_due_def)
  with ok have t: "0 < ?p" "tm_missed t = Skip" "start + Suc ?n * ?p \<le> tm_next t" by (auto simp: timer_ok_def)
  from ok L(1) obtain j where j: "tm_next t = start + j * ?p"
    and before: "tol < ?p \<Longrightarrow> \<forall>r\<in>set (tm_runs t). period_of start ?p r < j" unfolding timer_ok_def by blast
  obtain k where k: "due Skip (tm_next t) now ?p = tm_next t + Suc k * ?p" "due Skip (tm_next t) now ?p \<le> now + ?p"
    and late: "tol < ?p \<Longrightarrow> now < due Skip (tm_next t) now ?p" using next_due [OF assms(1) t(1) L(2)] by blast
  let ?t = "tick due free now w t"
  have nxt: "due Skip (tm_next t) now ?p = start + (j + Suc k) * ?p"
    unfolding k(1) unfolding j by (simp add: algebra_simps)
  have T: "tm_period ?t = ?p" "tm_missed ?t = Skip" "tm_runs ?t = tm_runs t @ [now]" "tm_state ?t = Looping"
      "tm_next ?t = start + (j + Suc k) * ?p"
    using True t(2) calm_job [of free "tm_job t" w] by (simp_all add: tick_def nxt)
  have here: "period_of start ?p r < j" "j \<le> period_of start ?p now" if "tol < ?p" "r \<in> set (tm_runs t)" for r
    using before that L(2) j t(1) by (simp_all add: period_of_ge)
  have now: "period_of start ?p now < j + Suc k" if "tol < ?p"
    using late [OF that] k(1) j t L(2) by (intro period_of_less) (simp_all add: algebra_simps)
  have "one_run_per_period start ?t" if "tol < ?p"
  proof -
    have "one_run_per_period start t" using ok that by (simp add: timer_ok_def)
    then show ?thesis using here [OF that] by (fastforce simp: one_run_per_period_def T sorted_wrt_append)
  qed
  moreover have "\<forall>r\<in>set (tm_runs ?t). period_of start ?p r < j + Suc k" if "tol < ?p"
    using here(1) [OF that] now [OF that] by (fastforce simp: T)
  moreover have "start + Suc (Suc ?n) * ?p \<le> tm_next ?t" "tm_next ?t \<le> now + ?p"
    using t(3) k j by (simp_all add: T(5) algebra_simps)
  moreover have "\<forall>i<length (tm_runs ?t). start + Suc i * ?p \<le> tm_runs ?t ! i"
    using ok t(3) L(2) by (auto simp: T timer_ok_def nth_append less_Suc_eq)
  ultimately show ?thesis unfolding timer_ok_def using t(1) T
    by (intro conjI impI exI [of _ "j + Suc k"]) (simp_all add: T(5))
qed (use ok in \<open>simp add: tick_def\<close>)

lemma ok_stop_branch: "timer_ok tol start now v t \<Longrightarrow> timer_ok tol start now v (stop_branch v kept t)"
  by (auto simp: stop_branch_def timer_ok_def one_run_per_period_def)

lemma ok_abort: "timer_ok tol start now True t \<Longrightarrow> timer_ok tol start now True (abort_timer t)"
  by (auto simp: abort_timer_def timer_ok_def one_run_per_period_def)

lemma ok_stopped: "timer_ok tol start now v t \<Longrightarrow> timer_ok tol start now True t"
  by (auto simp: timer_ok_def)

lemma ok_later: "timer_ok tol start now v t \<Longrightarrow> timer_ok tol start (now + n) v t"
  by (auto simp: timer_ok_def)

definition timers_ok :: "nat \<Rightarrow> nat \<Rightarrow> manager \<Rightarrow> bool" where
  "timers_ok tol start g \<longleftrightarrow> list_all (timer_ok tol start (instant g) (stop_value g)) (timers g)"

lemma list_all_update: "list_all P xs \<Longrightarrow> (k < length xs \<Longrightarrow> P (xs ! k) \<Longrightarrow> P y) \<Longrightarrow> list_all P (xs[k := y])"
  by (cases "k < length xs") (auto simp: list_all_length nth_list_update)

lemma timers_ok_at: "timers_ok tol start g
    \<Longrightarrow> (\<And>t. timer_ok tol start (instant g) (stop_value g) t \<Longrightarrow> timer_ok tol start (instant g) (stop_value g) (f t))
    \<Longrightarrow> timers_ok tol start (at_timer k f g)"
  unfolding timers_ok_def at_timer_def by (simp add: list_all_update)

lemma timers_ok_step:
  assumes grid: "on_schedule tol due" and ok: "timers_ok tol start g"
  shows "timers_ok tol start (process_step X expiration due e g)"
proof (cases e)
  case (Pass n d)
  then show ?thesis using ok by (auto simp: timers_ok_def list_all_length intro: ok_later)
next
  case (FirstTick k)
  then show ?thesis using ok by (simp add: timers_ok_at ok_first_tick [OF grid])
next
  case (Tick k free)
  then show ?thesis using ok by (simp add: tick_timer_def timers_ok_def list_all_update ok_tick [OF grid])
next
  case (StopSeen k)
  then show ?thesis using ok by (simp add: timers_ok_at ok_stop_branch)
next
  case SendStop
  then show ?thesis using ok by (auto simp: timers_ok_def list_all_length intro: ok_stopped)
next
  case (AbortTimer k)
  then show ?thesis using ok by (auto intro!: timers_ok_at ok_abort)
qed (use ok in \<open>auto simp: timers_ok_def end_worker_def\<close>)

lemma timers_ok_run: "on_schedule tol due \<Longrightarrow> timers_ok tol start g
    \<Longrightarrow> timers_ok tol start (fold (process_step X expiration due) es g)"
  by (induction es arbitrary: g) (simp_all add: timers_ok_step)


text \<open>The jobs a configuration asks for, and their periods.\<close>

definition configured_jobs :: "task_settings \<Rightarrow> (job \<times> duration) list" where
  "configured_jobs s =
     (if command_worker_enabled s
      then [(PullOutbox (unat (outbox_pull_batch_size s)) (from_secs (unat (outbox_running_timeout_seconds s))),
             from_millis (unat (outbox_pull_interval_millis s)))]
      else [])
     @ [(CleanupOrphans (from_secs (unat (orphan_cleanup_min_age_seconds s))), from_secs (unat (orphan_cleanup_interval_seconds s)))]"

definition plan :: "timer \<Rightarrow> job \<times> duration" where
  "plan t = (tm_job t, tm_period t)"

lemma plan_steps [simp]:
  "plan (first_tick due now t) = plan t" "plan (tick due free now w t) = plan t" "plan (stop_branch v kept t) = plan t"
  "plan (abort_timer t) = plan t"
  by (simp_all add: plan_def first_tick_def tick_def stop_branch_def abort_timer_def)

lemma map_same_update: "f y = f (xs ! k) \<Longrightarrow> map f (xs[k := y]) = map f xs"
  by (cases "k < length xs") (simp_all add: map_update list_update_same_conv list_update_beyond)

lemma plans_at: "(\<And>t. plan (f t) = plan t) \<Longrightarrow> map plan (timers (at_timer k f g)) = map plan (timers g)"
  by (simp add: at_timer_def map_same_update)

lemma plans_step: "map plan (timers (process_step X expiration due e g)) = map plan (timers g)"
  by (cases e) (simp_all add: tick_timer_def end_worker_def plans_at map_same_update)

lemma plans_run: "map plan (timers (fold (process_step X expiration due) es g)) = map plan (timers g)"
  by (induction es arbitrary: g) (simp_all add: plans_step)

lemma setup_runtime_jobs:
  assumes "setup_task_runtime s w = ((Ok rt :: ('e, _) result), w')"
  shows "rt_cleanup_age rt = from_secs (unat (orphan_cleanup_min_age_seconds s))"
    "rt_pull rt = (if command_worker_enabled s
      then Some (unat (outbox_pull_batch_size s), from_secs (unat (outbox_running_timeout_seconds s))) else None)"
    "rt_workers rt = (if command_worker_enabled s then Some (max 1 (unat (command_worker_concurrency s))) else None)"
  using assms
  by (auto simp: setup_task_runtime_def Let_def return_def attempt_def modify_def split: if_splits result.splits prod.splits
      elim!: and_then_OkE)

lemma build_runtime:
  assumes "application_build X simple s w = (Ok (login, rt), w')"
  obtains v v' where "setup_task_runtime (sanitize_task_settings s) v = ((Ok rt :: (anyhow, _) result), v')"
proof -
  from assms obtain l rt' v v' where run: "setup_task_runtime (sanitize_task_settings s) v = ((Ok rt' :: (anyhow, _) result), v')"
    and "return (l, rt') v' = ((Ok (login, rt) :: (anyhow, _) result), w')"
    unfolding application_build_def by (elim and_then_OkE) (rule that)
  then have "rt' = rt" by (simp add: return_def)
  with run show thesis by (intro that) simp
qed

lemma started_manager:
  assumes "start_process X simple s now old = Some g"
  shows "map plan (timers g) = configured_jobs (sanitize_task_settings s)" "timers_ok tol now g" "\<not> stop_value g" "stop_held g"
    "worker_limit g = (if command_worker_enabled s
       then Some (max 1 (unat (command_worker_concurrency (sanitize_task_settings s)))) else None)"
    "\<not> worker_over g" "in_flight (tasks g) = []"
proof -
  let ?s = "sanitize_task_settings s"
  obtain login rt w where build: "application_build X simple s (shared (step 0 Crash old)) = (Ok (login, rt), w)"
    and g: "g = \<lparr>tasks = \<lparr>shared = w, in_flight = [], stopping = False\<rparr>, timers = started_timers ?s rt now,
           worker_limit = rt_workers rt, worker_over = False, stop_value = False, stop_held = True, instant = now\<rparr>"
    using assms by (rule start_processD)
  obtain v v' where "setup_task_runtime ?s v = ((Ok rt :: (anyhow, _) result), v')" using build by (rule build_runtime)
  note R = setup_runtime_jobs [OF this]
  have pos: "orphan_cleanup_interval_seconds ?s \<noteq> 0" "outbox_pull_interval_millis ?s \<noteq> 0"
    and on: "command_worker_enabled ?s = command_worker_enabled s"
    by (simp_all add: sanitize_task_settings_def or_default_def default_task_settings_def)
  from pos have "0 < from_secs (unat (orphan_cleanup_interval_seconds ?s))" "0 < from_millis (unat (outbox_pull_interval_millis ?s))"
    by (simp_all add: from_secs_def from_millis_def unat_gt_0)
  then show "map plan (timers g) = configured_jobs ?s" "timers_ok tol now g"
    by (simp_all add: g started_timers_def register_periodic_tasks_def add_interval_task_def R plan_def configured_jobs_def
        timers_ok_def timer_ok_def one_run_per_period_def)
  show "\<not> stop_value g" "stop_held g" "\<not> worker_over g" "in_flight (tasks g) = []"
    "worker_limit g = (if command_worker_enabled s then Some (max 1 (unat (command_worker_concurrency ?s))) else None)"
    by (simp_all add: g R on)
qed



definition demo_due :: ticker where
  "demo_due b d now p =
     (if now \<le> d + 5000000 \<or> b = Burst then d + p else if b = Delay then now + p else d + ((now - d) div p + 1) * p)"

lemma demo_due_on_schedule: "on_schedule 5000000 demo_due"
  unfolding on_schedule_def
proof (intro allI impI)
  fix d now p :: nat assume that: "0 < p" "d \<le> now"
  let ?q = "(now - d) div p * p"
  have skip: "demo_due Skip d now p = d + ((now - d) div p + 1) * p" if "\<not> now \<le> d + 5000000"
    using that by (simp add: demo_due_def)
  have "?q \<le> now - d" "now - d < p + ?q"
    using that dividend_less_div_times [of p "now - d"] by simp_all
  then have "now < d + (p + ?q)" "d + (p + ?q) \<le> now + p" using that by linarith+
  then have "now < d + ((now - d) div p + 1) * p" "d + ((now - d) div p + 1) * p \<le> now + p" by simp_all
  then obtain k where "\<not> now \<le> d + 5000000 \<Longrightarrow> demo_due Skip d now p = d + k * p" "now < d + k * p" "d + k * p \<le> now + p"
    using skip by blast
  moreover have "demo_due Burst d now p = d + p" "\<not> now \<le> d + 5000000 \<Longrightarrow> demo_due Delay d now p = now + p"
    by (simp_all add: demo_due_def)
  ultimately show "if now \<le> d + 5000000 then \<forall>b. demo_due b d now p = d + p
      else demo_due Burst d now p = d + p \<and> demo_due Delay d now p = now + p
         \<and> (\<exists>k. demo_due Skip d now p = d + k * p) \<and> now < demo_due Skip d now p \<and> demo_due Skip d now p \<le> now + p"
    by (cases "now \<le> d + 5000000") (simp_all add: demo_due_def [of _ d now p] | metis)+
qed

definition demo_old :: task_system where
  "demo_old = \<lparr>shared = (demo_world [] [])\<lparr>db := empty_db\<lparr>users := [demo_user 1]\<rparr>\<rparr>, in_flight = [], stopping = False\<rparr>"

definition demo_process :: manager where
  "demo_process = the (start_process demo_externs (\<lambda>_. []) default_task_settings 7 demo_old)"

lemma demo_starts: "start_process demo_externs (\<lambda>_. []) default_task_settings 7 demo_old = Some demo_process"
proof -
  have "\<exists>g. start_process demo_externs (\<lambda>_. []) default_task_settings 7 demo_old = Some g"
    by (simp add: start_process_def demo_old_def demo_world_def empty_db_def application_build_def ensure_bootstrap_admin_if_empty_def
        setup_task_runtime_def new_pair_def sanitize_task_settings_def or_default_def default_task_settings_def
        recover_outbox_tasks_def reclaim_stale_running_outbox_def update_outbox_def due_rows_def count_where_def update_where_def
        and_then_def attempt_def modify_def return_def map_err_def select_no_fault sql_def Let_def from_secs_def)
  then show ?thesis by (auto simp: demo_process_def)
qed

theorem process_refines_server_witness:
  "tables_ok (db (shared (tasks (fold (process_step demo_externs 3600 demo_due) [FirstTick 0, Pass 600000000 600000, Tick 0 True, DropManager]
     demo_process))))"
proof -
  have "tables_ok (db (shared demo_old))"
    by (simp add: demo_old_def demo_world_def demo_user_def empty_db_def tables_ok_def refs_ok_def keys_ok_def rule_rows_ok_def wf_outbox_def)
  with process_refines_server [OF demo_starts refl] show ?thesis by blast
qed

lemma demo_timer:
  "timers demo_process ! 0 = \<lparr>tm_job = PullOutbox 100 300000000000, tm_period = 500000000, tm_next = 7, tm_missed = Skip,
     tm_state = Starting, tm_runs = []\<rparr>" "length (timers demo_process) = 2" "instant demo_process = 7"
proof -
  let ?s = "sanitize_task_settings default_task_settings"
  obtain login rt w where build: "application_build demo_externs (\<lambda>_. []) default_task_settings (shared (step 0 Crash demo_old)) = (Ok (login, rt), w)"
    and g: "demo_process = \<lparr>tasks = \<lparr>shared = w, in_flight = [], stopping = False\<rparr>, timers = started_timers ?s rt 7,
           worker_limit = rt_workers rt, worker_over = False, stop_value = False, stop_held = True, instant = 7\<rparr>"
    using demo_starts by (rule start_processD)
  obtain v v' where "setup_task_runtime ?s v = ((Ok rt :: (anyhow, _) result), v')" using build by (rule build_runtime)
  from setup_runtime_jobs [OF this] show "timers demo_process ! 0 = \<lparr>tm_job = PullOutbox 100 300000000000, tm_period = 500000000,
      tm_next = 7, tm_missed = Skip, tm_state = Starting, tm_runs = []\<rparr>" "length (timers demo_process) = 2" "instant demo_process = 7"
    by (simp_all add: g started_timers_def register_periodic_tasks_def add_interval_task_def from_secs_def from_millis_def
        sanitize_task_settings_def or_default_def default_task_settings_def)
qed

lemma tick_calm: "tick due free now w t = (if tick_due now t
    then t\<lparr>tm_next := due (tm_missed t) (tm_next t) now (tm_period t), tm_runs := tm_runs t @ [now]\<rparr> else t)"
  using calm_job [of free "tm_job t" w] by (auto simp: tick_def tick_due_def)

lemma timer_steps:
  "0 < length (timers g) \<Longrightarrow> timers (at_timer 0 f g) ! 0 = f (timers g ! 0)"
  "0 < length (timers g) \<Longrightarrow> timers (tick_timer due 0 free g) ! 0 = tick due free (instant g) (shared (tasks g)) (timers g ! 0)"
  "length (timers (at_timer 0 f g)) = length (timers g)" "length (timers (tick_timer due 0 free g)) = length (timers g)"
  "instant (tick_timer due 0 free g) = instant g" "stop_value (tick_timer due 0 free g) = stop_value g"
  by (auto simp: at_timer_def tick_timer_def tick_def)

text \<open>The pull ticks every half a second; its tick is taken more than two periods late and a second time at once.\<close>

definition late_events :: "manager_event list" where
  "late_events = [FirstTick 0, Pass 1700000000 1700000, Tick 0 True, Tick 0 True, Pass 300000000 300000, Tick 0 True, DropManager, StopSeen 0]"


text \<open>
  A dropped sender stops the worker, which looks at the error of \<open>changed()\<close>; for an interval task the branch is ready
  again and again and does nothing, so its loop spins.
\<close>

theorem dropped_sender_spins:
  assumes "\<not> stop_held g" and "\<not> stop_value g" and "k < length (timers g)" and "tm_state (timers g ! k) = Looping"
  shows "stop_ready (stop_value g) (stop_held g) \<and> process_step X expiration due (StopSeen k) g = g
    \<and> (working g \<longrightarrow> stopping (tasks (process_step X expiration due WorkerStops g)))"
  using assms by (simp add: stop_ready_def at_timer_def stop_branch_def)

section \<open>Stopping\<close>

text \<open>Once it is stopping the worker takes nothing; the commands that run are finished one by one, then it returns.\<close>

lemma stopping_step:
  assumes "stopping (tasks g)"
  shows "stopping (tasks (process_step X expiration due e g))"
  using assms by (cases e) (auto simp: tick_timer_def end_worker_def receive_def settle_def)

lemma in_flight_step:
  assumes "stopping (tasks g)"
  shows "set (in_flight (tasks (process_step X expiration due e g))) \<subseteq> set (in_flight (tasks g))
    \<and> length (in_flight (tasks (process_step X expiration due e g))) \<le> length (in_flight (tasks g))"
  using assms
  by (cases e) (auto simp: tick_timer_def end_worker_def receive_def settle_def dest: in_set_takeD in_set_dropD)

lemma in_flight_run:
  "stopping (tasks g) \<Longrightarrow> set (in_flight (tasks (fold (process_step X expiration due) es g))) \<subseteq> set (in_flight (tasks g))
    \<and> length (in_flight (tasks (fold (process_step X expiration due) es g))) \<le> length (in_flight (tasks g))"
proof (induction es arbitrary: g)
  case (Cons e es)
  from Cons.IH [OF stopping_step [OF Cons.prems]] in_flight_step [OF Cons.prems] show ?case
    by (fastforce intro: order_trans)
qed simp

lemma worker_finishes:
  "working g \<Longrightarrow> stopping (tasks g) \<Longrightarrow> length rs = length (in_flight (tasks g)) \<Longrightarrow>
   worker_over (fold (process_step X expiration due) (map (WorkerDone 0) rs @ [WorkerReturns]) g)"
proof (induction rs arbitrary: g)
  case Nil
  then show ?case by (simp add: end_worker_def)
next
  case (Cons r rs)
  let ?g = "process_step X expiration due (WorkerDone 0 r) g"
  have "working ?g" "stopping (tasks ?g)" "length rs = length (in_flight (tasks ?g))"
    using Cons.prems by (simp_all add: working_def settle_def) (cases "in_flight (tasks g)", simp_all)
  from Cons.IH [OF this] show ?case by simp
qed

text \<open>C18: After the stop signal the worker drains. Whatever happens, it takes no further task and has
  no more commands in flight than when it noticed the signal; and as soon as these have ended, with whatever results, it can return.\<close>

theorem stopped_worker_drains:
  assumes "working g" and "stop_value g \<or> \<not> stop_held g"
    and "g' = fold (process_step X expiration due) es (process_step X expiration due WorkerStops g)"
  shows "set (in_flight (tasks g')) \<subseteq> set (in_flight (tasks g)) \<and> length (in_flight (tasks g')) \<le> length (in_flight (tasks g))
    \<and> (working g' \<longrightarrow> length rs = length (in_flight (tasks g')) \<longrightarrow>
        worker_over (fold (process_step X expiration due) (map (WorkerDone 0) rs @ [WorkerReturns]) g'))"
proof -
  let ?g = "process_step X expiration due WorkerStops g"
  have stop: "stopping (tasks ?g)" using assms(1,2) by (simp add: stop_ready_def)
  have "in_flight (tasks ?g) = in_flight (tasks g)" by simp
  then have "set (in_flight (tasks g')) \<subseteq> set (in_flight (tasks g)) \<and> length (in_flight (tasks g')) \<le> length (in_flight (tasks g))"
    using in_flight_run [OF stop] unfolding assms(3) by metis
  moreover have "stopping (tasks g')"
    unfolding assms(3) using stop by (induction es rule: rev_induct) (simp_all add: stopping_step)
  ultimately show ?thesis by (blast intro: worker_finishes)
qed


section \<open>Shutting down\<close>

text \<open>
  \<open>shutdown\<close> after the signal: it waits for one task after the other, for each at most 30 seconds from the instant its
  turn comes, and aborts the one that has not ended by then; at that very instant either may happen. A
  task is given by the instant it ends at, \<open>None\<close> if it does not end by itself; the outcome is whether it was joined. The last
  argument is the instant \<open>shutdown\<close> returns.
\<close>

definition grace :: duration where
  "grace = from_secs 30"

inductive shutdown :: "nat \<Rightarrow> nat option list \<Rightarrow> bool list \<Rightarrow> nat \<Rightarrow> bool" where
  no_more: "shutdown now [] [] now"
| joined: "f \<le> now + grace \<Longrightarrow> shutdown (max now f) fs os e \<Longrightarrow> shutdown now (Some f # fs) (True # os) e"
| timed_out: "f = None \<or> now + grace \<le> the f \<Longrightarrow> shutdown (now + grace) fs os e \<Longrightarrow> shutdown now (f # fs) (False # os) e"

inductive_cases shutdown_NilE: "shutdown now [] os e"
inductive_cases shutdown_ConsE: "shutdown now (f # fs) os e"

definition handles :: "manager \<Rightarrow> nat" where
  "handles g = (if worker_limit g = None then 0 else 1) + length (timers g)"

lemma shutdown_returns: "\<exists>os e. shutdown now fs os e"
proof (induction fs arbitrary: now)
  case Nil
  show ?case by (blast intro: no_more)
next
  case (Cons f fs)
  show ?case
  proof (cases "\<exists>t. f = Some t \<and> t \<le> now + grace")
    case True
    then obtain t where "f = Some t" "t \<le> now + grace" by blast
    with Cons.IH [of "max now t"] show ?thesis by (blast intro: joined)
  next
    case False
    then have "f = None \<or> now + grace \<le> the f" by (cases f) auto
    with Cons.IH [of "now + grace"] show ?thesis by (blast intro: timed_out)
  qed
qed

lemma shutdown_time: "shutdown now fs os e \<Longrightarrow> length os = length fs \<and> now \<le> e \<and> e \<le> now + length fs * grace"
  by (induction rule: shutdown.induct) auto

lemma shutdown_outcomes:
  "shutdown now fs os e \<Longrightarrow> list_all2 (\<lambda>f joined. case f of
       None \<Rightarrow> \<not> joined | Some t \<Rightarrow> (joined \<longrightarrow> t \<le> e) \<and> (t < now + grace \<longrightarrow> joined)) fs os"
proof (induction rule: shutdown.induct)
  case (joined f now fs os e)
  have "max now f \<le> e" using shutdown_time [OF joined(2)] by simp
  moreover have "list_all2 (\<lambda>f joined. case f of None \<Rightarrow> \<not> joined | Some t \<Rightarrow> (joined \<longrightarrow> t \<le> e) \<and> (t < now + grace \<longrightarrow> joined)) fs os"
    using joined.IH by (rule list_all2_mono) (auto split: option.splits)
  ultimately show ?case by simp
next
  case (timed_out f now fs os e)
  have "list_all2 (\<lambda>f joined. case f of None \<Rightarrow> \<not> joined | Some t \<Rightarrow> (joined \<longrightarrow> t \<le> e) \<and> (t < now + grace \<longrightarrow> joined)) fs os"
    using timed_out.IH by (rule list_all2_mono) (auto split: option.splits)
  with timed_out(1) show ?case by (auto split: option.splits)
qed simp

lemma handles_step: "handles (process_step X expiration due e g) = handles g"
proof -
  have "length (timers (process_step X expiration due e g)) = length (timers g)"
    using arg_cong [OF plans_step, of length] by simp
  then show ?thesis by (simp add: handles_def)
qed

lemma handles_run: "handles (fold (process_step X expiration due) es g) = handles g"
  by (induction es arbitrary: g) (simp_all add: handles_step)

text \<open>C17: The shutdown of a process always returns, at the latest 90 seconds after the signal, even if no task
  ends by itself. A task that ends within 30 seconds is never aborted, and a task that was joined has ended.\<close>

theorem shutdown_returns_in_time:
  assumes "start_process X simple s t0 old = Some g0" and "g = fold (process_step X expiration due) es g0"
    and "length fs = handles g"
  shows "(\<exists>os e. shutdown now fs os e)
    \<and> (\<forall>os e. shutdown now fs os e \<longrightarrow> e \<le> now + from_secs 90
        \<and> list_all2 (\<lambda>f joined. case f of
            None \<Rightarrow> \<not> joined | Some t \<Rightarrow> (joined \<longrightarrow> t \<le> e) \<and> (t < now + from_secs 30 \<longrightarrow> joined)) fs os)"
proof -
  have "handles g0 \<le> 3"
    using arg_cong [OF started_manager(1) [OF assms(1)], of length]
    by (simp add: handles_def configured_jobs_def split: if_splits)
  then have "length fs \<le> 3" using assms(2,3) by (simp add: handles_run)
  then have "length fs * grace \<le> from_secs 90" by (simp add: grace_def from_secs_def)
  with shutdown_returns [of now fs] shutdown_time shutdown_outcomes show ?thesis
    unfolding grace_def by (meson add_left_mono order_trans)
qed

theorem shutdown_returns_in_time_witness:
  "\<exists>os e. shutdown 1000 [None, Some 5, Some 70000000000] os e \<and> e \<le> 1000 + from_secs 90"
proof -
  have "handles demo_process = 3"
    using arg_cong [OF started_manager(1) [OF demo_starts], of length] started_manager(5) [OF demo_starts]
    by (simp add: handles_def configured_jobs_def sanitize_task_settings_def default_task_settings_def)
  then have "length [None, Some (5 :: nat), Some 70000000000] = handles (fold (process_step demo_externs 3600 demo_due) [] demo_process)"
    by simp
  from shutdown_returns_in_time [OF demo_starts refl this, of 1000] show ?thesis by blast
qed

theorem stopped_worker_drains_witness:
  "worker_over (fold (process_step demo_externs 3600 demo_due) [WorkerReturns]
     (process_step demo_externs 3600 demo_due WorkerStops (process_step demo_externs 3600 demo_due SendStop demo_process)))"
proof -
  let ?g = "process_step demo_externs 3600 demo_due SendStop demo_process"
  have "stop_held demo_process" "working demo_process"
    using started_manager(4,5,6) [OF demo_starts] by (simp_all add: working_def default_task_settings_def)
  then have g: "working ?g" "stop_value ?g \<or> \<not> stop_held ?g" by (simp_all add: working_def)
  have "in_flight (tasks demo_process) = []" using started_manager(7) [OF demo_starts] .
  then have empty: "in_flight (tasks (process_step demo_externs 3600 demo_due WorkerStops ?g)) = []" by simp
  have "working (process_step demo_externs 3600 demo_due WorkerStops ?g)" using g by (simp add: working_def)
  with stopped_worker_drains [OF g, of _ demo_externs 3600 demo_due "[]" "[]"] empty show ?thesis by simp
qed


end
