(* ===== verification/Configuration.thy ===== *)
theory Configuration
  imports Manager Search
begin

text \<open>
  \<open>configuration.rs\<close> and the first steps of \<open>startup.rs\<close>: which files the configuration is read from, the
  settings with the defaults of missing keys, and what the services are opened with. Merging the sources and
  decoding them (\<open>load\<close>) is the configuration library's.
\<close>

section \<open>The environment\<close>

datatype environment = Local | Production

definition environment_as_str :: "environment \<Rightarrow> string" where
  "environment_as_str e = (case e of Local \<Rightarrow> ''local'' | Production \<Rightarrow> ''production'')"

definition environment_try_from :: "string \<Rightarrow> string + environment" where
  "environment_try_from v =
     (let s = to_lowercase v
      in if s = ''local'' then Inr Local
         else if s = ''production'' then Inr Production
         else Inl (s @ '' Failed to parse environment, please use `local` or `production`''))"

section \<open>Settings\<close>

record database_settings =
  ds_username :: string
  ds_password :: string
  ds_port :: "16 word"
  ds_host :: string
  ds_name :: string
  ds_require_ssl :: bool
  ds_max_connections :: "32 word option"
  ds_min_connections :: "32 word option"

record storage_settings =
  st_endpoint :: string
  st_region :: string
  st_access_key :: string
  st_secret_key :: string
  st_bucket :: string
  st_sig_exp :: "64 word"
  st_view_exp :: "64 word"

text \<open>The section \<open>tasks\<close> as it is written: every key may be missing.\<close>

record task_keys =
  tk_cleanup_interval :: "64 word option"
  tk_cleanup_min_age :: "64 word option"
  tk_queue_size :: "64 word option"
  tk_concurrency :: "64 word option"
  tk_enabled :: "bool option"
  tk_pull_interval :: "64 word option"
  tk_pull_batch :: "64 word option"
  tk_running_timeout :: "64 word option"

definition read_task_settings :: "task_keys option \<Rightarrow> task_settings" where
  "read_task_settings sec =
     (case sec of
        None \<Rightarrow> default_task_settings
      | Some k \<Rightarrow>
          \<lparr>orphan_cleanup_interval_seconds = coalesce (tk_cleanup_interval k) (60 * 60),
           orphan_cleanup_min_age_seconds = coalesce (tk_cleanup_min_age k) (60 * 60),
           command_queue_size = coalesce (tk_queue_size k) 1024,
           command_worker_concurrency = coalesce (tk_concurrency k) 32,
           command_worker_enabled = coalesce (tk_enabled k) True,
           outbox_pull_interval_millis = coalesce (tk_pull_interval k) 500,
           outbox_pull_batch_size = coalesce (tk_pull_batch k) 100,
           outbox_running_timeout_seconds = coalesce (tk_running_timeout k) (5 * 60)\<rparr>)"

record settings =
  se_database :: database_settings
  se_port :: "16 word"
  se_host :: string
  se_base_url :: string
  se_log :: "string \<times> string \<times> string"
  se_jwt_secret :: string
  se_jwt_expiration :: "64 word"
  se_storage :: storage_settings
  se_redis_uri :: string
  se_tasks :: task_settings

section \<open>Reading the configuration\<close>

text \<open>A later source overrides an earlier one.\<close>

datatype config_source =
    FileSource string
  | EnvironmentSource string string string

definition path_join :: "string \<Rightarrow> string \<Rightarrow> string" where
  "path_join p q = (if p \<noteq> [] \<and> last p = CHR ''/'' then p @ q else p @ ''/'' @ q)"

text \<open>
  \<open>cwd\<close> is the current directory, \<open>None\<close> if it cannot be read or is not valid text; \<open>env\<close> is the value of
  \<open>APP_ENVIRONMENT\<close>.
\<close>

definition config_sources :: "string \<Rightarrow> environment \<Rightarrow> config_source list" where
  "config_sources cwd e =
     (let config_dir = path_join cwd ''configuration''
      in [FileSource (path_join config_dir ''base''), FileSource (path_join config_dir (environment_as_str e)),
          EnvironmentSource ''APP'' ''_'' ''__''])"

definition get_configuration :: "(config_source list \<Rightarrow> ('e, settings) result) \<Rightarrow> string option \<Rightarrow> string option \<Rightarrow> ('e, settings) result" where
  "get_configuration load cwd env =
     (case cwd of
        None \<Rightarrow> Panic
      | Some dir \<Rightarrow>
          (case environment_try_from (coalesce env ''local'') of
             Inl _ \<Rightarrow> Panic
           | Inr e \<Rightarrow> load (config_sources dir e)))"

section \<open>Opening the services\<close>

datatype ssl_mode = SslRequire | SslPrefer

record connect_options =
  co_host :: string
  co_port :: "16 word"
  co_username :: string
  co_password :: string
  co_ssl :: ssl_mode
  co_database :: "string option"

definition without_db :: "database_settings \<Rightarrow> connect_options" where
  "without_db s =
     \<lparr>co_host = ds_host s, co_port = ds_port s, co_username = ds_username s, co_password = ds_password s,
      co_ssl = (if ds_require_ssl s then SslRequire else SslPrefer), co_database = None\<rparr>"

definition with_db :: "database_settings \<Rightarrow> connect_options" where
  "with_db s = (without_db s)\<lparr>co_database := Some (ds_name s)\<rparr>"

record pool_options =
  po_max :: "32 word"
  po_min :: "32 word"
  po_acquire_timeout :: duration
  po_connect :: connect_options

definition get_connection_pool :: "database_settings \<Rightarrow> pool_options" where
  "get_connection_pool s =
     \<lparr>po_max = coalesce (ds_max_connections s) 32, po_min = coalesce (ds_min_connections s) 5,
      po_acquire_timeout = from_secs 2, po_connect = with_db s\<rparr>"

record s3_storage =
  s3_bucket_name :: string
  s3_sig_exp :: duration
  s3_view_exp :: duration

definition s3_from_config :: "storage_settings \<Rightarrow> s3_storage" where
  "s3_from_config s =
     \<lparr>s3_bucket_name = st_bucket s, s3_sig_exp = from_secs (unat (st_sig_exp s)), s3_view_exp = from_secs (unat (st_view_exp s))\<rparr>"

record initialized =
  in_address :: string
  in_pool :: pool_options
  in_jwt :: "string \<times> 64 word"
  in_storage :: s3_storage
  in_redis :: string
  in_tasks :: task_settings

text \<open>\<open>RedisCache::from_config\<close> panics for a URI that its library cannot read (\<open>uri_ok\<close>).\<close>

definition initialize_application :: "(string \<Rightarrow> bool) \<Rightarrow> settings \<Rightarrow> ('e, initialized) result" where
  "initialize_application uri_ok s =
     (if \<not> uri_ok (se_redis_uri s) then Panic
      else Ok \<lparr>in_address = se_host s @ '':'' @ decimal (unat (se_port s)), in_pool = get_connection_pool (se_database s),
               in_jwt = (se_jwt_secret s, se_jwt_expiration s), in_storage = s3_from_config (se_storage s),
               in_redis = se_redis_uri s, in_tasks = sanitize_task_settings (se_tasks s)\<rparr>)"

section \<open>Properties\<close>

lemma lowercase_environment [simp]: "to_lowercase (environment_as_str e) = environment_as_str e"
  by (cases e) (simp_all add: environment_as_str_def to_lowercase_def lower_char_def is_upper_def)

lemma environment_roundtrip: "environment_try_from (environment_as_str e) = Inr e"
  unfolding environment_try_from_def Let_def lowercase_environment by (cases e) (simp_all add: environment_as_str_def)

lemma environment_try_from_iff: "environment_try_from v = Inr e \<longleftrightarrow> to_lowercase v = environment_as_str e"
  by (cases e) (auto simp: environment_try_from_def environment_as_str_def Let_def)

text \<open>The files are read for the environment that \<open>APP_ENVIRONMENT\<close> names in any case, the local one if it is not set; any
  other value ends the process.\<close>

theorem configuration_follows_the_environment:
  "get_configuration load (Some dir) (Some v) =
     (if to_lowercase v = ''local'' then load (config_sources dir Local)
      else if to_lowercase v = ''production'' then load (config_sources dir Production) else Panic)"
  "get_configuration load (Some dir) None = load (config_sources dir Local)"
proof -
  show "get_configuration load (Some dir) (Some v) =
     (if to_lowercase v = ''local'' then load (config_sources dir Local)
      else if to_lowercase v = ''production'' then load (config_sources dir Production) else Panic)"
    by (simp add: get_configuration_def environment_try_from_def Let_def coalesce_def)
  show "get_configuration load (Some dir) None = load (config_sources dir Local)"
    by (simp add: get_configuration_def coalesce_def environment_roundtrip [of Local, unfolded environment_as_str_def, simplified])
qed

text \<open>The value a key takes effect with.\<close>

definition effective :: "64 word option \<Rightarrow> 64 word \<Rightarrow> 64 word" where
  "effective v d = (case v of None \<Rightarrow> d | Some x \<Rightarrow> if x = 0 then d else x)"

definition no_keys :: task_keys where
  "no_keys = \<lparr>tk_cleanup_interval = None, tk_cleanup_min_age = None, tk_queue_size = None, tk_concurrency = None, tk_enabled = None,
     tk_pull_interval = None, tk_pull_batch = None, tk_running_timeout = None\<rparr>"

lemma read_none: "read_task_settings None = read_task_settings (Some no_keys)"
  by (simp add: read_task_settings_def no_keys_def default_task_settings_def coalesce_def)

lemma or_default_coalesce: "or_default (coalesce v d) d = effective v d"
  by (simp add: or_default_def coalesce_def effective_def split: option.splits)

lemma sanitized_keys:
  "sanitize_task_settings (read_task_settings (Some k)) =
     \<lparr>orphan_cleanup_interval_seconds = effective (tk_cleanup_interval k) (60 * 60),
      orphan_cleanup_min_age_seconds = effective (tk_cleanup_min_age k) (60 * 60),
      command_queue_size = effective (tk_queue_size k) 1024,
      command_worker_concurrency = effective (tk_concurrency k) 32,
      command_worker_enabled = coalesce (tk_enabled k) True,
      outbox_pull_interval_millis = effective (tk_pull_interval k) 500,
      outbox_pull_batch_size = effective (tk_pull_batch k) 100,
      outbox_running_timeout_seconds = effective (tk_running_timeout k) (5 * 60)\<rparr>"
  unfolding sanitize_task_settings_def read_task_settings_def default_task_settings_def option.case task_settings.simps
    or_default_coalesce ..

lemma sanitize_twice: "sanitize_task_settings (sanitize_task_settings s) = sanitize_task_settings s"
  by (simp add: sanitize_task_settings_def or_default_def default_task_settings_def)

lemma effective_positive: "0 < d \<Longrightarrow> 0 < unat (effective v d)"
  by (auto simp: effective_def unat_gt_0 split: option.splits)

text \<open>C34: What is written under \<open>tasks\<close> in the configuration is what the process does. A key that is missing or zero has its
  default; with these values, all positive, the pulls and cleanups of the process are timed and sized
  and its worker is limited, and a disabled worker leaves only the cleanup.\<close>

theorem written_settings_take_effect:
  assumes "initialize_application uri_ok s = Ok i" and "se_tasks s = read_task_settings sec"
    and "start_process X simple (in_tasks i) now old = Some g" and "k = coalesce sec no_keys"
  shows "map plan (timers g) =
      (if coalesce (tk_enabled k) True
       then [(PullOutbox (unat (effective (tk_pull_batch k) 100)) (from_secs (unat (effective (tk_running_timeout k) 300))),
              from_millis (unat (effective (tk_pull_interval k) 500)))] else [])
      @ [(CleanupOrphans (from_secs (unat (effective (tk_cleanup_min_age k) 3600))), from_secs (unat (effective (tk_cleanup_interval k) 3600)))]
    \<and> worker_limit g = (if coalesce (tk_enabled k) True then Some (unat (effective (tk_concurrency k) 32)) else None)
    \<and> list_all (\<lambda>(v, d). 0 < unat (effective v d))
        [(tk_pull_batch k, 100), (tk_running_timeout k, 300), (tk_pull_interval k, 500), (tk_cleanup_min_age k, 3600),
         (tk_cleanup_interval k, 3600), (tk_concurrency k, 32)]"
proof -
  have "read_task_settings sec = read_task_settings (Some k)"
    using read_none assms(4) by (cases sec) (simp_all add: coalesce_def)
  then have t: "in_tasks i = sanitize_task_settings (read_task_settings (Some k))"
    using assms(1,2) by (auto simp: initialize_application_def split: if_splits)
  have "map plan (timers g) = configured_jobs (in_tasks i)"
    using started_manager(1) [OF assms(3)] by (simp add: t sanitize_twice)
  moreover have "worker_limit g = (if command_worker_enabled (in_tasks i)
      then Some (max 1 (unat (command_worker_concurrency (in_tasks i)))) else None)"
    using started_manager(5) [OF assms(3)] by (simp add: t sanitize_twice)
  moreover have "max 1 (unat (effective v 32)) = unat (effective v 32)" for v
    using effective_positive [of 32 v] by simp
  ultimately show ?thesis
    using effective_positive by (simp add: t sanitized_keys configured_jobs_def)
qed


definition demo_settings :: settings where
  "demo_settings =
     \<lparr>se_database = \<lparr>ds_username = ''postgres'', ds_password = ''password'', ds_port = 5432, ds_host = ''127.0.0.1'',
        ds_name = ''cqwu'', ds_require_ssl = False, ds_max_connections = Some 20, ds_min_connections = None\<rparr>,
      se_port = 8000, se_host = ''0.0.0.0'', se_base_url = '''', se_log = (''logs'', ''api'', ''info''), se_jwt_secret = ''key'',
      se_jwt_expiration = 3600,
      se_storage = \<lparr>st_endpoint = '''', st_region = '''', st_access_key = '''', st_secret_key = '''', st_bucket = ''achievements'',
        st_sig_exp = 600, st_view_exp = 600\<rparr>,
      se_redis_uri = ''redis://127.0.0.1/'', se_tasks = read_task_settings None\<rparr>"

theorem written_settings_take_effect_witness:
  "map plan (timers demo_process) =
     [(PullOutbox 100 (from_secs 300), from_millis 500), (CleanupOrphans (from_secs 3600), from_secs 3600)]"
proof -
  define i where "i = (case initialize_application (\<lambda>_. True) demo_settings :: (unit, initialized) result of Ok x \<Rightarrow> x)"
  have i: "initialize_application (\<lambda>_. True) demo_settings = (Ok i :: (unit, initialized) result)"
    by (simp add: i_def initialize_application_def)
  have "in_tasks i = default_task_settings"
    by (simp add: i_def initialize_application_def demo_settings_def read_task_settings_def sanitize_task_settings_def
        or_default_def default_task_settings_def)
  then have start: "start_process demo_externs (\<lambda>_. []) (in_tasks i) 7 demo_old = Some demo_process"
    using demo_starts by simp
  have "se_tasks demo_settings = read_task_settings None" by (simp add: demo_settings_def)
  from written_settings_take_effect [OF i this start refl]
  show ?thesis by (simp add: coalesce_def no_keys_def effective_def)
qed


end
