(* ===== verification/Spec2Isabelle.thy ===== *)
theory Spec2Isabelle
  imports Commands Worker Documentation Validity Configuration
begin

text \<open>
  A model of the achievement archive server (\<open>src/src\<close>), with theorems about it.

  \<^bold>\<open>The program.\<close> An HTTP server (\<open>startup.rs\<close>) with PostgreSQL, Redis and an S3 bucket behind it. Every
  request to \<open>/api\<close> except the login passes a middleware that checks the token, the account and the
  access rules. Administrators manage accounts, access rules and templates; a template is a JSON schema
  whose file fields carry a configuration. Users create records from templates: they open an upload
  session in Redis, get signed upload URLs as long as the session's quota lasts, and submit the record; its row, the
  rows of its files and the copies of the uploaded objects are made together. Objects that have to be deleted are
  named in commands, which are stored in the table \<open>task_outbox\<close>, dispatched through a bounded channel to
  a worker, retried and settled. A periodic cleanup removes objects no row refers to.

  \<^bold>\<open>State and calls.\<close> The theory World has one record \<open>world\<close>: the tables of \<open>src/migrations\<close> as lists of rows, Redis as
  a map with expiry times, the bucket as a list of objects, the cache of compiled schemas, the channel, the
  clock and the ids still to be drawn. A function of the source is a program \<open>world \<Rightarrow> result \<times> world\<close> (Prelude):
  \<open>Ok\<close>, \<open>Err\<close> (the source's error type), or \<open>Panic\<close>; \<open>and_then\<close> is the \<open>?\<close> operator, \<open>attempt\<close> a match on the
  result. An SQL statement is a function on the tables that yields an SQLSTATE or new tables; constraints,
  column widths and cascades are written into it. Every call to a service draws an entry of the list
  \<open>faults\<close>; a theorem about all worlds therefore covers every pattern of failing calls. A call that fails has no
  effect, except that a batch deletion may fail for single keys. A transaction keeps the tables of its begin and
  puts them back. Requests run one after the other: an event of
  Runs or Manager is a whole request or job. Finer interleavings are modelled for the commands of the worker (Worker) and for one
  race (\<open>racing_load_keeps_the_old_schema\<close>). Texts are ASCII, messages translated; times are
  microseconds, durations nanoseconds; \<open>i64\<close> and \<open>u64\<close> are 64-bit words.

  \<^bold>\<open>Parameters.\<close> The functions of other libraries are the fields of the record \<open>externs\<close> (World): printing and parsing
  of ids, the JSON schema validator, URL signing and encoding, Argon2, the token codec, MIME guessing, the
  e-mail check, PostgreSQL's evaluation of a filter on a row, and the number format of Redis' JSON library. What is assumed of them
  is \<open>uuid_codec\<close> (ids print without slash or dot and parse back) and, for single theorems, that a password
  verifies against its hash, or is the only one that does, and that an encoded token decodes until it expires. Two more are arguments
  where they are used: the next tick of an interval (\<open>due\<close> in Manager, for each of the three treatments of missed ticks as
  documented, \<open>on_schedule\<close>) and the loading of the configuration
  (\<open>load\<close> in Configuration). The order of rows that tie in an \<open>ORDER BY\<close> is left open: it is the field \<open>ties\<close> of the database,
  of which nothing is assumed (\<open>in_order\<close> in Access, \<open>every_order_is_possible\<close> in Search). Demo has functions that satisfy this, used by the witnesses.

  \<^bold>\<open>Theories.\<close>
  \<^item> Prelude: results, programs, the rules \<open>keeps\<close> for invariants over programs, table operations, chunking.
  \<^item> Text, Json: the string functions of the standard library and SQL's \<open>LIKE\<close>; JSON values.
  \<^item> Common (\<open>common/\<close>): errors with their status, the response envelope, pages. The pages of a query cover its rows
    once and in order; an internal error never leaves the server in detail.
  \<^item> Domain (\<open>domain/http_method.rs\<close>, \<open>user_role.rs\<close>, \<open>query_sort.rs\<close>, \<open>route_registry.rs\<close>): enumerations with their orders, the registered
    routes as a sorted set.
  \<^item> Schema_Files (\<open>domain/schema.rs\<close>): file fields written into and read from schemas; when writing panics; what the
    template check refuses.
  \<^item> World, Storage (\<open>utils/s3_storage.rs\<close>, \<open>utils/redis_cache.rs\<close>): the primitive calls. The locale \<open>expiring_store\<close> states what the
    sessions need of Redis and is interpreted by the model of it.
  \<^item> Outbox (\<open>tasks/dispatcher.rs\<close>, \<open>periodic/outbox_pull.rs\<close>), Commands (\<open>tasks/handler/\<close>), Worker (\<open>tasks/manager.rs\<close>): storing, claiming,
    requeueing and recovering commands; the retry loop and the deletion command; the worker as a transition system
    whose events are submissions, pulls, recoveries, receptions, settlements, outages, crashes and passing time.
    Reachable states keep the outbox well formed; only a success removes a command; a claimed row
    has one owner while the running timeout is respected; a stored command is eventually dispatched by a pull with room.
    The retry loop is a recursion on the attempts left, so it ends; its schedule of delays is exact.
  \<^item> Access (\<open>middleware/auth.rs\<close>, \<open>modules/admin/api_rule/\<close>): what passes the middleware, granting and revoking, route lists.
  \<^item> Users (\<open>modules/auth\<close>, \<open>modules/user\<close>, \<open>modules/admin/user\<close>, \<open>utils/jwt.rs\<close>, \<open>utils/password.rs\<close>): login, accounts, passwords, avatars; references
    between tables stay valid; a deleted user is locked out.
  \<^item> Templates (\<open>modules/admin/template/\<close>, \<open>utils/schema.rs\<close>, the context functions of \<open>modules/archive/service.rs\<close>): handlers and the cache. The
    locale \<open>memo_cache\<close> states how fills and removals keep a cache coherent; a loaded context is the one of the stored schema.
  \<^item> Uploads (\<open>modules/archive/\<close>): sessions, the Lua script that takes from the quota, upload URLs. Over any run of requests a session
    grants at most its quota, and only what the field allows.
  \<^item> Archive (\<open>modules/archive/\<close>): creation and deletion of records. Both are all or nothing under any failures; what is
    created meets its template; no copied or deleted object is forgotten.
  \<^item> Search (\<open>query_archive_records\<close>, \<open>utils/schema.rs\<close>): the SQL text and its bound values, the pages
    (slices of a sorted permutation of the hits; with ties they may overlap), the links of the file fields.
  \<^item> Cleanup (\<open>periodic/s3_cleanup.rs\<close>): never removes what is in use or young, removes every old orphan, and agrees with the avatar handler
    on the object of an avatar.
  \<^item> Startup (\<open>startup.rs\<close>, \<open>configuration.rs\<close>): task settings, the first administrator, the start of the task runtime.
  \<^item> Tables: the statements that write tables, as the relation \<open>table_write\<close>, and a chain of locales in which all handlers and tasks
    are shown to keep any invariant these statements keep: \<open>row_invariant\<close> (no template is written, a record is only
    inserted with allowed data), \<open>loading_invariant\<close> (contexts are loaded), \<open>server_invariant\<close> (everything), and \<open>table_invariant\<close>, for
    invariants that do not look at the cache, which gives the others. Its interpretations are the consistency of the tables
    (\<open>tables_ok\<close>), the absence of an account, ids that are not drawn, and (in Runs) a command that stays stored.
  \<^item> Server (\<open>startup.rs\<close> and the \<open>config\<close> functions of \<open>modules/\<close>): the route tables, the requests after decoding (\<open>api_call\<close>), and \<open>serve\<close>: the
    middleware, then the handler. What is served was authorised.
  \<^item> Routing: the routes every user may use act on the own account, and the routes an administrator is offered reach what
    they name.
  \<^item> Runs: requests, task events, cleanups, restarts and outages in any order (\<open>server_step\<close>). Reachable tables are consistent, a deleted
    account stays locked out, a login opens what its account may do, and the objects of deleted records are not forgotten.
  \<^item> Validity: an interpretation of \<open>server_invariant\<close> that looks at the cache: in every reachable state each stored record is valid
    for the schema its template has then, and each cached context is the one of the stored schema.
  \<^item> Documentation (\<open>documentation.rs\<close>, the \<open>utoipa::path\<close> attributes of the handlers): the OpenAPI document describes the routes of the router, and
    every answer has a documented status. The latter rests on the effects of the handlers: \<open>raises\<close> (the statuses of their
    errors) and \<open>ends\<close> (the shape of their results).
  \<^item> Panics: all handlers and periodic jobs again, for panics: a request panics only on file definitions that do not fit its schema.
  \<^item> Manager (\<open>tasks/manager.rs\<close>, the end of \<open>startup.rs\<close>): one process with its timers, worker, stop signal and shutdown. It refines
    Runs event by event; its timers run at most once in a period and survive failing jobs; the worker drains and the shutdown returns in time.
  \<^item> Configuration (\<open>configuration.rs\<close>, \<open>startup.rs\<close>): which files are read, defaults, and that the written settings are what a process does.

  \<^bold>\<open>Bounds.\<close> No definition uses fuel: loops run over lists, over the retries left, or over chunks whose
  length falls. The retry loop makes at most \<open>max_retries + 1\<close> attempts. Batches of deletions and listings have
  1000 keys, as in the services. Uploads assumes of quota and size that they have at most 14 digits where it speaks of the
  numbers Redis prints (\<open>configs_small\<close>). Arithmetic on pages wraps around, as in a release build; the lifetime of tokens is
  taken to keep dates in the range of the date library.

  \<^bold>\<open>Not modelled.\<close> Connecting, TLS, the HTTP protocol and the JSON decoding of requests, the order in which the router tries its paths
  (\<open>routed\<close> says which paths a route fits), logging, the descriptions and pages of the OpenAPI document, decoding the configuration files, migrations
  as a process, connection pools, an abort in the middle of a job, and the concurrency of requests
  beyond what is named above. A listing of the bucket is taken at one moment although it needs several pages.
\<close>

end
